(* ===== verification/Prelude.thy ===== *)
theory Prelude
  imports Main "HOL-Library.Word" "HOL-Library.List_Lexorder"
begin

text \<open>
  The shared layer of the development: the machine integers of the Rust code, the
  three-valued outcome of a Rust function (a value, an error, a panic), the checked and
  saturating arithmetic of the standard library, and \<open>BTreeMap\<close> as a strictly sorted
  association list, which makes iteration order and equality those of the code.
  The collections \<open>result_simps\<close>, \<open>num_defs\<close> and \<open>btree_simps\<close> carry the
  component proofs.
\<close>

named_theorems result_simps \<open>inversion of sequenced computations\<close>
named_theorems num_defs \<open>definitions of checked and saturating arithmetic\<close>
named_theorems btree_simps \<open>lookup and well-formedness of ordered maps\<close>

section \<open>Integers\<close>

type_synonym u8 = "8 word"
type_synonym u32 = "32 word"
type_synonym u64 = "64 word"
type_synonym u128 = "128 word"

text \<open>The largest value of a width, Rust's \<open>MAX\<close>.\<close>

abbreviation max_value :: "'a::len word" where
  "max_value \<equiv> - 1"

definition checked_add :: "'a::len word \<Rightarrow> 'a word \<Rightarrow> 'a word option" where
  [num_defs]: "checked_add x y = (if unat x + unat y < 2 ^ LENGTH('a) then Some (x + y) else None)"

definition checked_sub :: "'a::len word \<Rightarrow> 'a word \<Rightarrow> 'a word option" where
  [num_defs]: "checked_sub x y = (if y \<le> x then Some (x - y) else None)"

definition checked_mul :: "'a::len word \<Rightarrow> 'a word \<Rightarrow> 'a word option" where
  [num_defs]: "checked_mul x y = (if unat x * unat y < 2 ^ LENGTH('a) then Some (x * y) else None)"

definition checked_div :: "'a::len word \<Rightarrow> 'a word \<Rightarrow> 'a word option" where
  [num_defs]: "checked_div x y = (if y = 0 then None else Some (x div y))"

definition saturating_add :: "'a::len word \<Rightarrow> 'a word \<Rightarrow> 'a word" where
  [num_defs]: "saturating_add x y = (if unat x + unat y < 2 ^ LENGTH('a) then x + y else max_value)"

definition saturating_sub :: "'a::len word \<Rightarrow> 'a word \<Rightarrow> 'a word" where
  [num_defs]: "saturating_sub x y = (if y \<le> x then x - y else 0)"

definition saturating_mul :: "'a::len word \<Rightarrow> 'a word \<Rightarrow> 'a word" where
  [num_defs]: "saturating_mul x y = (if unat x * unat y < 2 ^ LENGTH('a) then x * y else max_value)"

text \<open>\<open>uN::try_from\<close> on an unbounded count (a \<open>usize\<close> length, a wider integer).\<close>

definition try_from_nat :: "nat \<Rightarrow> 'a::len word option" where
  [num_defs]: "try_from_nat n = (if n < 2 ^ LENGTH('a) then Some (of_nat n) else None)"

lemma unat_MAX: "unat (max_value :: 'a::len word) = 2 ^ LENGTH('a) - 1"
  by (simp add: unsigned_minus_1_eq_mask mask_eq_exp_minus_1)

lemma unat_lt_pow: "unat (x :: 'a::len word) < 2 ^ LENGTH('a)"
  by simp

lemma unat_plus_exact:
  "unat x + unat y < 2 ^ LENGTH('a) \<Longrightarrow> unat (x + y) = unat x + unat (y :: 'a::len word)"
  by (simp add: unat_word_ariths)

lemma unat_times_exact:
  "unat x * unat y < 2 ^ LENGTH('a) \<Longrightarrow> unat (x * y) = unat x * unat (y :: 'a::len word)"
  by (simp add: unat_word_ariths)

lemma unat_minus_exact: "y \<le> x \<Longrightarrow> unat (x - y) = unat x - unat (y :: 'a::len word)"
  by (rule unat_sub)

lemma checked_add_Some_iff [simp]:
  "checked_add x y = Some z \<longleftrightarrow> unat z = unat x + unat (y :: 'a::len word)"
proof
  show "checked_add x y = Some z \<Longrightarrow> unat z = unat x + unat y"
    by (auto simp: checked_add_def unat_plus_exact split: if_splits)
next
  assume z: "unat z = unat x + unat y"
  then have lt: "unat x + unat y < 2 ^ LENGTH('a)" using unat_lt_pow [of z] by simp
  then have "unat (x + y) = unat z" using z by (simp add: unat_plus_exact)
  then show "checked_add x y = Some z" using lt by (simp add: checked_add_def word_unat_eq_iff)
qed

lemma checked_add_None_iff [simp]:
  "checked_add x y = None \<longleftrightarrow> 2 ^ LENGTH('a) \<le> unat x + unat (y :: 'a::len word)"
  by (simp add: checked_add_def not_less)

lemma checked_sub_Some_iff [simp]:
  "checked_sub x y = Some z \<longleftrightarrow> unat x = unat z + unat (y :: 'a::len word)"
proof
  show "checked_sub x y = Some z \<Longrightarrow> unat x = unat z + unat y"
    by (auto simp: checked_sub_def unat_minus_exact word_le_nat_alt split: if_splits)
next
  assume z: "unat x = unat z + unat y"
  then have le: "y \<le> x" by (simp add: word_le_nat_alt)
  then have "unat (x - y) = unat z" using z by (simp add: unat_minus_exact)
  then show "checked_sub x y = Some z" using le by (simp add: checked_sub_def word_unat_eq_iff)
qed

lemma checked_sub_None_iff [simp]: "checked_sub x y = None \<longleftrightarrow> x < y"
  by (auto simp: checked_sub_def not_le)

lemma checked_mul_Some_iff [simp]:
  "checked_mul x y = Some z \<longleftrightarrow> unat z = unat x * unat (y :: 'a::len word)"
proof
  show "checked_mul x y = Some z \<Longrightarrow> unat z = unat x * unat y"
    by (auto simp: checked_mul_def unat_times_exact split: if_splits)
next
  assume z: "unat z = unat x * unat y"
  then have lt: "unat x * unat y < 2 ^ LENGTH('a)" using unat_lt_pow [of z] by simp
  then have "unat (x * y) = unat z" using z by (simp add: unat_times_exact)
  then show "checked_mul x y = Some z" using lt by (simp add: checked_mul_def word_unat_eq_iff)
qed

lemma checked_mul_None_iff [simp]:
  "checked_mul x y = None \<longleftrightarrow> 2 ^ LENGTH('a) \<le> unat x * unat (y :: 'a::len word)"
  by (simp add: checked_mul_def not_less)

lemma unat_saturating_add:
  "unat (saturating_add x y) = min (unat x + unat (y :: 'a::len word)) (2 ^ LENGTH('a) - 1)"
proof (cases "unat x + unat y < 2 ^ LENGTH('a)")
  case True
  then have "unat x + unat y \<le> 2 ^ LENGTH('a) - 1" by simp
  with True show ?thesis by (simp add: saturating_add_def unat_plus_exact)
next
  case False
  then have "2 ^ LENGTH('a) - 1 \<le> unat x + unat y" by simp
  with False show ?thesis by (simp add: saturating_add_def unat_MAX)
qed

lemma unat_saturating_sub:
  "unat (saturating_sub x y) = unat x - unat (y :: 'a::len word)"
  by (auto simp: saturating_sub_def unat_minus_exact word_le_nat_alt)

lemma unat_saturating_mul:
  "unat (saturating_mul x y) = min (unat x * unat (y :: 'a::len word)) (2 ^ LENGTH('a) - 1)"
proof (cases "unat x * unat y < 2 ^ LENGTH('a)")
  case True
  then have "unat x * unat y \<le> 2 ^ LENGTH('a) - 1" by simp
  with True show ?thesis by (simp add: saturating_mul_def unat_times_exact)
next
  case False
  then have "2 ^ LENGTH('a) - 1 \<le> unat x * unat y" by simp
  with False show ?thesis by (simp add: saturating_mul_def unat_MAX)
qed

lemma try_from_nat_Some_iff [simp]:
  "try_from_nat n = Some (w :: 'a::len word) \<longleftrightarrow> unat w = n"
proof
  show "try_from_nat n = Some w \<Longrightarrow> unat w = n"
    by (auto simp: try_from_nat_def unat_of_nat split: if_splits)
next
  assume "unat w = n"
  then show "try_from_nat n = Some w"
    using unat_lt_pow [of w] by (auto simp: try_from_nat_def)
qed

lemma word_less_succ:
  fixes x y :: "'a::len word"
  assumes "unat y = Suc (unat x)"
  shows "z < y \<longleftrightarrow> z \<le> x" and "y \<le> z \<longleftrightarrow> x < z" and "x < y"
  using assms by (auto simp: word_less_nat_alt word_le_nat_alt)

section \<open>Outcomes of Rust functions\<close>

text \<open>
  A Rust function that returns \<open>Result<T, E>\<close> ends with a value, with an error, or
  panics. The state it mutates is part of the value: after an error the callers throw
  the staged state away.
\<close>

datatype ('e, 'a) result = Ok 'a | Err 'e | Panic

text \<open>Sequencing with the question mark operator.\<close>

fun and_then :: "('e, 'a) result \<Rightarrow> ('a \<Rightarrow> ('e, 'b) result) \<Rightarrow> ('e, 'b) result" where
  "and_then (Ok x) f = f x"
| "and_then (Err e) f = Err e"
| "and_then Panic f = Panic"

text \<open>The macro \<open>ensure!\<close> followed by the rest of the function.\<close>

definition ensure :: "bool \<Rightarrow> 'e \<Rightarrow> ('e, 'a) result \<Rightarrow> ('e, 'a) result" where
  "ensure b e k = (if b then k else Err e)"

text \<open>\<open>assert!\<close> and \<open>expect\<close>: a panic when the condition fails.\<close>

definition assert_that :: "bool \<Rightarrow> ('e, 'a) result \<Rightarrow> ('e, 'a) result" where
  "assert_that b k = (if b then k else Panic)"

fun ok_or :: "'e \<Rightarrow> 'a option \<Rightarrow> ('e, 'a) result" where
  "ok_or e (Some x) = Ok x"
| "ok_or e None = Err e"

fun expect :: "'a option \<Rightarrow> ('e, 'a) result" where
  "expect (Some x) = Ok x"
| "expect None = Panic"

fun map_err :: "('e \<Rightarrow> 'f) \<Rightarrow> ('e, 'a) result \<Rightarrow> ('f, 'a) result" where
  "map_err g (Ok x) = Ok x"
| "map_err g (Err e) = Err (g e)"
| "map_err g Panic = Panic"

fun map_ok :: "('a \<Rightarrow> 'b) \<Rightarrow> ('e, 'a) result \<Rightarrow> ('e, 'b) result" where
  "map_ok g (Ok x) = Ok (g x)"
| "map_ok g (Err e) = Err e"
| "map_ok g Panic = Panic"

text \<open>A loop over a vector that threads a state and stops at the first failure.\<close>

fun try_fold :: "('s \<Rightarrow> 'a \<Rightarrow> ('e, 's) result) \<Rightarrow> 's \<Rightarrow> 'a list \<Rightarrow> ('e, 's) result" where
  "try_fold f s [] = Ok s"
| "try_fold f s (x # xs) = and_then (f s x) (\<lambda>s'. try_fold f s' xs)"

lemma and_then_Ok_iff [simp, result_simps]:
  "and_then r f = Ok y \<longleftrightarrow> (\<exists>x. r = Ok x \<and> f x = Ok y)"
  by (cases r) auto

lemma and_then_Err_iff [result_simps]:
  "and_then r f = Err e \<longleftrightarrow> r = Err e \<or> (\<exists>x. r = Ok x \<and> f x = Err e)"
  by (cases r) auto

lemma and_then_Panic_iff [result_simps]:
  "and_then r f = Panic \<longleftrightarrow> r = Panic \<or> (\<exists>x. r = Ok x \<and> f x = Panic)"
  by (cases r) auto

lemma ensure_Ok_iff [simp, result_simps]: "ensure b e k = Ok y \<longleftrightarrow> b \<and> k = Ok y"
  by (simp add: ensure_def)

lemma ensure_Err_iff [result_simps]:
  "ensure b e k = Err e' \<longleftrightarrow> (\<not> b \<and> e' = e) \<or> (b \<and> k = Err e')"
  by (auto simp: ensure_def)

lemma ensure_Panic_iff [simp, result_simps]: "ensure b e k = Panic \<longleftrightarrow> b \<and> k = Panic"
  by (simp add: ensure_def)

lemma ensure_True [simp]: "ensure True e k = k"
  by (simp add: ensure_def)

lemma ensure_False [simp]: "ensure False e k = Err e"
  by (simp add: ensure_def)

lemma assert_that_Ok_iff [simp, result_simps]: "assert_that b k = Ok y \<longleftrightarrow> b \<and> k = Ok y"
  by (simp add: assert_that_def)

lemma assert_that_Panic_iff [result_simps]: "assert_that b k = Panic \<longleftrightarrow> b \<longrightarrow> k = Panic"
  by (simp add: assert_that_def)

lemma assert_that_Err_iff [simp, result_simps]: "assert_that b k = Err e \<longleftrightarrow> b \<and> k = Err e"
  by (simp add: assert_that_def)

lemma ok_or_Ok_iff [simp, result_simps]: "ok_or e r = Ok x \<longleftrightarrow> r = Some x"
  by (cases r) auto

lemma ok_or_Err_iff [simp, result_simps]: "ok_or e r = Err e' \<longleftrightarrow> r = None \<and> e' = e"
  by (cases r) auto

lemma ok_or_Panic [simp]: "ok_or e r \<noteq> Panic"
  by (cases r) auto

lemma expect_Ok_iff [simp, result_simps]: "expect r = Ok x \<longleftrightarrow> r = Some x"
  by (cases r) auto

lemma expect_Panic_iff [simp, result_simps]: "expect r = Panic \<longleftrightarrow> r = None"
  by (cases r) auto

lemma expect_Err [simp]: "expect r \<noteq> Err e"
  by (cases r) auto

lemma map_err_Ok_iff [simp, result_simps]: "map_err g r = Ok x \<longleftrightarrow> r = Ok x"
  by (cases r) auto

lemma map_err_Err_iff [result_simps]: "map_err g r = Err e \<longleftrightarrow> (\<exists>e'. r = Err e' \<and> e = g e')"
  by (cases r) auto

lemma map_err_Panic_iff [simp, result_simps]: "map_err g r = Panic \<longleftrightarrow> r = Panic"
  by (cases r) auto

lemma map_ok_Ok_iff [simp, result_simps]: "map_ok g r = Ok y \<longleftrightarrow> (\<exists>x. r = Ok x \<and> y = g x)"
  by (cases r) auto

lemma map_ok_Err_iff [simp, result_simps]: "map_ok g r = Err e \<longleftrightarrow> r = Err e"
  by (cases r) auto

lemma map_ok_Panic_iff [simp, result_simps]: "map_ok g r = Panic \<longleftrightarrow> r = Panic"
  by (cases r) auto

text \<open>The loop rule: an invariant kept by every iteration holds at the end.\<close>

lemma try_fold_invariant:
  assumes "try_fold f s xs = Ok s'" and "P s"
    and "\<And>s x s'. x \<in> set xs \<Longrightarrow> P s \<Longrightarrow> f s x = Ok s' \<Longrightarrow> P s'"
  shows "P s'"
  using assms by (induction xs arbitrary: s) auto

text \<open>The loop does not panic when no iteration does, under an invariant.\<close>

lemma try_fold_no_panic:
  assumes "P s"
    and "\<And>s x s'. x \<in> set xs \<Longrightarrow> P s \<Longrightarrow> f s x = Ok s' \<Longrightarrow> P s'"
    and "\<And>s x. x \<in> set xs \<Longrightarrow> P s \<Longrightarrow> f s x \<noteq> Panic"
  shows "try_fold f s xs \<noteq> Panic"
  using assms
proof (induction xs arbitrary: s)
  case (Cons x xs)
  then show ?case by (cases "f s x") (auto simp: result_simps)
qed simp

lemma try_fold_append:
  "try_fold f s (xs @ ys) = and_then (try_fold f s xs) (\<lambda>s'. try_fold f s' ys)"
proof (induction xs arbitrary: s)
  case (Cons x xs)
  then show ?case by (cases "f s x") auto
qed simp

section \<open>Ordered maps\<close>

text \<open>
  \<open>BTreeMap\<close>: the entries in increasing key order. Two well-formed maps with the same
  entries are the same list, so \<open>==\<close> of the code is equality of the model, and a
  \<open>for\<close> loop over the map visits the list from left to right.
\<close>

type_synonym ('k, 'v) BTreeMap = "('k \<times> 'v) list"

definition btree_wf :: "('k::linorder, 'v) BTreeMap \<Rightarrow> bool" where
  "btree_wf m \<longleftrightarrow> sorted_wrt (<) (map fst m)"

fun btree_insert :: "'k::linorder \<Rightarrow> 'v \<Rightarrow> ('k, 'v) BTreeMap \<Rightarrow> ('k, 'v) BTreeMap" where
  "btree_insert k v [] = [(k, v)]"
| "btree_insert k v ((a, b) # m) =
     (if k < a then (k, v) # (a, b) # m
      else if k = a then (k, v) # m
      else (a, b) # btree_insert k v m)"

fun btree_remove :: "'k \<Rightarrow> ('k, 'v) BTreeMap \<Rightarrow> ('k, 'v) BTreeMap" where
  "btree_remove k [] = []"
| "btree_remove k ((a, b) # m) = (if k = a then m else (a, b) # btree_remove k m)"

abbreviation btree_get :: "('k, 'v) BTreeMap \<Rightarrow> 'k \<Rightarrow> 'v option" where
  "btree_get m k \<equiv> map_of m k"

text \<open>\<open>entry(k).or_default()\<close> and loading an entry of a collection: a missing entry
  reads as the default value.\<close>

definition btree_get_or :: "'v \<Rightarrow> ('k, 'v) BTreeMap \<Rightarrow> 'k \<Rightarrow> 'v" where
  "btree_get_or d m k = (case btree_get m k of None \<Rightarrow> d | Some v \<Rightarrow> v)"

definition btree_from_list :: "('k::linorder \<times> 'v) list \<Rightarrow> ('k, 'v) BTreeMap" where
  "btree_from_list xs = foldl (\<lambda>m (k, v). btree_insert k v m) [] xs"

lemma btree_wf_Nil [simp]: "btree_wf []"
  by (simp add: btree_wf_def)

lemma btree_wf_Cons: "btree_wf ((a, b) # m) \<longleftrightarrow> (\<forall>k \<in> fst ` set m. a < k) \<and> btree_wf m"
  by (auto simp: btree_wf_def)

lemma fst_set_btree_insert: "fst ` set (btree_insert k v m) = insert k (fst ` set m)"
  by (induction k v m rule: btree_insert.induct) auto

lemma btree_wf_insert [simp, btree_simps]: "btree_wf m \<Longrightarrow> btree_wf (btree_insert k v m)"
  by (induction k v m rule: btree_insert.induct)
    (auto simp: btree_wf_Cons fst_set_btree_insert)

lemma btree_get_insert [simp, btree_simps]:
  "btree_get (btree_insert k v m) = (btree_get m)(k \<mapsto> v)"
  by (induction k v m rule: btree_insert.induct) (auto simp: fun_eq_iff)

lemma fst_set_btree_remove: "fst ` set (btree_remove k m) \<subseteq> fst ` set m"
  by (induction k m rule: btree_remove.induct) auto

lemma btree_wf_remove [simp, btree_simps]: "btree_wf m \<Longrightarrow> btree_wf (btree_remove k m)"
  by (induction k m rule: btree_remove.induct)
    (use fst_set_btree_remove in \<open>fastforce simp: btree_wf_Cons\<close>)+

lemma btree_wf_distinct: "btree_wf m \<Longrightarrow> distinct (map fst m)"
  by (simp add: btree_wf_def strict_sorted_iff)

lemma btree_get_remove [btree_simps]:
  "btree_wf m \<Longrightarrow> btree_get (btree_remove k m) = (btree_get m)(k := None)"
proof (induction k m rule: btree_remove.induct)
  case (2 k a b m)
  then have "k = a \<Longrightarrow> btree_get m k = None"
    by (auto simp: btree_wf_Cons map_of_eq_None_iff)
  with 2 show ?case by (auto simp: btree_wf_Cons fun_eq_iff)
qed simp

lemma btree_get_or_insert [simp, btree_simps]:
  "btree_get_or d (btree_insert k v m) k' = (if k' = k then v else btree_get_or d m k')"
  by (simp add: btree_get_or_def)

lemma btree_get_or_remove [btree_simps]:
  "btree_wf m \<Longrightarrow> btree_get_or d (btree_remove k m) k' = (if k' = k then d else btree_get_or d m k')"
  by (simp add: btree_get_or_def btree_get_remove)

lemma btree_get_or_empty [simp]: "btree_get_or d [] k = d"
  by (simp add: btree_get_or_def)

lemma btree_wf_from_list [simp]: "btree_wf (btree_from_list xs)"
proof -
  have "btree_wf m \<Longrightarrow> btree_wf (foldl (\<lambda>m (k, v). btree_insert k v m) m xs)" for m
    by (induction xs arbitrary: m) auto
  then show ?thesis by (simp add: btree_from_list_def)
qed

text \<open>Well-formed maps are determined by their lookups.\<close>

lemma btree_ext:
  assumes "btree_wf m" and "btree_wf m'" and "btree_get m = btree_get m'"
  shows "m = m'"
proof -
  have d: "distinct (map fst m)" "distinct (map fst m')"
    using assms by (simp_all add: btree_wf_distinct)
  have s: "set m = set m'"
    using map_of_inject_set [OF d] assms(3) by simp
  have "inj_on fst (set m \<union> set m')"
    using d s by (simp add: distinct_map)
  then show ?thesis
    using assms(1,2) d s unfolding btree_wf_def
    by (intro map_sorted_distinct_set_unique [of fst]) (auto dest: strict_sorted_imp_sorted)
qed

text \<open>The least key, as \<open>first_key_value\<close> returns it.\<close>

lemma btree_first_key_least:
  "btree_wf ((k, v) # m) \<Longrightarrow> btree_get ((k, v) # m) k' = Some w \<Longrightarrow> k \<le> k'"
  by (auto simp: btree_wf_Cons split: if_splits dest!: map_of_SomeD)

section \<open>Options as iterators\<close>

definition option_list :: "'a option \<Rightarrow> 'a list" where
  "option_list x = (case x of None \<Rightarrow> [] | Some a \<Rightarrow> [a])"

lemma option_list_simps [simp]: "option_list None = []" "option_list (Some a) = [a]"
  by (simp_all add: option_list_def)

lemma set_option_list [simp]: "set (option_list x) = set_option x"
  by (cases x) simp_all

text \<open>\<open>Iterator::max_by_key\<close> returns the last of several maximal elements.\<close>

fun max_by_key :: "('a \<Rightarrow> 'k::linorder) \<Rightarrow> 'a list \<Rightarrow> 'a option" where
  "max_by_key key [] = None"
| "max_by_key key (x # xs) =
     (case max_by_key key xs of
        None \<Rightarrow> Some x
      | Some y \<Rightarrow> if key y \<ge> key x then Some y else Some x)"

lemma max_by_key_None_iff [simp]: "max_by_key key xs = None \<longleftrightarrow> xs = []"
  by (cases xs) (auto split: option.splits)

lemma max_by_key_Some:
  "max_by_key key xs = Some m \<Longrightarrow> m \<in> set xs \<and> (\<forall>x \<in> set xs. key x \<le> key m)"
proof (induction xs arbitrary: m)
  case (Cons x xs)
  then show ?case
    by (fastforce split: option.splits if_splits)
qed simp

section \<open>Searching sorted slices\<close>

text \<open>
  \<open>slice::binary_search_by\<close> of the standard library, which halves the interval
  \<open>[left, right)\<close>, and \<open>Vec::insert\<close>.
\<close>

datatype Ordering = Less | Equal | Greater

definition compare_keys :: "'k::linorder \<Rightarrow> 'k \<Rightarrow> Ordering" where
  "compare_keys a b = (if a < b then Less else if a = b then Equal else Greater)"

datatype search_result = Found nat | Missing nat

function binary_search_loop :: "('a \<Rightarrow> Ordering) \<Rightarrow> 'a list \<Rightarrow> nat \<Rightarrow> nat \<Rightarrow> search_result" where
  "binary_search_loop f xs left right =
     (if left < right
      then let mid = left + (right - left) div 2
           in case f (xs ! mid) of
                Less \<Rightarrow> binary_search_loop f xs (mid + 1) right
              | Greater \<Rightarrow> binary_search_loop f xs left mid
              | Equal \<Rightarrow> Found mid
      else Missing left)"
  by auto
termination
  by (relation "measure (\<lambda>(f, xs, left, right). right - left)") auto

declare binary_search_loop.simps [simp del]

definition binary_search_by :: "('a \<Rightarrow> Ordering) \<Rightarrow> 'a list \<Rightarrow> search_result" where
  "binary_search_by f xs = binary_search_loop f xs 0 (length xs)"

definition vec_insert :: "nat \<Rightarrow> 'a \<Rightarrow> 'a list \<Rightarrow> 'a list" where
  "vec_insert i x xs = take i xs @ x # drop i xs"

text \<open>On a slice with increasing keys the search finds the key or the place to insert it.\<close>

lemma binary_search_loop_correct:
  assumes "sorted_wrt (<) (map key xs)" and "right \<le> length xs" and "left \<le> right"
    and "\<And>j. j < left \<Longrightarrow> key (xs ! j) < k"
    and "\<And>j. right \<le> j \<Longrightarrow> j < length xs \<Longrightarrow> k < key (xs ! j)"
  shows "case binary_search_loop (\<lambda>x. compare_keys (key x) k) xs left right of
      Found i \<Rightarrow> i < length xs \<and> key (xs ! i) = k
    | Missing i \<Rightarrow> i \<le> length xs \<and> (\<forall>j<i. key (xs ! j) < k)
        \<and> (\<forall>j. i \<le> j \<longrightarrow> j < length xs \<longrightarrow> k < key (xs ! j))"
  using assms(2-)
proof (induction "right - left" arbitrary: left right rule: less_induct)
  case less
  show ?case
  proof (cases "left < right")
    case False
    with less.prems show ?thesis by (subst binary_search_loop.simps) auto
  next
    case True
    define mid where "mid = left + (right - left) div 2"
    have mid: "left \<le> mid" "mid < right" "mid < length xs"
      using True less.prems(1) by (auto simp: mid_def)
    have mono: "i < j \<Longrightarrow> j < length xs \<Longrightarrow> key (xs ! i) < key (xs ! j)" for i j
      using assms(1) by (auto simp: sorted_wrt_iff_nth_less)
    consider "key (xs ! mid) < k" | "key (xs ! mid) = k" | "k < key (xs ! mid)"
      by fastforce
    then show ?thesis
    proof cases
      case 1
      have "j < mid + 1 \<Longrightarrow> key (xs ! j) < k" for j
        using 1 mono [of j mid] mid(3) by (cases "j = mid") auto
      with less.hyps [of right "mid + 1"] less.prems mid 1 show ?thesis
        by (subst binary_search_loop.simps) (simp add: True mid_def [symmetric] compare_keys_def)
    next
      case 2
      with mid True show ?thesis
        by (subst binary_search_loop.simps) (simp add: mid_def [symmetric] compare_keys_def)
    next
      case 3
      have "mid \<le> j \<Longrightarrow> j < length xs \<Longrightarrow> k < key (xs ! j)" for j
        using 3 mono [of mid j] by (cases "j = mid") auto
      moreover have "compare_keys (key (xs ! mid)) k = Greater"
        using 3 by (auto simp: compare_keys_def)
      ultimately show ?thesis
        using less.hyps [of mid left] less.prems mid
        by (subst binary_search_loop.simps) (simp add: True mid_def [symmetric])
    qed
  qed
qed

lemma binary_search_by_correct:
  assumes "sorted_wrt (<) (map key xs)"
  shows "case binary_search_by (\<lambda>x. compare_keys (key x) k) xs of
      Found i \<Rightarrow> i < length xs \<and> key (xs ! i) = k
    | Missing i \<Rightarrow> i \<le> length xs \<and> (\<forall>j<i. key (xs ! j) < k)
        \<and> (\<forall>j. i \<le> j \<longrightarrow> j < length xs \<longrightarrow> k < key (xs ! j))"
  unfolding binary_search_by_def by (rule binary_search_loop_correct) (use assms in auto)

lemma binary_search_by_Found_iff:
  assumes "sorted_wrt (<) (map key xs)"
  shows "(\<exists>i. binary_search_by (\<lambda>x. compare_keys (key x) k) xs = Found i) \<longleftrightarrow> k \<in> key ` set xs"
    (is "?L \<longleftrightarrow> ?R")
proof
  assume ?L
  with binary_search_by_correct [OF assms, of k] show ?R by (auto simp: image_iff)
next
  assume ?R
  then obtain j where j: "j < length xs" "key (xs ! j) = k" by (auto simp: in_set_conv_nth)
  show ?L
  proof (cases "binary_search_by (\<lambda>x. compare_keys (key x) k) xs")
    case (Missing i)
    then have "\<forall>j<i. key (xs ! j) < k" and "\<forall>j. i \<le> j \<longrightarrow> j < length xs \<longrightarrow> k < key (xs ! j)"
      using binary_search_by_correct [OF assms, of k] by simp_all
    with j(1) have "key (xs ! j) < k \<or> k < key (xs ! j)"
      using leI by blast
    with j(2) show ?thesis by simp
  qed simp
qed

text \<open>Inserting a new key where the search reports it missing keeps the keys increasing.\<close>

lemma sorted_vec_insert:
  assumes "sorted_wrt (<) (map key xs)"
    and "binary_search_by (\<lambda>x. compare_keys (key x) (key y)) xs = Missing i"
  shows "sorted_wrt (<) (map key (vec_insert i y xs))"
proof -
  have "\<And>x. x \<in> set (take i xs) \<Longrightarrow> key x < key y" "\<And>x. x \<in> set (drop i xs) \<Longrightarrow> key y < key x"
    using binary_search_by_correct [OF assms(1), of "key y"] assms(2)
    by (auto simp: in_set_conv_nth)
  moreover have "sorted_wrt (<) (map key (take i xs @ drop i xs))"
    using assms(1) by simp
  ultimately show ?thesis
    unfolding vec_insert_def map_append sorted_wrt_append by auto
qed

lemma set_vec_insert [simp]: "set (vec_insert i y xs) = insert y (set xs)"
proof -
  have "set (take i xs) \<union> set (drop i xs) = set xs"
    by (metis append_take_drop_id set_append)
  then show ?thesis by (auto simp: vec_insert_def)
qed

end
