(* ===== verification/Base_Types.thy ===== *)
theory Base_Types
  imports Prelude
begin

text \<open>
  \<open>linera-base/src/data_types.rs\<close>: the wrapped numbers \<open>Amount\<close>, \<open>BlockHeight\<close>,
  \<open>RoundNumber\<close> and \<open>Timestamp\<close>, kept at their machine width, with the operations that
  the macro \<open>impl_wrapped_number!\<close> generates for the first three, and the amounts'
  conversions. The operations are stated once for every width, as the macro does.
\<close>

type_synonym Amount = u128
type_synonym BlockHeight = u64
type_synonym RoundNumber = u32
type_synonym Timestamp = u64

datatype ArithmeticError = Overflow | Underflow

section \<open>The operations of \<open>impl_wrapped_number!\<close>\<close>

definition try_add :: "'a::len word \<Rightarrow> 'a word \<Rightarrow> (ArithmeticError, 'a word) result" where
  "try_add self other = ok_or Overflow (checked_add self other)"

definition try_add_one :: "'a::len word \<Rightarrow> (ArithmeticError, 'a word) result" where
  "try_add_one self = ok_or Overflow (checked_add self 1)"

definition wrapped_saturating_add :: "'a::len word \<Rightarrow> 'a word \<Rightarrow> 'a word" where
  "wrapped_saturating_add self other = saturating_add self other"

definition try_sub :: "'a::len word \<Rightarrow> 'a word \<Rightarrow> (ArithmeticError, 'a word) result" where
  "try_sub self other = ok_or Underflow (checked_sub self other)"

definition try_sub_one :: "'a::len word \<Rightarrow> (ArithmeticError, 'a word) result" where
  "try_sub_one self = ok_or Underflow (checked_sub self 1)"

definition wrapped_saturating_sub :: "'a::len word \<Rightarrow> 'a word \<Rightarrow> 'a word" where
  "wrapped_saturating_sub self other = saturating_sub self other"

text \<open>The assigning variants return the new value of \<open>self\<close>.\<close>

definition try_add_assign :: "'a::len word \<Rightarrow> 'a word \<Rightarrow> (ArithmeticError, 'a word) result" where
  "try_add_assign self other = ok_or Overflow (checked_add self other)"

definition try_add_assign_one :: "'a::len word \<Rightarrow> (ArithmeticError, 'a word) result" where
  "try_add_assign_one self = ok_or Overflow (checked_add self 1)"

definition saturating_add_assign :: "'a::len word \<Rightarrow> 'a word \<Rightarrow> 'a word" where
  "saturating_add_assign self other = saturating_add self other"

definition try_sub_assign :: "'a::len word \<Rightarrow> 'a word \<Rightarrow> (ArithmeticError, 'a word) result" where
  "try_sub_assign self other = ok_or Underflow (checked_sub self other)"

definition wrapped_saturating_mul :: "'a::len word \<Rightarrow> 'a word \<Rightarrow> 'a word" where
  "wrapped_saturating_mul self other = saturating_mul self other"

definition try_mul :: "'a::len word \<Rightarrow> 'a word \<Rightarrow> (ArithmeticError, 'a word) result" where
  "try_mul self other = ok_or Overflow (checked_mul self other)"

definition try_mul_assign :: "'a::len word \<Rightarrow> 'a word \<Rightarrow> (ArithmeticError, 'a word) result" where
  "try_mul_assign self other = ok_or Overflow (checked_mul self other)"

section \<open>Timestamps\<close>

text \<open>
  A \<open>Duration\<close> of the standard library is a count of nanoseconds up to
  \<open>u64::MAX\<close> seconds and 999999999 nanoseconds; \<open>saturating_mul\<close> stops there.
\<close>

type_synonym Duration = nat

definition duration_max :: Duration where
  "duration_max = (2 ^ 64 - 1) * 1000000000 + 999999999"

definition duration_from_secs :: "u64 \<Rightarrow> Duration" where
  "duration_from_secs s = unat s * 1000000000"

definition duration_saturating_mul :: "Duration \<Rightarrow> u32 \<Rightarrow> Duration" where
  "duration_saturating_mul d k = min (d * unat k) duration_max"

definition duration_as_micros :: "Duration \<Rightarrow> nat" where
  "duration_as_micros d = d div 1000"

definition saturating_diff_micros :: "Timestamp \<Rightarrow> Timestamp \<Rightarrow> u64" where
  "saturating_diff_micros self other = saturating_sub self other"

definition timestamp_saturating_add :: "Timestamp \<Rightarrow> Duration \<Rightarrow> Timestamp" where
  "timestamp_saturating_add self duration =
     (let micros = (case try_from_nat (duration_as_micros duration) of None \<Rightarrow> max_value | Some m \<Rightarrow> m)
      in saturating_add self micros)"

definition saturating_add_micros :: "Timestamp \<Rightarrow> u64 \<Rightarrow> Timestamp" where
  "saturating_add_micros self micros = saturating_add self micros"

definition saturating_sub_micros :: "Timestamp \<Rightarrow> u64 \<Rightarrow> Timestamp" where
  "saturating_sub_micros self micros = saturating_sub self micros"

section \<open>Amounts\<close>

definition DECIMAL_PLACES :: u8 where
  "DECIMAL_PLACES = 18"

definition ONE :: Amount where
  "ONE = 10 ^ unat DECIMAL_PLACES"

definition from_tokens :: "u128 \<Rightarrow> Amount" where
  "from_tokens tokens = wrapped_saturating_mul ONE tokens"

definition from_milli :: "u128 \<Rightarrow> Amount" where
  "from_milli millitokens = wrapped_saturating_mul (10 ^ (unat DECIMAL_PLACES - 3)) millitokens"

definition from_atto :: "u128 \<Rightarrow> Amount" where
  "from_atto attotokens = attotokens"

definition upper_half :: "Amount \<Rightarrow> u64" where
  "upper_half self = ucast (drop_bit 64 self)"

definition lower_half :: "Amount \<Rightarrow> u64" where
  "lower_half self = ucast self"

definition saturating_div :: "Amount \<Rightarrow> Amount \<Rightarrow> u128" where
  "saturating_div self other =
     (case checked_div self other of None \<Rightarrow> max_value | Some q \<Rightarrow> q)"

text \<open>\<open>Sum for Amount\<close>: the fold saturates.\<close>

definition amount_sum :: "Amount list \<Rightarrow> Amount" where
  "amount_sum xs = foldl wrapped_saturating_add 0 xs"

section \<open>Lemmas\<close>

lemma try_add_Ok_iff [simp]: "try_add x y = Ok z \<longleftrightarrow> unat z = unat x + unat y"
  by (simp add: try_add_def)

lemma try_add_one_Ok_iff [simp]:
  "try_add_one x = Ok z \<longleftrightarrow> unat z = Suc (unat (x :: 'a::len word))"
  by (simp add: try_add_one_def)

lemma try_add_one_not_Panic [simp]: "try_add_one x \<noteq> Panic"
  by (simp add: try_add_one_def)

lemma try_add_one_Err_iff:
  "try_add_one x = Err e \<longleftrightarrow> x = max_value \<and> e = Overflow" for x :: "'a::len word"
proof -
  have "2 ^ LENGTH('a) \<le> unat x + 1 \<longleftrightarrow> unat x = unat (max_value :: 'a word)"
    using unat_lt_pow [of x] unat_MAX [where 'a = 'a] by linarith
  then show ?thesis
    by (simp add: try_add_one_def word_unat_eq_iff)
qed

lemma try_sub_assign_Ok_iff [simp]: "try_sub_assign x y = Ok z \<longleftrightarrow> unat x = unat z + unat y"
  by (simp add: try_sub_assign_def)

lemma try_sub_assign_Err_iff: "try_sub_assign x y = Err e \<longleftrightarrow> x < y \<and> e = Underflow"
  by (auto simp: try_sub_assign_def)

lemma try_sub_assign_not_Panic [simp]: "try_sub_assign x y \<noteq> Panic"
  by (simp add: try_sub_assign_def)

lemma try_add_assign_Ok_iff [simp]: "try_add_assign x y = Ok z \<longleftrightarrow> unat z = unat x + unat y"
  by (simp add: try_add_assign_def)

lemma try_add_assign_not_Panic [simp]: "try_add_assign x y \<noteq> Panic"
  by (simp add: try_add_assign_def)

lemma try_sub_one_Ok_iff [simp]:
  "try_sub_one x = Ok z \<longleftrightarrow> unat (x :: 'a::len word) = Suc (unat z)"
  by (simp add: try_sub_one_def)

lemma try_mul_Ok_iff [simp]: "try_mul x y = Ok z \<longleftrightarrow> unat z = unat x * unat y"
  by (simp add: try_mul_def)

lemma try_mul_not_Panic [simp]: "try_mul x y \<noteq> Panic"
  by (simp add: try_mul_def)

lemma unat_saturating_diff_micros:
  "unat (saturating_diff_micros a b) = unat a - unat b"
  by (simp add: saturating_diff_micros_def unat_saturating_sub)

lemma unat_timestamp_saturating_add:
  "unat (timestamp_saturating_add t d) = min (unat t + duration_as_micros d) (2 ^ 64 - 1)"
proof (cases "duration_as_micros d < 2 ^ 64")
  case True
  then show ?thesis
    by (simp add: timestamp_saturating_add_def try_from_nat_def unat_saturating_add unat_of_nat)
next
  case False
  then show ?thesis
    by (simp add: timestamp_saturating_add_def try_from_nat_def unat_saturating_add unat_MAX)
qed

lemma unat_ONE: "unat ONE = 10 ^ 18"
  by (simp add: ONE_def DECIMAL_PLACES_def)

lemma unat_amount_sum_aux:
  "unat (foldl wrapped_saturating_add a xs) = min (unat a + sum_list (map unat xs)) (2 ^ 128 - 1)"
    for a :: Amount
proof (induction xs arbitrary: a)
  case Nil
  show ?case using unat_lt_pow [of a] by simp
next
  case (Cons x xs)
  then show ?case
    by (simp add: wrapped_saturating_add_def unat_saturating_add)
qed

lemma unat_amount_sum: "unat (amount_sum xs) = min (sum_list (map unat xs)) (2 ^ 128 - 1)"
  by (simp add: amount_sum_def unat_amount_sum_aux)

end
