(* ===== verification/Identifiers.thy ===== *)
theory Identifiers
  imports Base_Types
begin

text \<open>
  \<open>linera-base/src/identifiers.rs\<close> and the key types of \<open>linera-base/src/crypto.rs\<close>.
  Hashes and Ed25519 public keys are 32 bytes; their derived byte-wise order is the order
  of the big-endian number, so they are 256-bit words. The hash functions themselves
  (SHA3 over the BCS bytes) are parameters of the definitions that use them. The structs
  that the program uses as keys of ordered maps get the derived lexicographic \<open>Ord\<close>.
\<close>

type_synonym CryptoHash = "256 word"
type_synonym PublicKey = "256 word"
type_synonym ValidatorName = PublicKey
type_synonym Owner = CryptoHash
type_synonym ChainId = CryptoHash
type_synonym bytes = "u8 list"
type_synonym ChannelName = bytes

datatype MessageId =
  MessageId (mid_chain_id: ChainId) (mid_height: BlockHeight) (mid_index: u32)

datatype BytecodeId = BytecodeId (bid_message_id: MessageId)

datatype ApplicationId = ApplicationId (aid_bytecode_id: BytecodeId) (aid_creation: MessageId)

datatype SessionId = SessionId (sid_application_id: ApplicationId) (sid_index: u64)

datatype GenericApplicationId = System | User ApplicationId

datatype ChainDescription = Root u32 | Child MessageId

datatype Destination = Recipient ChainId | Subscribers ChannelName

definition is_channel :: "Destination \<Rightarrow> bool" where
  "is_channel self = (case self of Subscribers _ \<Rightarrow> True | Recipient _ \<Rightarrow> False)"

text \<open>\<open>Owner::from\<close> and \<open>ChainId::from\<close>, over the hash function.\<close>

definition owner_from :: "(PublicKey \<Rightarrow> CryptoHash) \<Rightarrow> PublicKey \<Rightarrow> Owner" where
  "owner_from hash_key value = hash_key value"

definition chain_id_from :: "(ChainDescription \<Rightarrow> CryptoHash) \<Rightarrow> ChainDescription \<Rightarrow> ChainId" where
  "chain_id_from hash_description description = hash_description description"

definition chain_id_root :: "(ChainDescription \<Rightarrow> CryptoHash) \<Rightarrow> u32 \<Rightarrow> ChainId" where
  "chain_id_root hash_description index = hash_description (Root index)"

definition chain_id_child :: "(ChainDescription \<Rightarrow> CryptoHash) \<Rightarrow> MessageId \<Rightarrow> ChainId" where
  "chain_id_child hash_description message_id = hash_description (Child message_id)"

section \<open>The derived orders\<close>

text \<open>
  Each key function lists the fields in declaration order. The codes are prefix-free, so
  comparing them lexicographically is comparing the fields one after the other.
\<close>

fun message_id_key :: "MessageId \<Rightarrow> nat list" where
  "message_id_key (MessageId c h i) = [unat c, unat h, unat i]"

fun bytecode_id_key :: "BytecodeId \<Rightarrow> nat list" where
  "bytecode_id_key (BytecodeId m) = message_id_key m"

fun application_id_key :: "ApplicationId \<Rightarrow> nat list" where
  "application_id_key (ApplicationId b m) = bytecode_id_key b @ message_id_key m"

fun generic_application_id_key :: "GenericApplicationId \<Rightarrow> nat list" where
  "generic_application_id_key System = [0]"
| "generic_application_id_key (User a) = 1 # application_id_key a"

lemma length_message_id_key [simp]: "length (message_id_key m) = 3"
  by (cases m) simp

lemma message_id_key_inject [simp]: "message_id_key m = message_id_key m' \<longleftrightarrow> m = m'"
  by (cases m; cases m') (simp add: word_unat_eq_iff)

lemma bytecode_id_key_inject [simp]: "bytecode_id_key b = bytecode_id_key b' \<longleftrightarrow> b = b'"
  by (cases b; cases b') simp

lemma length_bytecode_id_key [simp]: "length (bytecode_id_key b) = 3"
  by (cases b) simp

lemma application_id_key_inject [simp]: "application_id_key a = application_id_key a' \<longleftrightarrow> a = a'"
  by (cases a; cases a') simp

lemma length_application_id_key [simp]: "length (application_id_key a) = 6"
  by (cases a) simp

lemma generic_application_id_key_inject [simp]:
  "generic_application_id_key a = generic_application_id_key a' \<longleftrightarrow> a = a'"
  by (cases a; cases a') simp_all

instantiation MessageId :: linorder
begin

definition less_eq_MessageId :: "MessageId \<Rightarrow> MessageId \<Rightarrow> bool" where
  "x \<le> y \<longleftrightarrow> message_id_key x \<le> message_id_key y"

definition less_MessageId :: "MessageId \<Rightarrow> MessageId \<Rightarrow> bool" where
  "x < y \<longleftrightarrow> message_id_key x < message_id_key y"

instance
  by standard (auto simp: less_eq_MessageId_def less_MessageId_def less_le)

end

instantiation BytecodeId :: linorder
begin

definition less_eq_BytecodeId :: "BytecodeId \<Rightarrow> BytecodeId \<Rightarrow> bool" where
  "x \<le> y \<longleftrightarrow> bytecode_id_key x \<le> bytecode_id_key y"

definition less_BytecodeId :: "BytecodeId \<Rightarrow> BytecodeId \<Rightarrow> bool" where
  "x < y \<longleftrightarrow> bytecode_id_key x < bytecode_id_key y"

instance
  by standard (auto simp: less_eq_BytecodeId_def less_BytecodeId_def less_le)

end

instantiation ApplicationId :: linorder
begin

definition less_eq_ApplicationId :: "ApplicationId \<Rightarrow> ApplicationId \<Rightarrow> bool" where
  "x \<le> y \<longleftrightarrow> application_id_key x \<le> application_id_key y"

definition less_ApplicationId :: "ApplicationId \<Rightarrow> ApplicationId \<Rightarrow> bool" where
  "x < y \<longleftrightarrow> application_id_key x < application_id_key y"

instance
  by standard (auto simp: less_eq_ApplicationId_def less_ApplicationId_def less_le)

end

instantiation GenericApplicationId :: linorder
begin

definition less_eq_GenericApplicationId :: "GenericApplicationId \<Rightarrow> GenericApplicationId \<Rightarrow> bool" where
  "x \<le> y \<longleftrightarrow> generic_application_id_key x \<le> generic_application_id_key y"

definition less_GenericApplicationId :: "GenericApplicationId \<Rightarrow> GenericApplicationId \<Rightarrow> bool" where
  "x < y \<longleftrightarrow> generic_application_id_key x < generic_application_id_key y"

instance
  by standard (auto simp: less_eq_GenericApplicationId_def less_GenericApplicationId_def less_le)

end

text \<open>The order of message ids is the derived one: chain, then height, then index.\<close>

lemma message_id_less_iff:
  "MessageId c h i < MessageId c' h' i' \<longleftrightarrow>
     c < c' \<or> c = c' \<and> (h < h' \<or> h = h' \<and> i < i')"
  by (auto simp: less_MessageId_def word_less_nat_alt word_unat_eq_iff)

end
