(* ===== verification/Execution_Errors.thy ===== *)
theory Execution_Errors
  imports Identifiers
begin

text \<open>
  The error types of the execution layer with the data they carry
  (\<open>linera-views/src/views.rs\<close>, \<open>linera-execution/src/{lib,system,policy,applications}.rs\<close>).
  Errors whose payload comes from an external crate carry its message as a string.
\<close>

type_synonym Epoch = u32
type_synonym UserApplicationId = ApplicationId

datatype ViewError =
    Serialization string
  | CannotAcquireCollectionEntry
  | Io string
  | TryLockError bytes
  | TokioJoinError string
  | ContextError string string
  | WasmHostGuestError string
  | NotFound string
  | InconsistentEntries
  | MissingEntries
  | TooLargeValue

datatype SystemChannel = Admin | PublishedBytecodes

record BytecodeLocation =
  bl_certificate_hash :: CryptoHash
  bl_operation_index :: u32

record UserApplicationDescription =
  uad_bytecode_id :: BytecodeId
  uad_bytecode_location :: BytecodeLocation
  uad_creation :: MessageId
  uad_parameters :: bytes
  uad_required_application_ids :: "UserApplicationId list"

definition application_id_from :: "UserApplicationDescription \<Rightarrow> UserApplicationId" where
  "application_id_from description =
     ApplicationId (uad_bytecode_id description) (uad_creation description)"

definition user_application_id :: "GenericApplicationId \<Rightarrow> UserApplicationId option" where
  "user_application_id self = (case self of User app_id \<Rightarrow> Some app_id | System \<Rightarrow> None)"

datatype SystemExecutionError =
    Sys_ArithmeticError ArithmeticError
  | Sys_ViewError ViewError
  | InvalidNewChainId ChainId
  | InvalidNewChainAdminId ChainId
  | InvalidCommittees
  | InvalidEpoch ChainId Epoch
  | IncorrectTransferAmount
  | UnauthenticatedTransferOwner
  | InsufficientFunding Amount
  | IncorrectClaimAmount
  | UnauthenticatedClaimOwner
  | AdminOperationOnNonAdminChain
  | InvalidCommitteeCreation
  | InvalidCommitteeRemoval
  | InvalidAdminSubscription ChainId SystemChannel
  | SelfSubscription ChainId SystemChannel
  | NoSuchChannel ChainId SystemChannel
  | InvalidUnsubscription ChainId SystemChannel
  | AmountOverflow
  | AmountUnderflow
  | BalanceOverflow
  | BalanceUnderflow
  | CannotRewindEpoch
  | TicksOutOfOrder
  | UnknownBytecodeId BytecodeId
  | UnknownApplicationId UserApplicationId

datatype PricingError =
    Pricing_ArithmeticError ArithmeticError
  | SerializationError string

datatype ExecutionError =
    Exec_ViewError ViewError
  | Exec_ArithmeticError ArithmeticError
  | Exec_SystemError SystemExecutionError
  | UserError string
  | WasmError string
  | SessionWasNotClosed
  | InvalidOperation
  | InvalidMessage
  | InvalidQuery
  | CallApplicationFromQuery
  | LockStateFromQuery
  | InvalidSession
  | SessionIsInUse
  | InvalidSessionOwner
  | ApplicationIsInUse
  | ApplicationStateNotLocked
  | Exec_PricingError PricingError
  | ExcessiveRead
  | ExcessiveWrite
  | InvalidBytecodeId BytecodeId
  | ApplicationBytecodeNotFound UserApplicationDescription

text \<open>\<open>impl From<ViewError> for ExecutionError\<close>\<close>

definition execution_error_from_view :: "ViewError \<Rightarrow> ExecutionError" where
  "execution_error_from_view error =
     (case error of TryLockError _ \<Rightarrow> ApplicationIsInUse | _ \<Rightarrow> Exec_ViewError error)"

end
