(* ===== verification/Policy.thy ===== *)
theory Policy
  imports Execution_Errors
begin

text \<open>
  Fees: \<open>linera-execution/src/policy.rs\<close> and the \<open>ResourceTracker\<close> of
  \<open>linera-execution/src/lib.rs\<close>. The size of a BCS encoding comes from the external
  crate \<open>bcs\<close> and is a parameter. The counters of \<open>update_limits\<close> use the wrapping
  arithmetic of a release build.
\<close>

record ResourceControlPolicy =
  pol_certificate :: Amount
  pol_fuel :: Amount
  pol_storage_num_reads :: Amount
  pol_storage_bytes_read :: Amount
  pol_storage_bytes_written :: Amount
  pol_maximum_bytes_read_per_block :: u64
  pol_maximum_bytes_written_per_block :: u64
  pol_messages :: Amount

definition policy_default :: ResourceControlPolicy where
  "policy_default =
     \<lparr>pol_certificate = 0, pol_fuel = 0, pol_storage_num_reads = 0, pol_storage_bytes_read = 0,
      pol_storage_bytes_written = 0, pol_maximum_bytes_read_per_block = max_value div 2,
      pol_maximum_bytes_written_per_block = max_value div 2, pol_messages = 0\<rparr>"

definition certificate_price :: "ResourceControlPolicy \<Rightarrow> Amount" where
  "certificate_price self = pol_certificate self"

text \<open>\<open>bcs::serialized_size\<close> returns the size or an error message.\<close>

type_synonym 'd sizer = "'d \<Rightarrow> (string, nat) result"

definition price_of_size :: "Amount \<Rightarrow> (string, nat) result \<Rightarrow> (PricingError, Amount) result" where
  "price_of_size price serialized_size =
     and_then (map_err SerializationError serialized_size) (\<lambda>n.
     and_then (ok_or (Pricing_ArithmeticError Overflow) (try_from_nat n)) (\<lambda>size.
     map_err Pricing_ArithmeticError (try_mul price size)))"

definition messages_price ::
    "'d sizer \<Rightarrow> ResourceControlPolicy \<Rightarrow> 'd \<Rightarrow> (PricingError, Amount) result" where
  "messages_price serialized_size self data =
     price_of_size (pol_messages self) (serialized_size data)"

definition storage_num_reads_price ::
    "ResourceControlPolicy \<Rightarrow> u64 \<Rightarrow> (PricingError, Amount) result" where
  "storage_num_reads_price self count =
     map_err Pricing_ArithmeticError (try_mul (pol_storage_num_reads self) (ucast count))"

definition storage_bytes_read_price ::
    "ResourceControlPolicy \<Rightarrow> u64 \<Rightarrow> (PricingError, Amount) result" where
  "storage_bytes_read_price self count =
     map_err Pricing_ArithmeticError (try_mul (pol_storage_bytes_read self) (ucast count))"

definition storage_bytes_written_price ::
    "ResourceControlPolicy \<Rightarrow> u64 \<Rightarrow> (PricingError, Amount) result" where
  "storage_bytes_written_price self count =
     map_err Pricing_ArithmeticError (try_mul (pol_storage_bytes_written self) (ucast count))"

definition storage_bytes_written_price_raw ::
    "'d sizer \<Rightarrow> ResourceControlPolicy \<Rightarrow> 'd \<Rightarrow> (PricingError, Amount) result" where
  "storage_bytes_written_price_raw serialized_size self data =
     price_of_size (pol_storage_bytes_written self) (serialized_size data)"

definition fuel_price :: "ResourceControlPolicy \<Rightarrow> u64 \<Rightarrow> (PricingError, Amount) result" where
  "fuel_price self fuel =
     map_err Pricing_ArithmeticError (try_mul (pol_fuel self) (ucast fuel))"

text \<open>\<open>u64::try_from(balance.saturating_div(price)).unwrap_or(u64::MAX)\<close>\<close>

definition affordable :: "Amount \<Rightarrow> Amount \<Rightarrow> u64" where
  "affordable balance price =
     (case try_from_nat (unat (saturating_div balance price)) of
        None \<Rightarrow> max_value | Some n \<Rightarrow> n)"

definition remaining_fuel :: "ResourceControlPolicy \<Rightarrow> Amount \<Rightarrow> u64" where
  "remaining_fuel self balance = affordable balance (pol_fuel self)"

definition sub_assign_fees :: "Amount \<Rightarrow> Amount \<Rightarrow> (PricingError, Amount) result" where
  "sub_assign_fees balance fees =
     map_err (\<lambda>_. Pricing_ArithmeticError Underflow) (try_sub_assign balance fees)"

record RuntimeLimits =
  lim_max_budget_num_reads :: u64
  lim_max_budget_bytes_read :: u64
  lim_max_budget_bytes_written :: u64
  lim_maximum_bytes_left_to_read :: u64
  lim_maximum_bytes_left_to_write :: u64

record ResourceTracker =
  trk_used_fuel :: u64
  trk_num_reads :: u64
  trk_bytes_read :: u64
  trk_bytes_written :: u64
  trk_maximum_bytes_left_to_read :: u64
  trk_maximum_bytes_left_to_write :: u64

record RuntimeCounts =
  cnt_remaining_fuel :: u64
  cnt_num_reads :: u64
  cnt_bytes_read :: u64
  cnt_bytes_written :: u64

definition runtime_limits_default :: RuntimeLimits where
  "runtime_limits_default =
     \<lparr>lim_max_budget_num_reads = max_value div 2, lim_max_budget_bytes_read = max_value div 2,
      lim_max_budget_bytes_written = max_value div 2,
      lim_maximum_bytes_left_to_read = max_value div 2,
      lim_maximum_bytes_left_to_write = max_value div 2\<rparr>"

definition update_limits ::
    "ResourceTracker \<Rightarrow> Amount \<Rightarrow> ResourceControlPolicy \<Rightarrow> RuntimeCounts
       \<Rightarrow> (ExecutionError, ResourceTracker \<times> Amount) result" where
  "update_limits self balance policy runtime_counts =
     (let initial_fuel = remaining_fuel policy balance;
          used_fuel = saturating_sub initial_fuel (cnt_remaining_fuel runtime_counts);
          self = self\<lparr>trk_used_fuel := trk_used_fuel self + used_fuel\<rparr>
      in map_err Exec_PricingError
        (and_then (fuel_price policy used_fuel) (\<lambda>fee.
         and_then (sub_assign_fees balance fee) (\<lambda>balance.
         and_then (storage_num_reads_price policy (cnt_num_reads runtime_counts)) (\<lambda>fee.
         and_then (sub_assign_fees balance fee) (\<lambda>balance.
           let self = self\<lparr>trk_num_reads := trk_num_reads self + cnt_num_reads runtime_counts\<rparr>;
               bytes_read = cnt_bytes_read runtime_counts;
               self = self\<lparr>trk_maximum_bytes_left_to_read :=
                             trk_maximum_bytes_left_to_read self - bytes_read\<rparr>;
               self = self\<lparr>trk_bytes_read := trk_bytes_read self + bytes_read\<rparr>
           in and_then (storage_bytes_read_price policy bytes_read) (\<lambda>fee.
              and_then (sub_assign_fees balance fee) (\<lambda>balance.
                let bytes_written = cnt_bytes_written runtime_counts;
                    self = self\<lparr>trk_maximum_bytes_left_to_write :=
                                  trk_maximum_bytes_left_to_write self - bytes_written\<rparr>;
                    self = self\<lparr>trk_bytes_written := trk_bytes_written self + bytes_written\<rparr>
                in and_then (storage_bytes_written_price policy bytes_written) (\<lambda>fee.
                   and_then (sub_assign_fees balance fee) (\<lambda>balance.
                     Ok (self, balance)))))))))))"

definition limits :: "ResourceTracker \<Rightarrow> ResourceControlPolicy \<Rightarrow> Amount \<Rightarrow> RuntimeLimits" where
  "limits self policy balance =
     \<lparr>lim_max_budget_num_reads = affordable balance (pol_storage_num_reads policy),
      lim_max_budget_bytes_read = affordable balance (pol_storage_bytes_read policy),
      lim_max_budget_bytes_written = affordable balance (pol_storage_bytes_read policy),
      lim_maximum_bytes_left_to_read = trk_maximum_bytes_left_to_read self,
      lim_maximum_bytes_left_to_write = trk_maximum_bytes_left_to_write self\<rparr>"

section \<open>Lemmas\<close>

lemma unat_ucast_u64_u128 [simp]: "unat (ucast (x :: u64) :: u128) = unat x"
  using unat_lt_pow [of x] by (simp add: unsigned_ucast_eq take_bit_nat_eq_self)

lemma unat_affordable:
  "unat (affordable b p) =
     (if p = 0 then 2 ^ 64 - 1 else min (unat b div unat p) (2 ^ 64 - 1))"
proof -
  have "p \<noteq> 0 \<Longrightarrow> unat (b div p) = unat b div unat p"
    by (simp add: unat_div)
  then show ?thesis
    by (auto simp: affordable_def saturating_div_def checked_div_def try_from_nat_def unat_MAX
        min_def unat_of_nat)
qed

text \<open>Whatever the counter allows can be paid.\<close>

lemma affordable_is_affordable: "n \<le> affordable b p \<Longrightarrow> unat p * unat n \<le> unat b"
proof (cases "p = 0")
  case False
  assume "n \<le> affordable b p"
  then have "unat n \<le> unat b div unat p"
    using False by (simp add: word_le_nat_alt unat_affordable)
  then have "unat p * unat n \<le> unat p * (unat b div unat p)"
    by simp
  also have "\<dots> \<le> unat b"
    by simp
  finally show ?thesis .
qed simp

lemma sub_assign_fees_Ok_iff [simp]:
  "sub_assign_fees b f = Ok b' \<longleftrightarrow> unat b = unat b' + unat f"
  by (simp add: sub_assign_fees_def)

text \<open>Deducting a price either takes exactly its exact value, or fails.\<close>

lemma charge_Ok_iff:
  "(\<exists>fee. map_err g (try_mul p n) = Ok fee \<and> sub_assign_fees b fee = Ok b') \<longleftrightarrow>
     unat b = unat b' + unat p * unat n"
proof
  assume "unat b = unat b' + unat p * unat n"
  moreover from this have "unat (p * n) = unat p * unat n"
    using unat_lt_pow [of b] by (simp add: unat_times_exact)
  ultimately show "\<exists>fee. map_err g (try_mul p n) = Ok fee \<and> sub_assign_fees b fee = Ok b'"
    by (intro exI [of _ "p * n"]) simp
qed auto

definition used_fuel_of :: "ResourceControlPolicy \<Rightarrow> Amount \<Rightarrow> RuntimeCounts \<Rightarrow> nat" where
  "used_fuel_of policy balance c = unat (remaining_fuel policy balance) - unat (cnt_remaining_fuel c)"

definition total_charge :: "ResourceControlPolicy \<Rightarrow> Amount \<Rightarrow> RuntimeCounts \<Rightarrow> nat" where
  "total_charge policy balance c =
     unat (pol_fuel policy) * used_fuel_of policy balance c
     + unat (pol_storage_num_reads policy) * unat (cnt_num_reads c)
     + unat (pol_storage_bytes_read policy) * unat (cnt_bytes_read c)
     + unat (pol_storage_bytes_written policy) * unat (cnt_bytes_written c)"

lemmas price_defs =
  fuel_price_def storage_num_reads_price_def storage_bytes_read_price_def
  storage_bytes_written_price_def

text \<open>The fuel that \<open>remaining_fuel\<close> granted can always be paid.\<close>

lemma fuel_charge_affordable:
  "unat (pol_fuel policy) * used_fuel_of policy balance c \<le> unat balance"
proof -
  have "unat (pol_fuel policy) * used_fuel_of policy balance c
      \<le> unat (pol_fuel policy) * unat (remaining_fuel policy balance)"
    by (simp add: used_fuel_of_def)
  also have "\<dots> \<le> unat balance"
    using affordable_is_affordable by (simp add: remaining_fuel_def)
  finally show ?thesis .
qed

lemma charge_steps:
  "(\<exists>x. map_err g (try_mul p n) = Ok x \<and> (\<exists>y. sub_assign_fees b x = Ok y \<and> P y)) \<longleftrightarrow>
     (\<exists>y. unat b = unat y + unat p * unat n \<and> P y)"
  using charge_Ok_iff [of g p n b] by blast

text \<open>Splitting a charge off a balance.\<close>

lemma split_charge:
  "(\<exists>y :: Amount. unat b = unat y + m \<and> unat y = unat z + n) \<longleftrightarrow> unat b = unat z + (m + n)"
    for b :: Amount
proof
  assume *: "unat b = unat z + (m + n)"
  then have "unat (of_nat (unat z + n) :: Amount) = unat z + n"
    using unat_lt_pow [of b] by (subst unat_of_nat) simp
  then show "\<exists>y :: Amount. unat b = unat y + m \<and> unat y = unat z + n"
    using * by (intro exI [of _ "of_nat (unat z + n)"]) simp
qed auto

lemma charge_last:
  "(\<exists>x. map_err g (try_mul p n) = Ok x \<and> sub_assign_fees b x = Ok b' \<and> Q) \<longleftrightarrow>
     unat b = unat b' + unat p * unat n \<and> Q"
  using charge_Ok_iff [of g p n b] by blast

definition tracker_after ::
    "ResourceTracker \<Rightarrow> ResourceControlPolicy \<Rightarrow> Amount \<Rightarrow> RuntimeCounts \<Rightarrow> ResourceTracker" where
  "tracker_after t pol b c =
     t\<lparr>trk_used_fuel := trk_used_fuel t
          + saturating_sub (remaining_fuel pol b) (cnt_remaining_fuel c),
       trk_num_reads := trk_num_reads t + cnt_num_reads c,
       trk_maximum_bytes_left_to_read := trk_maximum_bytes_left_to_read t - cnt_bytes_read c,
       trk_bytes_read := trk_bytes_read t + cnt_bytes_read c,
       trk_maximum_bytes_left_to_write := trk_maximum_bytes_left_to_write t - cnt_bytes_written c,
       trk_bytes_written := trk_bytes_written t + cnt_bytes_written c\<rparr>"

lemma split_charges:
  "(\<exists>y :: Amount. unat b = unat y + m \<and>
     (\<exists>z :: Amount. unat y = unat z + n \<and>
       (\<exists>w :: Amount. unat z = unat w + k \<and> unat w = unat v + l))) \<longleftrightarrow>
     unat b = unat v + (m + (n + (k + l)))" for b v :: Amount
  by (simp only: split_charge)

lemma update_limits_Ok_iff:
  "update_limits t b pol c = Ok (t', b') \<longleftrightarrow>
     unat b = unat b' + total_charge pol b c \<and> t' = tracker_after t pol b c"
proof -
  have "update_limits t b pol c = Ok (t', b') \<longleftrightarrow>
     (\<exists>y :: Amount. unat b = unat y + unat (pol_fuel pol) * used_fuel_of pol b c \<and>
     (\<exists>z :: Amount. unat y = unat z + unat (pol_storage_num_reads pol) * unat (cnt_num_reads c) \<and>
     (\<exists>w :: Amount. unat z = unat w + unat (pol_storage_bytes_read pol) * unat (cnt_bytes_read c) \<and>
          unat w = unat b' + unat (pol_storage_bytes_written pol) * unat (cnt_bytes_written c))))
     \<and> tracker_after t pol b c = t'"
    by (simp add: update_limits_def Let_def price_defs charge_steps charge_last used_fuel_of_def
        unat_saturating_sub tracker_after_def del: try_mul_Ok_iff sub_assign_fees_Ok_iff
        map_err_Ok_iff add: map_err_Ok_iff [where r = "and_then r k" for r k]) blast
  then show ?thesis
    unfolding split_charges total_charge_def by (auto simp: algebra_simps)
qed

end
