(* ===== verification/Committee.thy ===== *)
theory Committee
  imports Policy
begin

text \<open>
  \<open>linera-execution/src/committee.rs\<close>: validators, their voting rights and the thresholds.
  The sums are 64-bit and wrap, as in a release build; \<^emph>\<open>committee_wf\<close> says that they
  do not. The contract that the consensus code relies on is the locale \<open>quorum_system\<close>,
  which is interpreted on the committee's own functions.
\<close>

record ValidatorState =
  vs_network_address :: string
  vs_votes :: u64

type_synonym Validators = "(ValidatorName \<times> ValidatorState) list"

record Committee =
  com_validators :: Validators
  com_total_votes :: u64
  com_quorum_threshold :: u64
  com_validity_threshold :: u64
  com_policy :: ResourceControlPolicy

definition committee_new :: "Validators \<Rightarrow> ResourceControlPolicy \<Rightarrow> Committee" where
  "committee_new validators policy =
     (let total_votes = fold (\<lambda>state sum. sum + vs_votes state) (map snd validators) 0;
          quorum_threshold = 2 * total_votes div 3 + 1;
          validity_threshold = (total_votes + 2) div 3
      in \<lparr>com_validators = validators, com_total_votes = total_votes,
          com_quorum_threshold = quorum_threshold, com_validity_threshold = validity_threshold,
          com_policy = policy\<rparr>)"

definition weight :: "Committee \<Rightarrow> ValidatorName \<Rightarrow> u64" where
  "weight self author =
     (case btree_get (com_validators self) author of Some state \<Rightarrow> vs_votes state | None \<Rightarrow> 0)"

definition network_address :: "Committee \<Rightarrow> ValidatorName \<Rightarrow> string option" where
  "network_address self author = map_option vs_network_address (btree_get (com_validators self) author)"

abbreviation quorum_threshold :: "Committee \<Rightarrow> u64" where
  "quorum_threshold \<equiv> com_quorum_threshold"

abbreviation validity_threshold :: "Committee \<Rightarrow> u64" where
  "validity_threshold \<equiv> com_validity_threshold"

text \<open>The two serialized forms: the full one is checked when it is read back.\<close>

record CommitteeFull =
  full_validators :: Validators
  full_total_votes :: u64
  full_quorum_threshold :: u64
  full_validity_threshold :: u64
  full_policy :: ResourceControlPolicy

record CommitteeMinimal =
  min_validators :: Validators
  min_policy :: ResourceControlPolicy

datatype InvalidCommittee =
    InvalidTotalVotes u64 u64
  | InvalidQuorumThreshold u64 u64
  | InvalidValidityThreshold u64 u64

definition committee_try_from_full :: "CommitteeFull \<Rightarrow> (InvalidCommittee, Committee) result" where
  "committee_try_from_full full =
     (let committee = committee_new (full_validators full) (full_policy full)
      in if full_total_votes full \<noteq> com_total_votes committee
         then Err (InvalidTotalVotes (full_total_votes full) (com_total_votes committee))
         else if full_quorum_threshold full \<noteq> com_quorum_threshold committee
         then Err (InvalidQuorumThreshold (full_quorum_threshold full) (com_quorum_threshold committee))
         else if full_validity_threshold full \<noteq> com_validity_threshold committee
         then Err (InvalidValidityThreshold (full_validity_threshold full)
                     (com_validity_threshold committee))
         else Ok committee)"

definition full_from_committee :: "Committee \<Rightarrow> CommitteeFull" where
  "full_from_committee committee =
     \<lparr>full_validators = com_validators committee, full_total_votes = com_total_votes committee,
      full_quorum_threshold = com_quorum_threshold committee,
      full_validity_threshold = com_validity_threshold committee,
      full_policy = com_policy committee\<rparr>"

definition committee_from_minimal :: "CommitteeMinimal \<Rightarrow> Committee" where
  "committee_from_minimal minimal = committee_new (min_validators minimal) (min_policy minimal)"

definition minimal_from_committee :: "Committee \<Rightarrow> CommitteeMinimal" where
  "minimal_from_committee committee =
     \<lparr>min_validators = com_validators committee, min_policy = com_policy committee\<rparr>"

section \<open>Exact votes\<close>

definition votes_sum :: "Validators \<Rightarrow> nat" where
  "votes_sum vs = sum_list (map (unat \<circ> vs_votes \<circ> snd) vs)"

definition committee_wf :: "Committee \<Rightarrow> bool" where
  "committee_wf c \<longleftrightarrow>
     btree_wf (com_validators c) \<and>
     c = committee_new (com_validators c) (com_policy c) \<and>
     2 * votes_sum (com_validators c) < 2 ^ 64"

definition members :: "Committee \<Rightarrow> ValidatorName set" where
  "members c = fst ` set (com_validators c)"

lemma finite_members [simp]: "finite (members c)"
  by (simp add: members_def)

lemma weight_nonmember: "v \<notin> members c \<Longrightarrow> weight c v = 0"
  by (simp add: weight_def members_def map_of_eq_None_iff [THEN iffD2])

lemma unat_fold_votes:
  "unat a + sum_list (map (unat \<circ> vs_votes) ss) < 2 ^ 64 \<Longrightarrow>
   unat (fold (\<lambda>state sum. sum + vs_votes state) ss a) = unat a + sum_list (map (unat \<circ> vs_votes) ss)"
    for a :: u64
proof (induction ss arbitrary: a)
  case (Cons s ss)
  then have "unat (a + vs_votes s) = unat a + unat (vs_votes s)"
    by (intro unat_plus_exact) simp
  with Cons show ?case by simp
qed simp

lemma unat_total_votes:
  assumes "votes_sum vs < 2 ^ 64"
  shows "unat (com_total_votes (committee_new vs pol)) = votes_sum vs"
  using unat_fold_votes [of 0 "map snd vs"] assms
  by (simp add: committee_new_def Let_def votes_sum_def comp_assoc [symmetric] map_map comp_def)

lemma sum_weight_eq_votes_sum:
  assumes "btree_wf vs" and "com_validators c = vs"
  shows "(\<Sum>v\<in>members c. unat (weight c v)) = votes_sum vs"
proof -
  have d: "distinct (map fst vs)" using assms by (simp add: btree_wf_distinct)
  have "(\<Sum>v\<in>members c. unat (weight c v)) = sum_list (map (\<lambda>v. unat (weight c v)) (map fst vs))"
    using assms d by (simp add: members_def sum_list_distinct_conv_sum_set del: map_map)
  also have "\<dots> = votes_sum vs"
    using d assms(2) by (auto simp: votes_sum_def weight_def intro!: arg_cong [of _ _ sum_list])
  finally show ?thesis .
qed

lemma committee_wf_total:
  assumes "committee_wf c"
  shows "(\<Sum>v\<in>members c. unat (weight c v)) = votes_sum (com_validators c)"
    and "unat (com_total_votes c) = votes_sum (com_validators c)"
  using assms sum_weight_eq_votes_sum [of "com_validators c" c]
    unat_total_votes [of "com_validators c" "com_policy c"]
  by (auto simp: committee_wf_def)

lemma committee_wf_thresholds:
  assumes "committee_wf c"
  shows "unat (quorum_threshold c) = 2 * votes_sum (com_validators c) div 3 + 1"
    and "unat (validity_threshold c) = (votes_sum (com_validators c) + 2) div 3"
proof -
  let ?N = "votes_sum (com_validators c)" and ?t = "com_total_votes c"
  have N: "2 * ?N < 2 ^ 64" and c: "c = committee_new (com_validators c) (com_policy c)"
    using assms by (simp_all add: committee_wf_def)
  have t: "unat ?t = ?N" using committee_wf_total(2) [OF assms] .
  have "unat (2 * ?t) = 2 * ?N" using N t by (simp add: unat_times_exact)
  then have "unat (2 * ?t div 3) = 2 * ?N div 3" by (simp add: unat_div)
  moreover have "unat (2 * ?t div 3 + 1) = unat (2 * ?t div 3) + 1"
    using N calculation by (intro unat_plus_exact [THEN trans]) simp_all
  moreover have "quorum_threshold c = 2 * ?t div 3 + 1"
    by (subst c, subst (2) c) (simp add: committee_new_def Let_def)
  ultimately show "unat (quorum_threshold c) = 2 * ?N div 3 + 1" by simp
  have "unat (?t + 2) = ?N + 2" using N t by (simp add: unat_plus_exact)
  moreover have "validity_threshold c = (?t + 2) div 3"
    by (subst c, subst (2) c) (simp add: committee_new_def Let_def)
  ultimately show "unat (validity_threshold c) = (?N + 2) div 3" by (simp add: unat_div)
qed

section \<open>The quorum contract\<close>

text \<open>
  What vote counting relies on: a client knows, for a valid configuration, its members,
  their weights and a threshold of more than two thirds of the total weight.
\<close>

locale quorum_system =
  fixes valid :: "'c \<Rightarrow> bool"
    and participants :: "'c \<Rightarrow> 'v set"
    and power :: "'c \<Rightarrow> 'v \<Rightarrow> nat"
    and quorum :: "'c \<Rightarrow> nat"
  assumes finite_participants: "finite (participants c)"
    and outsiders_weightless: "v \<notin> participants c \<Longrightarrow> power c v = 0"
    and supermajority: "valid c \<Longrightarrow> 2 * sum (power c) (participants c) < 3 * quorum c"
begin

definition total :: "'c \<Rightarrow> nat" where
  "total c = sum (power c) (participants c)"

definition is_quorum :: "'c \<Rightarrow> 'v set \<Rightarrow> bool" where
  "is_quorum c Q \<longleftrightarrow> finite Q \<and> quorum c \<le> sum (power c) Q"

definition tolerated :: "'c \<Rightarrow> 'v set \<Rightarrow> bool" where
  "tolerated c F \<longleftrightarrow> finite F \<and> 3 * sum (power c) F < total c"

lemma power_le_total: "finite A \<Longrightarrow> sum (power c) A \<le> total c"
proof -
  assume "finite A"
  then have "sum (power c) A = sum (power c) (A \<inter> participants c)"
    by (intro sum.mono_neutral_right) (auto simp: outsiders_weightless)
  also have "\<dots> \<le> total c"
    by (simp add: total_def finite_participants sum_mono2)
  finally show ?thesis .
qed

lemma quorums_overlap:
  assumes "valid c" and "is_quorum c A" and "is_quorum c B"
  shows "total c < 3 * sum (power c) (A \<inter> B)"
proof -
  have fin: "finite A" "finite B" using assms by (simp_all add: is_quorum_def)
  have "sum (power c) A + sum (power c) B = sum (power c) (A \<union> B) + sum (power c) (A \<inter> B)"
    using fin by (rule sum.union_inter [symmetric])
  moreover have "sum (power c) (A \<union> B) \<le> total c"
    using fin by (simp add: power_le_total)
  ultimately show ?thesis
    using assms supermajority [of c] by (simp add: is_quorum_def total_def)
qed

text \<open>Two quorums share a member outside any tolerated set of faulty participants.\<close>

lemma honest_in_common:
  assumes "valid c" and "is_quorum c A" and "is_quorum c B" and "tolerated c F"
  obtains v where "v \<in> A" and "v \<in> B" and "v \<notin> F"
proof -
  have "\<not> A \<inter> B \<subseteq> F"
  proof
    assume "A \<inter> B \<subseteq> F"
    then have "sum (power c) (A \<inter> B) \<le> sum (power c) F"
      using assms(4) by (intro sum_mono2) (auto simp: tolerated_def)
    with quorums_overlap [OF assms(1-3)] assms(4) show False
      by (simp add: tolerated_def)
  qed
  with that show thesis by blast
qed

lemma honest_in_quorum:
  assumes "valid c" and "is_quorum c A" and "tolerated c F"
  obtains v where "v \<in> A" and "v \<notin> F"
  using honest_in_common [OF assms(1,2,2,3)] by blast

end

interpretation quorums: quorum_system committee_wf members "\<lambda>c v. unat (weight c v)"
    "\<lambda>c. unat (quorum_threshold c)"
proof
  fix c v
  show "finite (members c)" by simp
  show "v \<notin> members c \<Longrightarrow> unat (weight c v) = 0" by (simp add: weight_nonmember)
  show "committee_wf c \<Longrightarrow> 2 * (\<Sum>v\<in>members c. unat (weight c v)) < 3 * unat (quorum_threshold c)"
    by (simp add: committee_wf_total committee_wf_thresholds)
qed

lemma committee_total: "committee_wf c \<Longrightarrow> quorums.total c = unat (com_total_votes c)"
  by (simp add: quorums.total_def committee_wf_total)

end
