(* ===== verification/Ownership.thy ===== *)
theory Ownership
  imports Identifiers
begin

text \<open>
  \<open>linera-execution/src/ownership.rs\<close>: who may propose blocks on a chain. The owner of a
  public key is its hash, a parameter.
\<close>

datatype ChainOwnership =
    Ownership_None
  | Ownership_Single Owner PublicKey
  | Ownership_Multi "(Owner, PublicKey \<times> u64) BTreeMap" RoundNumber

definition ownership_single :: "(PublicKey \<Rightarrow> CryptoHash) \<Rightarrow> PublicKey \<Rightarrow> ChainOwnership" where
  "ownership_single hash_key public_key =
     Ownership_Single (owner_from hash_key public_key) public_key"

definition ownership_multiple ::
    "(PublicKey \<Rightarrow> CryptoHash) \<Rightarrow> (PublicKey \<times> u64) list \<Rightarrow> RoundNumber \<Rightarrow> ChainOwnership" where
  "ownership_multiple hash_key keys_and_weights multi_leader_rounds =
     Ownership_Multi
       (btree_from_list (map (\<lambda>(key, weight). (owner_from hash_key key, (key, weight))) keys_and_weights))
       multi_leader_rounds"

definition ownership_is_active :: "ChainOwnership \<Rightarrow> bool" where
  "ownership_is_active self = (case self of Ownership_None \<Rightarrow> False | _ \<Rightarrow> True)"

definition ownership_verify_owner :: "ChainOwnership \<Rightarrow> Owner \<Rightarrow> PublicKey option" where
  "ownership_verify_owner self owner =
     (case self of
        Ownership_Single owner1 public_key \<Rightarrow> if owner1 = owner then Some public_key else None
      | Ownership_Multi public_keys _ \<Rightarrow> map_option fst (btree_get public_keys owner)
      | Ownership_None \<Rightarrow> None)"

text \<open>Every registered key is stored under the hash of the key itself.\<close>

definition ownership_wf :: "(PublicKey \<Rightarrow> CryptoHash) \<Rightarrow> ChainOwnership \<Rightarrow> bool" where
  "ownership_wf hash_key self =
     (case self of
        Ownership_None \<Rightarrow> True
      | Ownership_Single owner key \<Rightarrow> owner = hash_key key
      | Ownership_Multi keys _ \<Rightarrow>
          btree_wf keys \<and> (\<forall>(owner, (key, _)) \<in> set keys. owner = hash_key key))"

lemma set_btree_insert_subset: "set (btree_insert k v m) \<subseteq> insert (k, v) (set m)"
  by (induction k v m rule: btree_insert.induct) auto

lemma set_btree_from_list_subset: "set (btree_from_list xs) \<subseteq> set xs"
proof -
  have "set (foldl (\<lambda>m (k, v). btree_insert k v m) m xs) \<subseteq> set m \<union> set xs" for m
  proof (induction xs arbitrary: m)
    case (Cons x xs)
    then show ?case
      using set_btree_insert_subset [of "fst x" "snd x" m] by (fastforce simp: case_prod_beta)
  qed simp
  then show ?thesis by (force simp: btree_from_list_def)
qed

lemma ownership_wf_single: "ownership_wf hash_key (ownership_single hash_key key)"
  by (simp add: ownership_wf_def ownership_single_def owner_from_def)

lemma ownership_wf_multiple: "ownership_wf hash_key (ownership_multiple hash_key keys rounds)"
  using set_btree_from_list_subset
    [of "map (\<lambda>(key, weight). (owner_from hash_key key, (key, weight))) keys"]
  by (fastforce simp: ownership_wf_def ownership_multiple_def owner_from_def)

lemma verify_owner_hash:
  "ownership_wf hash_key self \<Longrightarrow> ownership_verify_owner self owner = Some key \<Longrightarrow> owner = hash_key key"
  by (fastforce simp: ownership_wf_def ownership_verify_owner_def split: ChainOwnership.splits if_splits
      dest: map_of_SomeD)

end
