(* ===== verification/Execution_Types.thy ===== *)
theory Execution_Types
  imports Committee Ownership
begin

text \<open>
  The data of the execution layer: system operations, messages and channels
  (\<open>linera-execution/src/system.rs\<close>), and the operations, messages, execution results and
  contexts of \<open>linera-execution/src/lib.rs\<close>. Wasm bytecode is uninterpreted bytes.
\<close>

type_synonym UserData = "bytes option"
type_synonym Bytecode = bytes
type_synonym Committees = "(Epoch, Committee) BTreeMap"

record ChannelSubscription =
  sub_chain_id :: ChainId
  sub_name :: ChannelName

record Account =
  acc_chain_id :: ChainId
  acc_owner :: "Owner option"

definition account_chain :: "ChainId \<Rightarrow> Account" where
  "account_chain chain_id = \<lparr>acc_chain_id = chain_id, acc_owner = None\<rparr>"

definition account_owner :: "ChainId \<Rightarrow> Owner \<Rightarrow> Account" where
  "account_owner chain_id owner = \<lparr>acc_chain_id = chain_id, acc_owner = Some owner\<rparr>"

datatype Recipient = Burn | Recipient_Account Account

definition recipient_chain :: "ChainId \<Rightarrow> Recipient" where
  "recipient_chain chain_id = Recipient_Account (account_chain chain_id)"

datatype AdminOperation = CreateCommittee Epoch Committee | RemoveCommittee Epoch

datatype SystemOperation =
    Op_Transfer "Owner option" Recipient Amount UserData
  | Op_Claim Owner ChainId Recipient Amount UserData
  | Op_OpenChain ChainOwnership ChainId Epoch Committees
  | Op_CloseChain
  | Op_ChangeOwner PublicKey
  | Op_ChangeMultipleOwners "(PublicKey \<times> u64) list" RoundNumber
  | Op_Subscribe ChainId SystemChannel
  | Op_Unsubscribe ChainId SystemChannel
  | Op_PublishBytecode Bytecode Bytecode
  | Op_CreateApplication BytecodeId bytes bytes "UserApplicationId list"
  | Op_RequestApplication ChainId UserApplicationId
  | Op_Admin AdminOperation

datatype SystemMessage =
    Msg_Credit Account Amount
  | Msg_Withdraw Account Amount Recipient UserData
  | Msg_OpenChain ChainOwnership ChainId Epoch Committees
  | Msg_SetCommittees Epoch Committees
  | Msg_Subscribe ChainId ChannelSubscription
  | Msg_Unsubscribe ChainId ChannelSubscription
  | Msg_BytecodePublished u32
  | Msg_ApplicationCreated
  | Msg_BytecodeLocations "(BytecodeId \<times> BytecodeLocation) list"
  | Msg_RegisterApplications "UserApplicationDescription list"
  | Msg_Notify ChainId
  | Msg_RequestApplication UserApplicationId

definition message_bytecode_locations :: "SystemMessage \<Rightarrow> CryptoHash \<Rightarrow> BytecodeLocation list" where
  "message_bytecode_locations self certificate_hash =
     (case self of
        Msg_BytecodePublished operation_index \<Rightarrow>
          [\<lparr>bl_certificate_hash = certificate_hash, bl_operation_index = operation_index\<rparr>]
      | Msg_BytecodeLocations new_locations \<Rightarrow> map snd new_locations
      | Msg_RegisterApplications applications \<Rightarrow> map uad_bytecode_location applications
      | _ \<Rightarrow> [])"

datatype Operation = Operation_System SystemOperation | Operation_User UserApplicationId bytes

datatype Message = Message_System SystemMessage | Message_User UserApplicationId bytes

datatype Query = Query_System | Query_User UserApplicationId bytes

record SystemResponse =
  rsp_chain_id :: ChainId
  rsp_balance :: Amount

datatype Response = Response_System SystemResponse | Response_User bytes

definition operation_application_id :: "Operation \<Rightarrow> GenericApplicationId" where
  "operation_application_id self =
     (case self of Operation_System _ \<Rightarrow> System | Operation_User application_id _ \<Rightarrow> User application_id)"

definition message_application_id :: "Message \<Rightarrow> GenericApplicationId" where
  "message_application_id self =
     (case self of Message_System _ \<Rightarrow> System | Message_User application_id _ \<Rightarrow> User application_id)"

definition query_application_id :: "Query \<Rightarrow> GenericApplicationId" where
  "query_application_id self =
     (case self of Query_System \<Rightarrow> System | Query_User application_id _ \<Rightarrow> User application_id)"

record 'm RawOutgoingMessage =
  rom_destination :: Destination
  rom_authenticated :: bool
  rom_is_skippable :: bool
  rom_message :: 'm

record 'm RawExecutionResult =
  rer_authenticated_signer :: "Owner option"
  rer_messages :: "'m RawOutgoingMessage list"
  rer_subscribe :: "(ChannelName \<times> ChainId) list"
  rer_unsubscribe :: "(ChannelName \<times> ChainId) list"

definition raw_result_default :: "'m RawExecutionResult" where
  "raw_result_default =
     \<lparr>rer_authenticated_signer = None, rer_messages = [], rer_subscribe = [], rer_unsubscribe = []\<rparr>"

definition with_authenticated_signer ::
    "Owner option \<Rightarrow> 'm RawExecutionResult \<Rightarrow> 'm RawExecutionResult" where
  "with_authenticated_signer authenticated_signer self =
     self\<lparr>rer_authenticated_signer := authenticated_signer\<rparr>"

definition push_message ::
    "'m RawOutgoingMessage \<Rightarrow> 'm RawExecutionResult \<Rightarrow> 'm RawExecutionResult" where
  "push_message message self = self\<lparr>rer_messages := rer_messages self @ [message]\<rparr>"

datatype ExecutionResult =
    Result_System "SystemMessage RawExecutionResult"
  | Result_User UserApplicationId "bytes RawExecutionResult"

definition result_application_id :: "ExecutionResult \<Rightarrow> GenericApplicationId" where
  "result_application_id self =
     (case self of Result_System _ \<Rightarrow> System | Result_User app_id _ \<Rightarrow> User app_id)"

record OperationContext =
  opc_chain_id :: ChainId
  opc_authenticated_signer :: "Owner option"
  opc_height :: BlockHeight
  opc_index :: u32
  opc_next_message_index :: u32

record MessageContext =
  msc_chain_id :: ChainId
  msc_authenticated_signer :: "Owner option"
  msc_height :: BlockHeight
  msc_certificate_hash :: CryptoHash
  msc_message_id :: MessageId

record QueryContext =
  qc_chain_id :: ChainId

definition next_message_id :: "OperationContext \<Rightarrow> MessageId" where
  "next_message_id self = MessageId (opc_chain_id self) (opc_height self) (opc_next_message_index self)"

end
