(* ===== verification/Chain_Types.thy ===== *)
theory Chain_Types
  imports Execution_Types "HOL-Library.AList"
begin

text \<open>
  The data of the chain layer (\<open>linera-chain/src/data_types.rs\<close>, \<open>linera-chain/src/lib.rs\<close>):
  blocks, events, origins and targets, certificate values, proposals, and the chain errors.
  A value travels with its hash in a \<open>HashedValue\<close>; the hash function is a parameter.
\<close>

section \<open>Origins, targets and channels\<close>

datatype ChannelFullName =
  ChannelFullName (cfn_application_id: GenericApplicationId) (cfn_name: ChannelName)

datatype Medium = Direct | Channel ChannelFullName

datatype Origin = Origin (or_sender: ChainId) (or_medium: Medium)

datatype Target = Target (tg_recipient: ChainId) (tg_medium: Medium)

definition origin_chain :: "ChainId \<Rightarrow> Origin" where
  "origin_chain sender = Origin sender Direct"

definition origin_channel :: "ChainId \<Rightarrow> ChannelFullName \<Rightarrow> Origin" where
  "origin_channel sender name = Origin sender (Channel name)"

definition target_chain :: "ChainId \<Rightarrow> Target" where
  "target_chain recipient = Target recipient Direct"

definition target_channel :: "ChainId \<Rightarrow> ChannelFullName \<Rightarrow> Target" where
  "target_channel recipient name = Target recipient (Channel name)"

text \<open>Derived orders, as for the identifiers.\<close>

fun channel_full_name_key :: "ChannelFullName \<Rightarrow> nat list" where
  "channel_full_name_key (ChannelFullName a n) = generic_application_id_key a @ map unat n"

fun medium_key :: "Medium \<Rightarrow> nat list" where
  "medium_key Direct = [0]"
| "medium_key (Channel c) = 1 # channel_full_name_key c"

fun origin_key :: "Origin \<Rightarrow> nat list" where
  "origin_key (Origin s m) = unat s # medium_key m"

fun target_key :: "Target \<Rightarrow> nat list" where
  "target_key (Target r m) = unat r # medium_key m"

lemma map_unat_inject [simp]: "map unat xs = map unat ys \<longleftrightarrow> xs = (ys :: 'a::len word list)"
  by (rule inj_map_eq_map) (simp add: inj_def word_unat_eq_iff)

lemma channel_full_name_key_inject [simp]:
  "channel_full_name_key c = channel_full_name_key c' \<longleftrightarrow> c = c'"
proof -
  have "generic_application_id_key a @ xs = generic_application_id_key b @ ys \<longleftrightarrow> a = b \<and> xs = ys"
    for a b xs ys by (cases a; cases b) auto
  then show ?thesis by (cases c; cases c') simp
qed

lemma medium_key_inject [simp]: "medium_key m = medium_key m' \<longleftrightarrow> m = m'"
  by (cases m; cases m') simp_all

lemma origin_key_inject [simp]: "origin_key m = origin_key m' \<longleftrightarrow> m = m'"
  by (cases m; cases m') (simp add: word_unat_eq_iff)

lemma target_key_inject [simp]: "target_key m = target_key m' \<longleftrightarrow> m = m'"
  by (cases m; cases m') (simp add: word_unat_eq_iff)

instantiation ChannelFullName :: linorder
begin

definition less_eq_ChannelFullName :: "ChannelFullName \<Rightarrow> ChannelFullName \<Rightarrow> bool" where
  "x \<le> y \<longleftrightarrow> channel_full_name_key x \<le> channel_full_name_key y"

definition less_ChannelFullName :: "ChannelFullName \<Rightarrow> ChannelFullName \<Rightarrow> bool" where
  "x < y \<longleftrightarrow> channel_full_name_key x < channel_full_name_key y"

instance
  by standard (auto simp: less_eq_ChannelFullName_def less_ChannelFullName_def less_le)

end

instantiation Origin :: linorder
begin

definition less_eq_Origin :: "Origin \<Rightarrow> Origin \<Rightarrow> bool" where
  "x \<le> y \<longleftrightarrow> origin_key x \<le> origin_key y"

definition less_Origin :: "Origin \<Rightarrow> Origin \<Rightarrow> bool" where
  "x < y \<longleftrightarrow> origin_key x < origin_key y"

instance
  by standard (auto simp: less_eq_Origin_def less_Origin_def less_le)

end

instantiation Target :: linorder
begin

definition less_eq_Target :: "Target \<Rightarrow> Target \<Rightarrow> bool" where
  "x \<le> y \<longleftrightarrow> target_key x \<le> target_key y"

definition less_Target :: "Target \<Rightarrow> Target \<Rightarrow> bool" where
  "x < y \<longleftrightarrow> target_key x < target_key y"

instance
  by standard (auto simp: less_eq_Target_def less_Target_def less_le)

end

section \<open>Blocks\<close>

record Event =
  ev_certificate_hash :: CryptoHash
  ev_height :: BlockHeight
  ev_index :: u32
  ev_authenticated_signer :: "Owner option"
  ev_is_skippable :: bool
  ev_timestamp :: Timestamp
  ev_message :: Message

record IncomingMessage =
  im_origin :: Origin
  im_event :: Event

record Block =
  blk_chain_id :: ChainId
  blk_epoch :: Epoch
  blk_incoming_messages :: "IncomingMessage list"
  blk_operations :: "Operation list"
  blk_height :: BlockHeight
  blk_timestamp :: Timestamp
  blk_authenticated_signer :: "Owner option"
  blk_previous_block_hash :: "CryptoHash option"

record ChainAndHeight =
  cah_chain_id :: ChainId
  cah_height :: BlockHeight

record BlockAndRound =
  bar_block :: Block
  bar_round :: RoundNumber

record OutgoingMessage =
  om_destination :: Destination
  om_authenticated_signer :: "Owner option"
  om_is_skippable :: bool
  om_message :: Message

record BlockExecutionOutcome =
  beo_messages :: "OutgoingMessage list"
  beo_message_counts :: "u32 list"
  beo_state_hash :: CryptoHash

record ExecutedBlock =
  eb_block :: Block
  eb_messages :: "OutgoingMessage list"
  eb_message_counts :: "u32 list"
  eb_state_hash :: CryptoHash

definition outcome_with :: "BlockExecutionOutcome \<Rightarrow> Block \<Rightarrow> ExecutedBlock" where
  "outcome_with self block =
     \<lparr>eb_block = block, eb_messages = beo_messages self,
      eb_message_counts = beo_message_counts self, eb_state_hash = beo_state_hash self\<rparr>"

text \<open>\<open>Block::bytecode_locations\<close>: a hash map, later entries replace earlier ones.\<close>

definition block_bytecode_locations :: "Block \<Rightarrow> (BytecodeLocation \<times> ChainId) list" where
  "block_bytecode_locations self =
     fold (\<lambda>message locations.
             case ev_message (im_event message) of
               Message_System sys_message \<Rightarrow>
                 fold (\<lambda>location. AList.update location (or_sender (im_origin message)))
                   (message_bytecode_locations sys_message (ev_certificate_hash (im_event message)))
                   locations
             | Message_User _ _ \<Rightarrow> locations)
       (blk_incoming_messages self) []"

definition executed_message_id :: "ExecutedBlock \<Rightarrow> u32 \<Rightarrow> MessageId" where
  "executed_message_id self index =
     MessageId (blk_chain_id (eb_block self)) (blk_height (eb_block self)) index"

text \<open>Slice indexing \<open>get\<close>, which returns \<open>None\<close> out of range.\<close>

definition slice_get :: "'a list \<Rightarrow> nat \<Rightarrow> 'a option" where
  "slice_get xs i = (if i < length xs then Some (xs ! i) else None)"

text \<open>The lengths are \<open>usize\<close>: \<open>checked_add\<close> fails beyond \<open>2^64 - 1\<close>.\<close>

definition usize_checked_add :: "nat \<Rightarrow> nat \<Rightarrow> nat option" where
  "usize_checked_add a b = (if a + b < 2 ^ 64 then Some (a + b) else None)"

definition message_id_for_operation :: "ExecutedBlock \<Rightarrow> nat \<Rightarrow> u32 \<Rightarrow> MessageId option" where
  "message_id_for_operation self operation_index message_index =
     Option.bind (usize_checked_add (length (blk_incoming_messages (eb_block self))) operation_index)
       (\<lambda>transaction_index.
     Option.bind (if transaction_index = 0 then Some 0
                  else slice_get (eb_message_counts self) (transaction_index - 1))
       (\<lambda>first_message_index.
     Option.bind (checked_add first_message_index message_index)
       (\<lambda>index.
     Option.bind (slice_get (eb_message_counts self) transaction_index)
       (\<lambda>next_transaction_index.
     if index < next_transaction_index then Some (executed_message_id self index) else None))))"

end
