(* ===== verification/Certificates.thy ===== *)
theory Certificates
  imports Chain_Types
begin

text \<open>
  Certificate values, votes, certificates and their verification
  (\<open>linera-chain/src/data_types.rs\<close>), with the chain errors (\<open>linera-chain/src/lib.rs\<close>).
  Hashing and signing (SHA3, BCS, Ed25519) are the fields of a record of functions that the
  definitions take as an argument.
\<close>

section \<open>Values and errors\<close>

type_synonym Signature = "512 word"

datatype CertificateValue =
    ValidatedBlock ExecutedBlock
  | ConfirmedBlock ExecutedBlock
  | LeaderTimeout ChainId BlockHeight Epoch

record HashedValue =
  hv_value :: CertificateValue
  hv_hash :: CryptoHash

record LiteValue =
  lv_value_hash :: CryptoHash
  lv_chain_id :: ChainId

type_synonym ValueHashAndRound = "CryptoHash \<times> RoundNumber"

record Vote =
  vote_value :: HashedValue
  vote_round :: RoundNumber
  vote_validator :: ValidatorName
  vote_signature :: Signature

record LiteVote =
  lvote_value :: LiteValue
  lvote_round :: RoundNumber
  lvote_validator :: ValidatorName
  lvote_signature :: Signature

record LiteCertificate =
  lc_value :: LiteValue
  lc_round :: RoundNumber
  lc_signatures :: "(ValidatorName \<times> Signature) list"

record Certificate =
  ct_value :: HashedValue
  ct_round :: RoundNumber
  ct_signatures :: "(ValidatorName \<times> Signature) list"

record BlockProposal =
  bp_content :: BlockAndRound
  bp_owner :: Owner
  bp_signature :: Signature
  bp_blobs :: "HashedValue list"
  bp_validated :: "Certificate option"

datatype CryptoError =
    InvalidSignature string string
  | NonHexDigits string
  | IncorrectHashSize nat
  | IncorrectPublicKeySize nat
  | ParseIntError string

datatype ChainExecutionContext =
  Ctx_Query | Ctx_DescribeApplication | Ctx_IncomingMessage u32 | Ctx_Operation u32

datatype ChainError =
    Chain_CryptoError CryptoError
  | Chain_ArithmeticError ArithmeticError
  | Chain_ViewError ViewError
  | Chain_ExecutionError ExecutionError ChainExecutionContext
  | Chain_PricingError PricingError
  | InactiveChain ChainId
  | MissingCrossChainUpdate ChainId Origin BlockHeight
  | UnexpectedMessage ChainId Origin Event Event
  | IncorrectMessageOrder ChainId Origin Event BlockHeight u32
  | UnskippableMessage ChainId Origin Event
  | IncorrectEventTimestamp ChainId Timestamp Timestamp
  | InvalidSigner
  | UnexpectedBlockHeight BlockHeight BlockHeight
  | UnexpectedPreviousBlockHash
  | InvalidBlockHeight
  | InvalidBlockTimestamp
  | PreviousBlockMustBeConfirmedFirst
  | InvalidBlockProposal
  | InsufficientRound RoundNumber
  | WrongRound RoundNumber
  | HasLockedBlock BlockHeight RoundNumber
  | MissingEarlierBlocks BlockHeight
  | CertificateValidatorReuse
  | CertificateRequiresQuorum
  | CertificateSignatureVerificationFailed string
  | InternalError string
  | InsufficientBalance
  | OwnerWeightError string

section \<open>The external functions\<close>

text \<open>
  A key pair is its public key and its secret. \<open>cr_sign_vote\<close> and \<open>cr_check_vote\<close> are
  \<open>Signature::new\<close> and \<open>Signature::check\<close> on a \<open>ValueHashAndRound\<close>, \<open>cr_sign_block\<close> and
  \<open>cr_check_block\<close> the same on a \<open>BlockAndRound\<close>; \<open>cr_verify_batch\<close> is
  \<open>Signature::verify_batch\<close>.
\<close>

record KeyPair =
  kp_public :: PublicKey
  kp_secret :: "256 word"

record Crypto =
  cr_hash_key :: "PublicKey \<Rightarrow> CryptoHash"
  cr_hash_description :: "ChainDescription \<Rightarrow> CryptoHash"
  cr_hash_value :: "CertificateValue \<Rightarrow> CryptoHash"
  cr_sign_vote :: "KeyPair \<Rightarrow> ValueHashAndRound \<Rightarrow> Signature"
  cr_check_vote :: "Signature \<Rightarrow> ValueHashAndRound \<Rightarrow> PublicKey \<Rightarrow> (CryptoError, unit) result"
  cr_verify_batch :: "ValueHashAndRound \<Rightarrow> (PublicKey \<times> Signature) list \<Rightarrow> (CryptoError, unit) result"
  cr_sign_block :: "KeyPair \<Rightarrow> BlockAndRound \<Rightarrow> Signature"
  cr_check_block :: "Signature \<Rightarrow> BlockAndRound \<Rightarrow> PublicKey \<Rightarrow> (CryptoError, unit) result"

section \<open>Certificate values\<close>

definition value_chain_id :: "CertificateValue \<Rightarrow> ChainId" where
  "value_chain_id self =
     (case self of
        ConfirmedBlock executed_block \<Rightarrow> blk_chain_id (eb_block executed_block)
      | ValidatedBlock executed_block \<Rightarrow> blk_chain_id (eb_block executed_block)
      | LeaderTimeout chain_id _ _ \<Rightarrow> chain_id)"

definition value_height :: "CertificateValue \<Rightarrow> BlockHeight" where
  "value_height self =
     (case self of
        ConfirmedBlock executed_block \<Rightarrow> blk_height (eb_block executed_block)
      | ValidatedBlock executed_block \<Rightarrow> blk_height (eb_block executed_block)
      | LeaderTimeout _ height _ \<Rightarrow> height)"

definition value_epoch :: "CertificateValue \<Rightarrow> Epoch" where
  "value_epoch self =
     (case self of
        ConfirmedBlock executed_block \<Rightarrow> blk_epoch (eb_block executed_block)
      | ValidatedBlock executed_block \<Rightarrow> blk_epoch (eb_block executed_block)
      | LeaderTimeout _ _ epoch \<Rightarrow> epoch)"

definition value_executed_block :: "CertificateValue \<Rightarrow> ExecutedBlock option" where
  "value_executed_block self =
     (case self of
        ConfirmedBlock executed_block \<Rightarrow> Some executed_block
      | ValidatedBlock executed_block \<Rightarrow> Some executed_block
      | LeaderTimeout _ _ _ \<Rightarrow> None)"

definition value_block :: "CertificateValue \<Rightarrow> Block option" where
  "value_block self = map_option eb_block (value_executed_block self)"

definition is_confirmed :: "CertificateValue \<Rightarrow> bool" where
  "is_confirmed self = (case self of ConfirmedBlock _ \<Rightarrow> True | _ \<Rightarrow> False)"

definition is_validated :: "CertificateValue \<Rightarrow> bool" where
  "is_validated self = (case self of ValidatedBlock _ \<Rightarrow> True | _ \<Rightarrow> False)"

definition is_timeout :: "CertificateValue \<Rightarrow> bool" where
  "is_timeout self = (case self of LeaderTimeout _ _ _ \<Rightarrow> True | _ \<Rightarrow> False)"

definition has_message :: "CertificateValue \<Rightarrow> MessageId \<Rightarrow> bool" where
  "has_message self message_id =
     (case value_executed_block self of
        None \<Rightarrow> False
      | Some executed_block \<Rightarrow>
          value_height self = mid_height message_id \<and>
          value_chain_id self = mid_chain_id message_id \<and>
          length (eb_messages executed_block) > unat (mid_index message_id))"

definition with_hash_unchecked :: "CertificateValue \<Rightarrow> CryptoHash \<Rightarrow> HashedValue" where
  "with_hash_unchecked self hash = \<lparr>hv_value = self, hv_hash = hash\<rparr>"

definition hashed_from :: "Crypto \<Rightarrow> CertificateValue \<Rightarrow> HashedValue" where
  "hashed_from cr value = \<lparr>hv_value = value, hv_hash = cr_hash_value cr value\<rparr>"

definition new_confirmed :: "Crypto \<Rightarrow> ExecutedBlock \<Rightarrow> HashedValue" where
  "new_confirmed cr executed_block = hashed_from cr (ConfirmedBlock executed_block)"

definition new_validated :: "Crypto \<Rightarrow> ExecutedBlock \<Rightarrow> HashedValue" where
  "new_validated cr executed_block = hashed_from cr (ValidatedBlock executed_block)"

definition new_leader_timeout :: "Crypto \<Rightarrow> ChainId \<Rightarrow> BlockHeight \<Rightarrow> Epoch \<Rightarrow> HashedValue" where
  "new_leader_timeout cr chain_id height epoch = hashed_from cr (LeaderTimeout chain_id height epoch)"

definition hashed_lite :: "HashedValue \<Rightarrow> LiteValue" where
  "hashed_lite self = \<lparr>lv_value_hash = hv_hash self, lv_chain_id = value_chain_id (hv_value self)\<rparr>"

definition into_confirmed :: "Crypto \<Rightarrow> HashedValue \<Rightarrow> HashedValue option" where
  "into_confirmed cr self =
     (case hv_value self of
        ConfirmedBlock _ \<Rightarrow> Some \<lparr>hv_value = hv_value self, hv_hash = hv_hash self\<rparr>
      | ValidatedBlock executed_block \<Rightarrow> Some (hashed_from cr (ConfirmedBlock executed_block))
      | LeaderTimeout _ _ _ \<Rightarrow> None)"

section \<open>Votes and proposals\<close>

definition proposal_new ::
    "Crypto \<Rightarrow> BlockAndRound \<Rightarrow> KeyPair \<Rightarrow> HashedValue list \<Rightarrow> Certificate option \<Rightarrow> BlockProposal" where
  "proposal_new cr content secret blobs validated =
     \<lparr>bp_content = content, bp_owner = owner_from (cr_hash_key cr) (kp_public secret),
      bp_signature = cr_sign_block cr secret content, bp_blobs = blobs, bp_validated = validated\<rparr>"

definition vote_new :: "Crypto \<Rightarrow> HashedValue \<Rightarrow> RoundNumber \<Rightarrow> KeyPair \<Rightarrow> Vote" where
  "vote_new cr value round key_pair =
     \<lparr>vote_value = value, vote_round = round, vote_validator = kp_public key_pair,
      vote_signature = cr_sign_vote cr key_pair (hv_hash value, round)\<rparr>"

definition vote_lite :: "Vote \<Rightarrow> LiteVote" where
  "vote_lite self =
     \<lparr>lvote_value = hashed_lite (vote_value self), lvote_round = vote_round self,
      lvote_validator = vote_validator self, lvote_signature = vote_signature self\<rparr>"

definition lite_vote_with_value :: "LiteVote \<Rightarrow> HashedValue \<Rightarrow> Vote option" where
  "lite_vote_with_value self value =
     (if lvote_value self \<noteq> hashed_lite value then None
      else Some \<lparr>vote_value = value, vote_round = lvote_round self,
                 vote_validator = lvote_validator self, vote_signature = lvote_signature self\<rparr>)"

definition lite_vote_new :: "Crypto \<Rightarrow> LiteValue \<Rightarrow> RoundNumber \<Rightarrow> KeyPair \<Rightarrow> LiteVote" where
  "lite_vote_new cr value round key_pair =
     \<lparr>lvote_value = value, lvote_round = round, lvote_validator = kp_public key_pair,
      lvote_signature = cr_sign_vote cr key_pair (lv_value_hash value, round)\<rparr>"

definition lite_vote_check :: "Crypto \<Rightarrow> LiteVote \<Rightarrow> (ChainError, unit) result" where
  "lite_vote_check cr self =
     map_err Chain_CryptoError
       (cr_check_vote cr (lvote_signature self) (lv_value_hash (lvote_value self), lvote_round self)
          (lvote_validator self))"

section \<open>Certificates\<close>

text \<open>\<open>values.windows(2).all(|pair| pair[0].0 < pair[1].0)\<close>\<close>

fun is_strictly_ordered :: "(ValidatorName \<times> Signature) list \<Rightarrow> bool" where
  "is_strictly_ordered (a # b # values) = (fst a < fst b \<and> is_strictly_ordered (b # values))"
| "is_strictly_ordered _ = True"

definition certificate_new ::
    "HashedValue \<Rightarrow> RoundNumber \<Rightarrow> (ValidatorName \<times> Signature) list \<Rightarrow> Certificate" where
  "certificate_new value round signatures =
     \<lparr>ct_value = value, ct_round = round,
      ct_signatures = (if is_strictly_ordered signatures then signatures else sort_key fst signatures)\<rparr>"

text \<open>The check at the end of \<open>Certificate\<close>'s \<open>Deserialize\<close>.\<close>

definition certificate_deserialize ::
    "HashedValue \<Rightarrow> RoundNumber \<Rightarrow> (ValidatorName \<times> Signature) list \<Rightarrow> (string, Certificate) result" where
  "certificate_deserialize value round signatures =
     (if \<not> is_strictly_ordered signatures then Err ''Vector is not strictly sorted''
      else Ok \<lparr>ct_value = value, ct_round = round, ct_signatures = signatures\<rparr>)"

definition certificate_lite_value :: "Certificate \<Rightarrow> LiteValue" where
  "certificate_lite_value self =
     \<lparr>lv_value_hash = hv_hash (ct_value self), lv_chain_id = value_chain_id (hv_value (ct_value self))\<rparr>"

definition lite_certificate :: "Certificate \<Rightarrow> LiteCertificate" where
  "lite_certificate self =
     \<lparr>lc_value = certificate_lite_value self, lc_round = ct_round self,
      lc_signatures = ct_signatures self\<rparr>"

definition lite_certificate_new ::
    "LiteValue \<Rightarrow> RoundNumber \<Rightarrow> (ValidatorName \<times> Signature) list \<Rightarrow> LiteCertificate" where
  "lite_certificate_new value round signatures =
     \<lparr>lc_value = value, lc_round = round,
      lc_signatures = (if is_strictly_ordered signatures then signatures else sort_key fst signatures)\<rparr>"

definition try_from_votes :: "LiteVote list \<Rightarrow> LiteCertificate option" where
  "try_from_votes votes =
     (case votes of
        [] \<Rightarrow> None
      | v # votes \<Rightarrow>
          if \<exists>vote \<in> set votes. lv_value_hash (lvote_value vote) \<noteq> lv_value_hash (lvote_value v)
                              \<or> lvote_round vote \<noteq> lvote_round v
          then None
          else Some (lite_certificate_new (lvote_value v) (lvote_round v)
                 (map (\<lambda>vote. (lvote_validator vote, lvote_signature vote)) (v # votes))))"

definition lite_certificate_with_value :: "LiteCertificate \<Rightarrow> HashedValue \<Rightarrow> Certificate option" where
  "lite_certificate_with_value self value =
     (if lv_chain_id (lc_value self) \<noteq> value_chain_id (hv_value value)
         \<or> lv_value_hash (lc_value self) \<noteq> hv_hash value
      then None
      else Some \<lparr>ct_value = value, ct_round = lc_round self, ct_signatures = lc_signatures self\<rparr>)"

definition add_signature :: "Certificate \<Rightarrow> ValidatorName \<times> Signature \<Rightarrow> Certificate" where
  "add_signature self signature =
     (let index = (case binary_search_by (\<lambda>x. compare_keys (fst x) (fst signature)) (ct_signatures self) of
                     Found i \<Rightarrow> i | Missing i \<Rightarrow> i)
      in self\<lparr>ct_signatures := vec_insert index signature (ct_signatures self)\<rparr>)"

definition is_signed_by :: "Certificate \<Rightarrow> ValidatorName \<Rightarrow> bool" where
  "is_signed_by self validator_name =
     (case binary_search_by (\<lambda>x. compare_keys (fst x) validator_name) (ct_signatures self) of
        Found _ \<Rightarrow> True | Missing _ \<Rightarrow> False)"

text \<open>The loop of \<open>check_signatures\<close>: the weight so far and the validators seen so far.\<close>

fun count_weight ::
    "Committee \<Rightarrow> (ValidatorName \<times> Signature) list \<Rightarrow> u64 \<Rightarrow> ValidatorName list
       \<Rightarrow> (ChainError, u64) result" where
  "count_weight committee [] acc used_validators = Ok acc"
| "count_weight committee ((validator, _) # signatures) acc used_validators =
     ensure (validator \<notin> set used_validators) CertificateValidatorReuse
       (let voting_rights = weight committee validator
        in ensure (voting_rights > 0) InvalidSigner
             (count_weight committee signatures (acc + voting_rights) (validator # used_validators)))"

definition check_signatures ::
    "Crypto \<Rightarrow> LiteValue \<Rightarrow> RoundNumber \<Rightarrow> (ValidatorName \<times> Signature) list \<Rightarrow> Committee
       \<Rightarrow> (ChainError, unit) result" where
  "check_signatures cr value round signatures committee =
     and_then (count_weight committee signatures 0 []) (\<lambda>weight.
     ensure (weight \<ge> quorum_threshold committee) CertificateRequiresQuorum
       (map_err Chain_CryptoError (cr_verify_batch cr (lv_value_hash value, round) signatures)))"

definition certificate_check :: "Crypto \<Rightarrow> Certificate \<Rightarrow> Committee \<Rightarrow> (ChainError, HashedValue) result" where
  "certificate_check cr self committee =
     and_then (check_signatures cr (certificate_lite_value self) (ct_round self) (ct_signatures self)
                 committee)
       (\<lambda>_. Ok (ct_value self))"

definition lite_certificate_check ::
    "Crypto \<Rightarrow> LiteCertificate \<Rightarrow> Committee \<Rightarrow> (ChainError, LiteValue) result" where
  "lite_certificate_check cr self committee =
     and_then (check_signatures cr (lc_value self) (lc_round self) (lc_signatures self) committee)
       (\<lambda>_. Ok (lc_value self))"

section \<open>Aggregation\<close>

record SignatureAggregator =
  sa_committee :: Committee
  sa_weight :: u64
  sa_used_validators :: "ValidatorName list"
  sa_partial :: Certificate

definition aggregator_new :: "HashedValue \<Rightarrow> RoundNumber \<Rightarrow> Committee \<Rightarrow> SignatureAggregator" where
  "aggregator_new value round committee =
     \<lparr>sa_committee = committee, sa_weight = 0, sa_used_validators = [],
      sa_partial = \<lparr>ct_value = value, ct_round = round, ct_signatures = []\<rparr>\<rparr>"

text \<open>
  \<open>append\<close> changes the aggregator even when it returns an error, so the new aggregator is
  returned beside the result.
\<close>

definition aggregator_append ::
    "Crypto \<Rightarrow> SignatureAggregator \<Rightarrow> ValidatorName \<Rightarrow> Signature
       \<Rightarrow> SignatureAggregator \<times> (ChainError, Certificate option) result" where
  "aggregator_append cr self validator signature =
     (let hash_and_round = (hv_hash (ct_value (sa_partial self)), ct_round (sa_partial self))
      in case cr_check_vote cr signature hash_and_round validator of
           Err e \<Rightarrow> (self, Err (Chain_CryptoError e))
         | Panic \<Rightarrow> (self, Panic)
         | Ok _ \<Rightarrow>
             if validator \<in> set (sa_used_validators self) then (self, Err CertificateValidatorReuse)
             else
               let self = self\<lparr>sa_used_validators := validator # sa_used_validators self\<rparr>;
                   voting_rights = weight (sa_committee self) validator
               in if \<not> voting_rights > 0 then (self, Err InvalidSigner)
                  else
                    let self = self\<lparr>sa_weight := sa_weight self + voting_rights\<rparr>;
                        self = self\<lparr>sa_partial := add_signature (sa_partial self) (validator, signature)\<rparr>
                    in if sa_weight self \<ge> quorum_threshold (sa_committee self)
                       then (self\<lparr>sa_weight := 0\<rparr>, Ok (Some (sa_partial self)))
                       else (self, Ok None))"

section \<open>Lemmas\<close>

lemma is_strictly_ordered_iff: "is_strictly_ordered xs \<longleftrightarrow> sorted_wrt (<) (map fst xs)"
proof (induction xs rule: is_strictly_ordered.induct)
  case (1 a b vs)
  then show ?case by (auto intro: less_trans)
qed auto

lemma sorted_signers_distinct: "sorted_wrt (<) (map fst xs) \<Longrightarrow> distinct (map fst xs)"
    for xs :: "('k::linorder \<times> 'v) list"
  by (simp add: strict_sorted_iff)

lemma is_signed_by_iff:
  "is_strictly_ordered (ct_signatures cert) \<Longrightarrow>
     is_signed_by cert v \<longleftrightarrow> v \<in> fst ` set (ct_signatures cert)"
  using binary_search_by_Found_iff [of fst "ct_signatures cert" v]
  by (auto simp: is_signed_by_def is_strictly_ordered_iff split: search_result.splits)

lemma add_signature_sorted:
  assumes "is_strictly_ordered (ct_signatures cert)" and "v \<notin> fst ` set (ct_signatures cert)"
  shows "is_strictly_ordered (ct_signatures (add_signature cert (v, s)))"
proof -
  obtain i where i: "binary_search_by (\<lambda>x. compare_keys (fst x) v) (ct_signatures cert) = Missing i"
    using assms binary_search_by_Found_iff [of fst "ct_signatures cert" v]
    by (cases "binary_search_by (\<lambda>x. compare_keys (fst x) v) (ct_signatures cert)")
      (auto simp: is_strictly_ordered_iff)
  then show ?thesis
    using sorted_vec_insert [of fst "ct_signatures cert" "(v, s)" i] assms(1)
    by (simp add: add_signature_def is_strictly_ordered_iff)
qed

lemma set_add_signature [simp]:
  "set (ct_signatures (add_signature cert x)) = insert x (set (ct_signatures cert))"
  by (simp add: add_signature_def Let_def)

lemma add_signature_same [simp]:
  "ct_value (add_signature cert x) = ct_value cert" "ct_round (add_signature cert x) = ct_round cert"
  by (simp_all add: add_signature_def Let_def)

lemma count_weight_Ok_iff:
  "count_weight c sigs acc used = Ok w \<longleftrightarrow>
     distinct (map fst sigs) \<and> fst ` set sigs \<inter> set used = {} \<and>
     (\<forall>v \<in> fst ` set sigs. weight c v > 0) \<and>
     w = acc + sum_list (map (weight c \<circ> fst) sigs)"
proof (induction c sigs acc used rule: count_weight.induct)
  case (2 committee validator s signatures acc used)
  then show ?case by (simp add: Let_def) (auto simp: add.assoc)
qed auto

lemma unat_sum_list_weight:
  assumes "committee_wf c" and "distinct vs"
  shows "unat (sum_list (map (weight c) vs)) = (\<Sum>v\<in>set vs. unat (weight c v))"
  using assms(2)
proof (induction vs)
  case (Cons v vs)
  have "(\<Sum>v\<in>set (v # vs). unat (weight c v)) \<le> unat (com_total_votes c)"
    using quorums.power_le_total [of "set (v # vs)" c] assms(1) by (simp add: committee_total)
  also have "\<dots> < 2 ^ 64" using unat_lt_pow [of "com_total_votes c"] by simp
  finally show ?case
    using Cons by (simp add: unat_plus_exact)
qed simp

text \<open>What a verified list of signatures guarantees, with the weights counted exactly.\<close>

lemma check_signatures_Ok_iff:
  assumes "committee_wf c"
  shows "check_signatures cr lv r sigs c = Ok () \<longleftrightarrow>
     distinct (map fst sigs) \<and> (\<forall>v \<in> fst ` set sigs. weight c v > 0) \<and>
     quorums.is_quorum c (fst ` set sigs) \<and>
     cr_verify_batch cr (lv_value_hash lv, r) sigs = Ok ()"
proof -
  have "distinct (map fst sigs) \<Longrightarrow>
     unat (sum_list (map (weight c \<circ> fst) sigs)) = (\<Sum>v\<in>fst ` set sigs. unat (weight c v))"
    using unat_sum_list_weight [OF assms, of "map fst sigs"] by simp
  then show ?thesis
    by (auto simp: check_signatures_def count_weight_Ok_iff quorums.is_quorum_def word_le_nat_alt)
qed

lemma certificate_check_Ok_iff:
  "certificate_check cr cert c = Ok v \<longleftrightarrow>
     check_signatures cr (certificate_lite_value cert) (ct_round cert) (ct_signatures cert) c = Ok ()
     \<and> v = ct_value cert"
  by (auto simp: certificate_check_def)

end
