(* ===== verification/Manager.thy ===== *)
theory Manager
  imports Certificates
begin

text \<open>
  The chain managers of \<open>linera-chain/src/manager\<close>: which proposals and certificates a
  validator votes for at one block height. \<open>single_*\<close> is \<open>single.rs\<close>, \<open>multi_*\<close> is
  \<open>multi.rs\<close> and \<open>manager_*\<close> the dispatch in \<open>mod.rs\<close>. The leader distribution
  \<open>WeightedAliasIndex\<close> (crate \<open>rand_distr\<close>) is represented by the weights it was built
  from; building it and sampling it with a seeded generator are the two fields of a record
  of functions.
\<close>

record Sampler =
  smp_check_weights :: "u64 list \<Rightarrow> (string, unit) result"
  smp_sample :: "u64 list \<Rightarrow> u64 \<Rightarrow> nat"

datatype Outcome = Accept | Skip

section \<open>Single owner\<close>

record SingleOwnerManager =
  sm_owner :: Owner
  sm_public_key :: PublicKey
  sm_pending :: "Vote option"

definition single_new :: "Owner \<Rightarrow> PublicKey \<Rightarrow> SingleOwnerManager" where
  "single_new owner public_key =
     \<lparr>sm_owner = owner, sm_public_key = public_key, sm_pending = None\<rparr>"

definition single_check_proposed_block ::
    "SingleOwnerManager \<Rightarrow> BlockProposal \<Rightarrow> (ChainError, Outcome) result" where
  "single_check_proposed_block self proposal =
     (let new_block = bar_block (bp_content proposal);
          new_round = bar_round (bp_content proposal)
      in ensure (bp_validated proposal = None) InvalidBlockProposal
        (ensure (new_round = 0 \<and> bp_validated proposal = None) InvalidBlockProposal
          (case sm_pending self of
             Some vote \<Rightarrow>
               (case hv_value (vote_value vote) of
                  ConfirmedBlock executed_block \<Rightarrow>
                    if eb_block executed_block = new_block then Ok Skip
                    else Err PreviousBlockMustBeConfirmedFirst
                | _ \<Rightarrow> Err (InternalError ''Unexpected value''))
           | None \<Rightarrow> Ok Accept)))"

definition single_create_vote ::
    "Crypto \<Rightarrow> SingleOwnerManager \<Rightarrow> BlockProposal \<Rightarrow> BlockExecutionOutcome \<Rightarrow> KeyPair option
       \<Rightarrow> SingleOwnerManager" where
  "single_create_vote cr self proposal outcome key_pair =
     (case key_pair of
        None \<Rightarrow> self
      | Some key_pair \<Rightarrow>
          let block = bar_block (bp_content proposal);
              round = bar_round (bp_content proposal)
          in if round \<noteq> 0 then self
             else
               let executed_block = outcome_with outcome block;
                   value = hashed_from cr (ConfirmedBlock executed_block);
                   vote = vote_new cr value round key_pair
               in self\<lparr>sm_pending := Some vote\<rparr>)"

definition single_verify_owner :: "SingleOwnerManager \<Rightarrow> BlockProposal \<Rightarrow> PublicKey option" where
  "single_verify_owner self proposal =
     (if sm_owner self = bp_owner proposal then Some (sm_public_key self) else None)"

section \<open>Multiple owners\<close>

definition TIMEOUT :: Duration where
  "TIMEOUT = duration_from_secs 10"

record MultiOwnerManager =
  mm_public_keys :: "(Owner, PublicKey \<times> u64) BTreeMap"
  mm_multi_leader_rounds :: RoundNumber
  mm_seed :: u64
  mm_distribution :: "u64 list"
  mm_proposed :: "BlockProposal option"
  mm_locked :: "Certificate option"
  mm_leader_timeout :: "Certificate option"
  mm_pending :: "Vote option"
  mm_timeout_vote :: "Vote option"
  mm_round_timeout :: Timestamp

definition multi_new ::
    "Sampler \<Rightarrow> (Owner \<times> (PublicKey \<times> u64)) list \<Rightarrow> RoundNumber \<Rightarrow> u64 \<Rightarrow> Timestamp
       \<Rightarrow> (ChainError, MultiOwnerManager) result" where
  "multi_new smp public_keys multi_leader_rounds seed now =
     (let public_keys = btree_from_list public_keys;
          weights = map (snd \<circ> snd) public_keys
      in and_then (map_err OwnerWeightError (smp_check_weights smp weights)) (\<lambda>_.
         let round_timeout = timestamp_saturating_add now TIMEOUT
         in Ok \<lparr>mm_public_keys = public_keys, mm_multi_leader_rounds = multi_leader_rounds,
                mm_seed = seed, mm_distribution = weights, mm_proposed = None, mm_locked = None,
                mm_leader_timeout = None, mm_pending = None, mm_timeout_vote = None,
                mm_round_timeout = round_timeout\<rparr>))"

text \<open>\<open>try_add_one().unwrap_or(RoundNumber::MAX)\<close>\<close>

definition next_round_or_max :: "RoundNumber \<Rightarrow> RoundNumber" where
  "next_round_or_max r = (case try_add_one r of Ok r' \<Rightarrow> r' | _ \<Rightarrow> max_value)"

definition multi_current_round :: "MultiOwnerManager \<Rightarrow> RoundNumber" where
  "multi_current_round self =
     (let rounds =
        map (\<lambda>certificate. next_round_or_max (ct_round certificate)) (option_list (mm_leader_timeout self))
        @ map ct_round (option_list (mm_locked self))
        @ map (\<lambda>proposal. bar_round (bp_content proposal)) (option_list (mm_proposed self))
      in fold max rounds 0)"

text \<open>The end of \<open>check_proposed_block\<close>: the proposal must agree with the highest lock.\<close>

definition multi_check_lock :: "MultiOwnerManager \<Rightarrow> BlockProposal \<Rightarrow> (ChainError, Outcome) result" where
  "multi_check_lock self proposal =
     (let new_round = bar_round (bp_content proposal);
          new_block = bar_block (bp_content proposal)
      in case max_by_key ct_round (option_list (bp_validated proposal) @ option_list (mm_locked self)) of
           Some locked \<Rightarrow>
             and_then
               (ok_or (InternalError ''locked certificate must contain block'')
                 (value_block (hv_value (ct_value locked))))
               (\<lambda>block.
                 ensure (ct_round locked < new_round \<and> block = new_block)
                   (HasLockedBlock (blk_height block) (ct_round locked))
                   (Ok Accept))
         | None \<Rightarrow> Ok Accept)"

definition multi_check_proposed_block ::
    "MultiOwnerManager \<Rightarrow> BlockProposal \<Rightarrow> (ChainError, Outcome) result" where
  "multi_check_proposed_block self proposal =
     (let new_round = bar_round (bp_content proposal);
          new_block = bar_block (bp_content proposal);
          validated = bp_validated proposal
      in ensure (case validated of Some cert \<Rightarrow> is_validated (hv_value (ct_value cert)) | None \<Rightarrow> True)
           InvalidBlockProposal
        (and_then
          (case validated of
             None \<Rightarrow> Ok (multi_current_round self)
           | Some cert \<Rightarrow>
               map_ok (\<lambda>r. max r (multi_current_round self))
                 (map_err Chain_ArithmeticError (try_add_one (ct_round cert))))
          (\<lambda>expected_round.
            (if new_round > mm_multi_leader_rounds self
             then ensure (expected_round = new_round) (WrongRound expected_round)
             else ensure (expected_round \<le> new_round) (InsufficientRound expected_round))
            (case mm_proposed self of
               Some old_proposal \<Rightarrow>
                 if bp_content old_proposal = bp_content proposal then Ok Skip
                 else if new_round \<le> bar_round (bp_content old_proposal)
                 then Err (InsufficientRound (bar_round (bp_content old_proposal)))
                 else multi_check_lock self proposal
             | None \<Rightarrow> multi_check_lock self proposal))))"

definition multi_update_timeout :: "MultiOwnerManager \<Rightarrow> RoundNumber \<Rightarrow> Timestamp \<Rightarrow> MultiOwnerManager" where
  "multi_update_timeout self round now =
     (if multi_current_round self \<le> round
      then
        let factor = saturating_add round 2;
            timeout = duration_saturating_mul TIMEOUT factor
        in self\<lparr>mm_round_timeout := timestamp_saturating_add now timeout\<rparr>
      else self)"

text \<open>\<open>vote_leader_timeout\<close> returns the manager and whether a vote was cast.\<close>

definition multi_vote_leader_timeout ::
    "Crypto \<Rightarrow> MultiOwnerManager \<Rightarrow> ChainId \<Rightarrow> BlockHeight \<Rightarrow> Epoch \<Rightarrow> KeyPair option \<Rightarrow> Timestamp
       \<Rightarrow> MultiOwnerManager \<times> bool" where
  "multi_vote_leader_timeout cr self chain_id height epoch key_pair now =
     (case key_pair of
        None \<Rightarrow> (self, False)
      | Some key_pair \<Rightarrow>
          if now < mm_round_timeout self then (self, False)
          else
            let current_round = multi_current_round self
            in if (case mm_timeout_vote self of
                     Some vote \<Rightarrow> vote_round vote = current_round | None \<Rightarrow> False)
               then (self, False)
               else
                 let value = new_leader_timeout cr chain_id height epoch
                 in (self\<lparr>mm_timeout_vote := Some (vote_new cr value current_round key_pair)\<rparr>, True))"

definition multi_check_validated_block ::
    "MultiOwnerManager \<Rightarrow> Certificate \<Rightarrow> (ChainError, Outcome) result" where
  "multi_check_validated_block self certificate =
     (let new_block = value_block (hv_value (ct_value certificate));
          new_round = ct_round certificate;
          check_locked =
            (case mm_locked self of
               Some locked \<Rightarrow>
                 ensure (new_round > ct_round locked) (InsufficientRound (ct_round locked)) (Ok Accept)
             | None \<Rightarrow> Ok Accept)
      in case mm_pending self of
           Some vote \<Rightarrow>
             (case hv_value (vote_value vote) of
                ConfirmedBlock executed_block \<Rightarrow>
                  if Some (eb_block executed_block) = new_block \<and> vote_round vote = new_round
                  then Ok Skip else check_locked
              | ValidatedBlock _ \<Rightarrow>
                  ensure (new_round \<ge> vote_round vote) (InsufficientRound (vote_round vote)) check_locked
              | LeaderTimeout _ _ _ \<Rightarrow>
                  Err (InternalError ''pending can only be validated or confirmed block''))
         | None \<Rightarrow> check_locked)"

definition multi_create_vote ::
    "Crypto \<Rightarrow> MultiOwnerManager \<Rightarrow> BlockProposal \<Rightarrow> BlockExecutionOutcome \<Rightarrow> KeyPair option
       \<Rightarrow> Timestamp \<Rightarrow> MultiOwnerManager" where
  "multi_create_vote cr self proposal outcome key_pair now =
     (let self = (case try_sub_one (bar_round (bp_content proposal)) of
                    Ok round \<Rightarrow> multi_update_timeout self round now | _ \<Rightarrow> self);
          self = self\<lparr>mm_proposed := Some proposal\<rparr>;
          self = (case bp_validated proposal of
                    Some validated \<Rightarrow>
                      if (case mm_locked self of
                            None \<Rightarrow> True | Some locked \<Rightarrow> ct_round locked < ct_round validated)
                      then self\<lparr>mm_locked := Some validated\<rparr> else self
                  | None \<Rightarrow> self)
      in case key_pair of
           Some key_pair \<Rightarrow>
             let block = bar_block (bp_content proposal);
                 round = bar_round (bp_content proposal);
                 executed_block = outcome_with outcome block;
                 vote = vote_new cr (new_validated cr executed_block) round key_pair
             in self\<lparr>mm_pending := Some vote\<rparr>
         | None \<Rightarrow> self)"

definition multi_create_final_vote ::
    "Crypto \<Rightarrow> MultiOwnerManager \<Rightarrow> Certificate \<Rightarrow> KeyPair option \<Rightarrow> Timestamp \<Rightarrow> MultiOwnerManager" where
  "multi_create_final_vote cr self certificate key_pair now =
     (let round = ct_round certificate
      in if key_pair \<noteq> None \<and> round < multi_current_round self then self
         else
           case into_confirmed cr (ct_value certificate) of
             None \<Rightarrow> self
           | Some value \<Rightarrow>
               let self = multi_update_timeout self round now;
                   self = self\<lparr>mm_locked := Some certificate\<rparr>
               in case key_pair of
                    Some key_pair \<Rightarrow> self\<lparr>mm_pending := Some (vote_new cr value round key_pair)\<rparr>
                  | None \<Rightarrow> self)"

definition multi_handle_timeout_certificate ::
    "MultiOwnerManager \<Rightarrow> Certificate \<Rightarrow> Timestamp \<Rightarrow> MultiOwnerManager" where
  "multi_handle_timeout_certificate self certificate now =
     (if \<not> is_timeout (hv_value (ct_value certificate)) then self
      else
        let round = ct_round certificate
        in if (case mm_leader_timeout self of
                 Some known_certificate \<Rightarrow> ct_round known_certificate \<ge> round | None \<Rightarrow> False)
           then self
           else (multi_update_timeout self round now)\<lparr>mm_leader_timeout := Some certificate\<rparr>)"

definition multi_round_leader_index :: "Sampler \<Rightarrow> MultiOwnerManager \<Rightarrow> RoundNumber \<Rightarrow> nat option" where
  "multi_round_leader_index smp self round =
     (let seed = word_rotl 32 (ucast round :: u64) + mm_seed self
      in Some (smp_sample smp (mm_distribution self) seed))"

definition multi_verify_owner :: "Sampler \<Rightarrow> MultiOwnerManager \<Rightarrow> BlockProposal \<Rightarrow> PublicKey option" where
  "multi_verify_owner smp self proposal =
     (if bar_round (bp_content proposal) < mm_multi_leader_rounds self
      then map_option fst (btree_get (mm_public_keys self) (bp_owner proposal))
      else
        Option.bind (multi_round_leader_index smp self (bar_round (bp_content proposal))) (\<lambda>index.
        Option.bind (slice_get (mm_public_keys self) index) (\<lambda>(leader, (key, _)).
        if leader = bp_owner proposal then Some key else None)))"

definition multi_round_leader :: "Sampler \<Rightarrow> MultiOwnerManager \<Rightarrow> RoundNumber \<Rightarrow> Owner option" where
  "multi_round_leader smp self round =
     (if round < mm_multi_leader_rounds self then None
      else Option.bind (multi_round_leader_index smp self round) (\<lambda>index.
           slice_get (map fst (mm_public_keys self)) index))"

section \<open>The chain manager\<close>

datatype ChainManager =
  Manager_None | Manager_Single SingleOwnerManager | Manager_Multi MultiOwnerManager

definition manager_reset ::
    "Sampler \<Rightarrow> ChainOwnership \<Rightarrow> BlockHeight \<Rightarrow> Timestamp \<Rightarrow> (ChainError, ChainManager) result" where
  "manager_reset smp ownership height now =
     (case ownership of
        Ownership_None \<Rightarrow> Ok Manager_None
      | Ownership_Single owner public_key \<Rightarrow> Ok (Manager_Single (single_new owner public_key))
      | Ownership_Multi public_keys multi_leader_rounds \<Rightarrow>
          map_ok Manager_Multi (multi_new smp public_keys multi_leader_rounds height now))"

definition manager_is_active :: "ChainManager \<Rightarrow> bool" where
  "manager_is_active self = (case self of Manager_None \<Rightarrow> False | _ \<Rightarrow> True)"

definition manager_verify_owner :: "Sampler \<Rightarrow> ChainManager \<Rightarrow> BlockProposal \<Rightarrow> PublicKey option" where
  "manager_verify_owner smp self proposal =
     (case self of
        Manager_Single manager \<Rightarrow> single_verify_owner manager proposal
      | Manager_Multi manager \<Rightarrow> multi_verify_owner smp manager proposal
      | Manager_None \<Rightarrow> None)"

definition manager_current_round :: "ChainManager \<Rightarrow> RoundNumber" where
  "manager_current_round self =
     (case self of Manager_Multi manager \<Rightarrow> multi_current_round manager | _ \<Rightarrow> 0)"

definition manager_pending :: "ChainManager \<Rightarrow> Vote option" where
  "manager_pending self =
     (case self of
        Manager_Single manager \<Rightarrow> sm_pending manager
      | Manager_Multi manager \<Rightarrow> mm_pending manager
      | Manager_None \<Rightarrow> None)"

definition manager_vote_leader_timeout ::
    "Crypto \<Rightarrow> ChainManager \<Rightarrow> ChainId \<Rightarrow> BlockHeight \<Rightarrow> Epoch \<Rightarrow> KeyPair option \<Rightarrow> Timestamp
       \<Rightarrow> ChainManager \<times> bool" where
  "manager_vote_leader_timeout cr self chain_id height epoch key_pair now =
     (case self of
        Manager_Multi manager \<Rightarrow>
          (let (manager, voted) = multi_vote_leader_timeout cr manager chain_id height epoch key_pair now
           in (Manager_Multi manager, voted))
      | _ \<Rightarrow> (self, False))"

definition manager_check_proposed_block ::
    "ChainManager \<Rightarrow> BlockProposal \<Rightarrow> (ChainError, Outcome) result" where
  "manager_check_proposed_block self proposal =
     ensure (blk_height (bar_block (bp_content proposal)) < max_value) InvalidBlockHeight
       (case self of
          Manager_Single manager \<Rightarrow> single_check_proposed_block manager proposal
        | Manager_Multi manager \<Rightarrow> multi_check_proposed_block manager proposal
        | Manager_None \<Rightarrow> Panic)"

definition manager_check_validated_block ::
    "ChainManager \<Rightarrow> Certificate \<Rightarrow> (ChainError, Outcome) result" where
  "manager_check_validated_block self certificate =
     (case self of
        Manager_Multi manager \<Rightarrow> multi_check_validated_block manager certificate
      | _ \<Rightarrow> Panic)"

definition manager_create_vote ::
    "Crypto \<Rightarrow> ChainManager \<Rightarrow> BlockProposal \<Rightarrow> BlockExecutionOutcome \<Rightarrow> KeyPair option \<Rightarrow> Timestamp
       \<Rightarrow> (ChainError, ChainManager) result" where
  "manager_create_vote cr self proposal outcome key_pair now =
     (case self of
        Manager_Single manager \<Rightarrow>
          Ok (Manager_Single (single_create_vote cr manager proposal outcome key_pair))
      | Manager_Multi manager \<Rightarrow>
          Ok (Manager_Multi (multi_create_vote cr manager proposal outcome key_pair now))
      | Manager_None \<Rightarrow> Panic)"

definition manager_create_final_vote ::
    "Crypto \<Rightarrow> ChainManager \<Rightarrow> Certificate \<Rightarrow> KeyPair option \<Rightarrow> Timestamp
       \<Rightarrow> (ChainError, ChainManager) result" where
  "manager_create_final_vote cr self certificate key_pair now =
     (case self of
        Manager_Multi manager \<Rightarrow>
          Ok (Manager_Multi (multi_create_final_vote cr manager certificate key_pair now))
      | _ \<Rightarrow> Panic)"

definition manager_handle_timeout_certificate ::
    "ChainManager \<Rightarrow> Certificate \<Rightarrow> Timestamp \<Rightarrow> (ChainError, ChainManager) result" where
  "manager_handle_timeout_certificate self certificate now =
     (case self of
        Manager_Multi manager \<Rightarrow>
          Ok (Manager_Multi (multi_handle_timeout_certificate manager certificate now))
      | _ \<Rightarrow> Panic)"

section \<open>What clients see of a manager\<close>

record SingleOwnerManagerInfo =
  si_owner :: Owner
  si_public_key :: PublicKey
  si_pending :: "LiteVote option"
  si_requested_pending_value :: "HashedValue option"

definition single_info_from :: "SingleOwnerManager \<Rightarrow> SingleOwnerManagerInfo" where
  "single_info_from manager =
     \<lparr>si_owner = sm_owner manager, si_public_key = sm_public_key manager,
      si_pending = map_option vote_lite (sm_pending manager), si_requested_pending_value = None\<rparr>"

definition single_info_add_values ::
    "SingleOwnerManagerInfo \<Rightarrow> SingleOwnerManager \<Rightarrow> SingleOwnerManagerInfo" where
  "single_info_add_values self manager =
     self\<lparr>si_requested_pending_value := map_option vote_value (sm_pending manager)\<rparr>"

record MultiOwnerManagerInfo =
  mi_public_keys :: "(Owner \<times> (PublicKey \<times> u64)) list"
  mi_multi_leader_rounds :: RoundNumber
  mi_requested_proposed :: "BlockProposal option"
  mi_requested_locked :: "Certificate option"
  mi_leader_timeout :: "Certificate option"
  mi_pending :: "LiteVote option"
  mi_timeout_vote :: "LiteVote option"
  mi_requested_pending_value :: "HashedValue option"
  mi_current_round :: RoundNumber
  mi_leader :: "Owner option"
  mi_round_timeout :: Timestamp

definition multi_info_from :: "Sampler \<Rightarrow> MultiOwnerManager \<Rightarrow> MultiOwnerManagerInfo" where
  "multi_info_from smp manager =
     (let current_round = multi_current_round manager
      in \<lparr>mi_public_keys = mm_public_keys manager,
          mi_multi_leader_rounds = mm_multi_leader_rounds manager,
          mi_requested_proposed = None, mi_requested_locked = None,
          mi_leader_timeout = mm_leader_timeout manager,
          mi_pending = map_option vote_lite (mm_pending manager),
          mi_timeout_vote = map_option vote_lite (mm_timeout_vote manager),
          mi_requested_pending_value = None, mi_current_round = current_round,
          mi_leader = multi_round_leader smp manager current_round,
          mi_round_timeout = mm_round_timeout manager\<rparr>)"

definition multi_info_add_values ::
    "MultiOwnerManagerInfo \<Rightarrow> MultiOwnerManager \<Rightarrow> MultiOwnerManagerInfo" where
  "multi_info_add_values self manager =
     self\<lparr>mi_requested_proposed := mm_proposed manager, mi_requested_locked := mm_locked manager,
          mi_requested_pending_value := map_option vote_value (mm_pending manager)\<rparr>"

definition multi_info_highest_validated :: "MultiOwnerManagerInfo \<Rightarrow> Certificate option" where
  "multi_info_highest_validated self =
     max_by_key ct_round
       (option_list (mi_requested_locked self)
        @ option_list (Option.bind (mi_requested_proposed self) bp_validated))"

definition multi_info_next_round :: "MultiOwnerManagerInfo \<Rightarrow> RoundNumber option" where
  "multi_info_next_round self =
     (let proposal_round = map_option (\<lambda>p. bar_round (bp_content p)) (mi_requested_proposed self);
          locked_round = map_option ct_round (mi_requested_locked self)
      in if proposal_round \<noteq> Some (mi_current_round self) \<and> locked_round \<noteq> Some (mi_current_round self)
         then Some (mi_current_round self)
         else if mi_current_round self < mi_multi_leader_rounds self
         then (case try_add_one (mi_current_round self) of Ok r \<Rightarrow> Some r | _ \<Rightarrow> None)
         else None)"

datatype ChainManagerInfo =
  Info_None | Info_Single SingleOwnerManagerInfo | Info_Multi MultiOwnerManagerInfo

definition manager_info_from :: "Sampler \<Rightarrow> ChainManager \<Rightarrow> ChainManagerInfo" where
  "manager_info_from smp manager =
     (case manager of
        Manager_Single single \<Rightarrow> Info_Single (single_info_from single)
      | Manager_Multi multi \<Rightarrow> Info_Multi (multi_info_from smp multi)
      | Manager_None \<Rightarrow> Info_None)"

definition manager_info_add_values :: "ChainManagerInfo \<Rightarrow> ChainManager \<Rightarrow> ChainManagerInfo" where
  "manager_info_add_values self manager =
     (case (self, manager) of
        (Info_Single info, Manager_Single single) \<Rightarrow> Info_Single (single_info_add_values info single)
      | (Info_Multi info, Manager_Multi multi) \<Rightarrow> Info_Multi (multi_info_add_values info multi)
      | _ \<Rightarrow> self)"

definition manager_info_pending :: "ChainManagerInfo \<Rightarrow> LiteVote option" where
  "manager_info_pending self =
     (case self of
        Info_Single single \<Rightarrow> si_pending single
      | Info_Multi multi \<Rightarrow> mi_pending multi
      | Info_None \<Rightarrow> None)"

definition manager_info_timeout_vote :: "ChainManagerInfo \<Rightarrow> LiteVote option" where
  "manager_info_timeout_vote self =
     (case self of Info_Multi multi \<Rightarrow> mi_timeout_vote multi | _ \<Rightarrow> None)"

definition manager_info_highest_validated :: "ChainManagerInfo \<Rightarrow> Certificate option" where
  "manager_info_highest_validated self =
     (case self of Info_Multi multi \<Rightarrow> multi_info_highest_validated multi | _ \<Rightarrow> None)"

definition manager_info_current_round :: "ChainManagerInfo \<Rightarrow> RoundNumber" where
  "manager_info_current_round self =
     (case self of Info_Multi multi \<Rightarrow> mi_current_round multi | _ \<Rightarrow> 0)"

definition manager_info_next_round :: "ChainManagerInfo \<Rightarrow> RoundNumber option" where
  "manager_info_next_round self =
     (case self of
        Info_Multi multi \<Rightarrow> multi_info_next_round multi
      | Info_Single _ \<Rightarrow> Some 0
      | Info_None \<Rightarrow> None)"

section \<open>Rounds\<close>

lemma le_fold_max_iff: "fold max xs a \<le> b \<longleftrightarrow> a \<le> b \<and> (\<forall>x \<in> set xs. x \<le> b)"
    for a :: "'a::linorder"
  by (induction xs arbitrary: a) auto

lemma current_round_le_iff:
  "multi_current_round m \<le> r \<longleftrightarrow>
     (\<forall>c. mm_leader_timeout m = Some c \<longrightarrow> next_round_or_max (ct_round c) \<le> r) \<and>
     (\<forall>c. mm_locked m = Some c \<longrightarrow> ct_round c \<le> r) \<and>
     (\<forall>p. mm_proposed m = Some p \<longrightarrow> bar_round (bp_content p) \<le> r)"
  by (cases "mm_leader_timeout m"; cases "mm_locked m"; cases "mm_proposed m")
    (auto simp: multi_current_round_def Let_def)

lemma round_le_current:
  "mm_locked m = Some c \<Longrightarrow> ct_round c \<le> multi_current_round m"
  "mm_proposed m = Some p \<Longrightarrow> bar_round (bp_content p) \<le> multi_current_round m"
  using current_round_le_iff [of m "multi_current_round m"] by simp_all

lemma update_timeout_same [simp]:
  "mm_proposed (multi_update_timeout m r now) = mm_proposed m"
  "mm_locked (multi_update_timeout m r now) = mm_locked m"
  "mm_leader_timeout (multi_update_timeout m r now) = mm_leader_timeout m"
  "mm_pending (multi_update_timeout m r now) = mm_pending m"
  "mm_timeout_vote (multi_update_timeout m r now) = mm_timeout_vote m"
  by (simp_all add: multi_update_timeout_def Let_def)

lemma unat_next_round_or_max: "unat (next_round_or_max r) = min (unat r + 1) (2 ^ 32 - 1)"
proof (cases "try_add_one r")
  case (Ok r')
  then have "unat r' = unat r + 1" by simp
  with Ok unat_lt_pow [of r'] show ?thesis
    by (simp add: next_round_or_max_def del: try_add_one_Ok_iff)
next
  case (Err e)
  then have "r = max_value" by (simp add: try_add_one_Err_iff)
  with Err show ?thesis by (simp add: next_round_or_max_def unat_MAX)
qed simp

lemma next_round_or_max_mono: "r \<le> r' \<Longrightarrow> next_round_or_max r \<le> next_round_or_max r'"
  by (simp add: word_le_nat_alt unat_next_round_or_max)

end
