(* ===== verification/Consensus.thy ===== *)
theory Consensus
  imports Manager
begin

text \<open>
  The safety argument in the header of \<open>linera-chain/src/manager/multi.rs\<close>: as long as less
  than a third of the validators are faulty, at most one block is confirmed at a height.
  The argument itself is a locale over the voting rules that the header lists. The network
  is a transition system whose steps are the handlers of \<open>MultiOwnerManager\<close> behind the
  checks that the worker makes before it calls them; faulty validators may sign anything.
\<close>

section \<open>The voting rules\<close>

locale locked_voting =
  fixes good :: "'s \<Rightarrow> bool"
    and quorum :: "'s \<Rightarrow> 'v set \<Rightarrow> bool"
    and honest :: "'s \<Rightarrow> 'v \<Rightarrow> bool"
    and validates :: "'s \<Rightarrow> 'v \<Rightarrow> 'x \<Rightarrow> 'r::wellorder \<Rightarrow> bool"
    and confirms :: "'s \<Rightarrow> 'v \<Rightarrow> 'x \<Rightarrow> 'r::wellorder \<Rightarrow> bool"
    and validated :: "'s \<Rightarrow> 'x \<Rightarrow> 'r::wellorder \<Rightarrow> bool"
    and block_of :: "'x \<Rightarrow> 'b"
  assumes honest_overlap:
      "good s \<Longrightarrow> quorum s A \<Longrightarrow> quorum s B \<Longrightarrow> \<exists>v. v \<in> A \<and> v \<in> B \<and> honest s v"
    and validated_by_quorum:
      "good s \<Longrightarrow> validated s x r \<Longrightarrow> \<exists>Q. quorum s Q \<and> (\<forall>v\<in>Q. honest s v \<longrightarrow> validates s v x r)"
    and one_validation_per_round:
      "good s \<Longrightarrow> honest s v \<Longrightarrow> validates s v x r \<Longrightarrow> validates s v y r \<Longrightarrow> x = y"
    and confirms_validated:
      "good s \<Longrightarrow> honest s v \<Longrightarrow> confirms s v x r \<Longrightarrow> validated s x r"
    and respects_lock:
      "good s \<Longrightarrow> honest s v \<Longrightarrow> confirms s v x r \<Longrightarrow> validates s v y t \<Longrightarrow> r < t \<Longrightarrow>
         \<exists>z u. validated s z u \<and> r \<le> u \<and> u < t \<and> block_of z = block_of y"
begin

definition confirmed :: "'s \<Rightarrow> 'x \<Rightarrow> 'r::wellorder \<Rightarrow> bool" where
  "confirmed s x r \<longleftrightarrow> (\<exists>Q. quorum s Q \<and> (\<forall>v\<in>Q. honest s v \<longrightarrow> confirms s v x r))"

lemma validated_unique:
  assumes "good s" and "validated s x r" and "validated s y r"
  shows "x = y"
proof -
  obtain A B where "quorum s A" "\<forall>v\<in>A. honest s v \<longrightarrow> validates s v x r"
    and "quorum s B" "\<forall>v\<in>B. honest s v \<longrightarrow> validates s v y r"
    using validated_by_quorum [OF assms(1)] assms(2,3) by meson
  with honest_overlap [OF assms(1), of A B] one_validation_per_round [OF assms(1)]
  show ?thesis by blast
qed

text \<open>Once a block is confirmed in a round, only that block is validated from there on.\<close>

lemma validated_after_confirmed:
  assumes "good s" and "confirmed s x r"
  shows "validated s y t \<Longrightarrow> r \<le> t \<Longrightarrow> block_of y = block_of x"
proof (induction t arbitrary: y rule: less_induct)
  case (less t)
  obtain A where A: "quorum s A" "\<forall>v\<in>A. honest s v \<longrightarrow> confirms s v x r"
    using assms(2) by (auto simp: confirmed_def)
  obtain B where B: "quorum s B" "\<forall>v\<in>B. honest s v \<longrightarrow> validates s v y t"
    using validated_by_quorum [OF assms(1) less.prems(1)] by blast
  obtain v where v: "honest s v" "confirms s v x r" "validates s v y t"
    using honest_overlap [OF assms(1) A(1) B(1)] A(2) B(2) by blast
  show ?case
  proof (cases "r = t")
    case True
    then have "validated s x t" using confirms_validated [OF assms(1) v(1,2)] by simp
    with validated_unique [OF assms(1) less.prems(1)] show ?thesis by simp
  next
    case False
    with less.prems(2) have "r < t" by simp
    then obtain z u where "validated s z u" "r \<le> u" "u < t" "block_of z = block_of y"
      using respects_lock [OF assms(1) v] by blast
    with less.IH [of u z] show ?thesis by simp
  qed
qed

lemma confirmed_is_validated:
  assumes "good s" and "confirmed s x r"
  shows "validated s x r"
  using assms honest_overlap [OF assms(1)] confirms_validated [OF assms(1)]
  by (metis confirmed_def)

lemma agreement:
  assumes "good s" and "confirmed s x r" and "confirmed s y t"
  shows "block_of x = block_of y"
proof (cases "r \<le> t")
  case True
  then show ?thesis
    using validated_after_confirmed [OF assms(1,2)] confirmed_is_validated [OF assms(1,3)] by simp
next
  case False
  then show ?thesis
    using validated_after_confirmed [OF assms(1,3)] confirmed_is_validated [OF assms(1,2)] by simp
qed

end

section \<open>The network\<close>

text \<open>
  \<open>net_values\<close> is the set of values that occur in a run; hashing is assumed to be free of
  collisions on it. A node is a validator's manager together with every vote it has ever
  exposed, that is, every content its fields \<open>pending\<close> and \<open>timeout_vote\<close> have had.
\<close>

record Network =
  net_crypto :: Crypto
  net_committee :: Committee
  net_faulty :: "ValidatorName set"
  net_values :: "CertificateValue set"

type_synonym votes = "(CertificateValue \<times> RoundNumber) set"

record Node =
  nd_manager :: MultiOwnerManager
  nd_votes :: votes

type_synonym NetState = "ValidatorName \<Rightarrow> Node"

definition network_wf :: "Network \<Rightarrow> bool" where
  "network_wf N \<longleftrightarrow>
     committee_wf (net_committee N) \<and>
     quorums.tolerated (net_committee N) (net_faulty N) \<and>
     inj_on (cr_hash_value (net_crypto N)) (net_values N)"

definition vote_content :: "Vote \<Rightarrow> CertificateValue \<times> RoundNumber" where
  "vote_content vote = (hv_value (vote_value vote), vote_round vote)"

definition cast_votes :: "MultiOwnerManager \<Rightarrow> votes" where
  "cast_votes m = vote_content ` (set_option (mm_pending m) \<union> set_option (mm_timeout_vote m))"

definition node_update :: "NetState \<Rightarrow> ValidatorName \<Rightarrow> MultiOwnerManager \<Rightarrow> NetState" where
  "node_update \<sigma> v m =
     \<sigma>(v := \<lparr>nd_manager = m, nd_votes = nd_votes (\<sigma> v) \<union> cast_votes m\<rparr>)"

text \<open>
  A certificate that can be shown in a state: its hash is the hash of its value, it passes
  \<open>Certificate::check\<close>, and signatures cannot be forged: an honest validator listed in it
  has exposed a vote for a value with that hash in that round.
\<close>

definition genuine :: "Network \<Rightarrow> (ValidatorName \<Rightarrow> votes) \<Rightarrow> Certificate \<Rightarrow> bool" where
  "genuine N V c \<longleftrightarrow>
     hv_hash (ct_value c) = cr_hash_value (net_crypto N) (hv_value (ct_value c)) \<and>
     hv_value (ct_value c) \<in> net_values N \<and>
     certificate_check (net_crypto N) c (net_committee N) = Ok (ct_value c) \<and>
     (\<forall>v \<in> fst ` set (ct_signatures c). v \<notin> net_faulty N \<longrightarrow>
        (\<exists>value. (value, ct_round c) \<in> V v \<and>
           cr_hash_value (net_crypto N) value = hv_hash (ct_value c)))"

text \<open>What an honest validator does with its manager, with the checks the worker makes first.\<close>

inductive node_step :: "Crypto \<Rightarrow> (Certificate \<Rightarrow> bool) \<Rightarrow> MultiOwnerManager \<Rightarrow> MultiOwnerManager \<Rightarrow> bool"
    for cr G m where
  handle_block_proposal:
    "(\<And>c. bp_validated proposal = Some c \<Longrightarrow> G c) \<Longrightarrow>
     manager_check_proposed_block (Manager_Multi m) proposal = Ok Accept \<Longrightarrow>
     node_step cr G m (multi_create_vote cr m proposal outcome (Some key_pair) now)"
| process_validated_block:
    "G certificate \<Longrightarrow> is_validated (hv_value (ct_value certificate)) \<Longrightarrow>
     multi_check_validated_block m certificate = Ok Accept \<Longrightarrow>
     node_step cr G m (multi_create_final_vote cr m certificate (Some key_pair) now)"
| process_leader_timeout:
    "G certificate \<Longrightarrow> is_timeout (hv_value (ct_value certificate)) \<Longrightarrow>
     node_step cr G m (multi_handle_timeout_certificate m certificate now)"
| request_leader_timeout:
    "node_step cr G m
       (fst (multi_vote_leader_timeout cr m chain_id height epoch (Some key_pair) now))"

inductive net_step :: "Network \<Rightarrow> NetState \<Rightarrow> NetState \<Rightarrow> bool" for N where
  honest_step:
    "v \<notin> net_faulty N \<Longrightarrow>
     node_step (net_crypto N) (genuine N (nd_votes \<circ> \<sigma>)) (nd_manager (\<sigma> v)) m' \<Longrightarrow>
     cast_votes m' \<subseteq> net_values N \<times> UNIV \<Longrightarrow>
     net_step N \<sigma> (node_update \<sigma> v m')"

definition net_initial :: "NetState \<Rightarrow> bool" where
  "net_initial \<sigma> \<longleftrightarrow>
     (\<forall>v. nd_votes (\<sigma> v) = {} \<and>
          (\<exists>smp keys rounds seed now. multi_new smp keys rounds seed now = Ok (nd_manager (\<sigma> v))))"

inductive net_reachable :: "Network \<Rightarrow> NetState \<Rightarrow> bool" for N where
  initial: "net_initial \<sigma> \<Longrightarrow> net_reachable N \<sigma>"
| step: "net_reachable N \<sigma> \<Longrightarrow> net_step N \<sigma> \<sigma>' \<Longrightarrow> net_reachable N \<sigma>'"

inductive_cases node_stepE: "node_step cr G m m'"
inductive_cases net_stepE: "net_step N \<sigma> \<sigma>'"

section \<open>The invariant of an honest validator\<close>

definition certified :: "(Certificate \<Rightarrow> bool) \<Rightarrow> CertificateValue \<Rightarrow> RoundNumber \<Rightarrow> bool" where
  "certified G value r \<longleftrightarrow> (\<exists>c. G c \<and> hv_value (ct_value c) = value \<and> ct_round c = r)"

definition node_inv :: "(Certificate \<Rightarrow> bool) \<Rightarrow> MultiOwnerManager \<Rightarrow> votes \<Rightarrow> bool" where
  "node_inv G m L \<longleftrightarrow>
     cast_votes m \<subseteq> L \<and>
     (\<forall>value r. (value, r) \<in> L \<longrightarrow> r \<le> multi_current_round m) \<and>
     (\<forall>c. mm_locked m = Some c \<longrightarrow> G c \<and> is_validated (hv_value (ct_value c))) \<and>
     (\<forall>x r. (ValidatedBlock x, r) \<in> L \<longrightarrow>
        (\<exists>p. mm_proposed m = Some p \<and> r \<le> bar_round (bp_content p))) \<and>
     (\<forall>x y r. (ValidatedBlock x, r) \<in> L \<longrightarrow> (ValidatedBlock y, r) \<in> L \<longrightarrow> x = y) \<and>
     (\<forall>x r. (ConfirmedBlock x, r) \<in> L \<longrightarrow>
        (\<exists>c. mm_locked m = Some c \<and> r \<le> ct_round c) \<and> certified G (ValidatedBlock x) r) \<and>
     (\<forall>x y r t. (ConfirmedBlock x, r) \<in> L \<longrightarrow> (ValidatedBlock y, t) \<in> L \<longrightarrow> r < t \<longrightarrow>
        (\<exists>z u. certified G (ValidatedBlock z) u \<and> r \<le> u \<and> u < t \<and> eb_block z = eb_block y))"

lemma certified_mono: "(\<And>c. G c \<Longrightarrow> G' c) \<Longrightarrow> certified G value r \<Longrightarrow> certified G' value r"
  by (auto simp: certified_def)

lemma node_inv_mono: "(\<And>c. G c \<Longrightarrow> G' c) \<Longrightarrow> node_inv G m L \<Longrightarrow> node_inv G' m L"
  unfolding node_inv_def by (blast intro: certified_mono)

lemma node_inv_facts:
  assumes "node_inv G m L"
  shows node_inv_cast: "cast_votes m \<subseteq> L"
    and node_inv_round: "(w, r) \<in> L \<Longrightarrow> r \<le> multi_current_round m"
    and node_inv_locked: "mm_locked m = Some c \<Longrightarrow> G c \<and> is_validated (hv_value (ct_value c))"
    and node_inv_proposed:
      "(ValidatedBlock x, r) \<in> L \<Longrightarrow> \<exists>p. mm_proposed m = Some p \<and> r \<le> bar_round (bp_content p)"
    and node_inv_unique: "(ValidatedBlock x, r) \<in> L \<Longrightarrow> (ValidatedBlock y, r) \<in> L \<Longrightarrow> x = y"
    and node_inv_confirmed:
      "(ConfirmedBlock x, r) \<in> L \<Longrightarrow>
         (\<exists>c. mm_locked m = Some c \<and> r \<le> ct_round c) \<and> certified G (ValidatedBlock x) r"
    and node_inv_lock:
      "(ConfirmedBlock x, r) \<in> L \<Longrightarrow> (ValidatedBlock y, t) \<in> L \<Longrightarrow> r < t \<Longrightarrow>
         \<exists>z u. certified G (ValidatedBlock z) u \<and> r \<le> u \<and> u < t \<and> eb_block z = eb_block y"
  using assms unfolding node_inv_def by blast+

section \<open>What the checks guarantee\<close>

lemma check_lock_Accept:
  assumes "multi_check_lock m p = Ok Accept" and "mm_locked m = Some c"
  shows "\<exists>d. (mm_locked m = Some d \<or> bp_validated p = Some d) \<and> ct_round c \<le> ct_round d \<and>
     ct_round d < bar_round (bp_content p) \<and>
     value_block (hv_value (ct_value d)) = Some (bar_block (bp_content p))"
proof -
  let ?cs = "option_list (bp_validated p) @ option_list (mm_locked m)"
  obtain d where d: "max_by_key ct_round ?cs = Some d"
    using assms(2) by (cases "max_by_key ct_round ?cs") simp_all
  then have "d \<in> set ?cs" "ct_round c \<le> ct_round d"
    using max_by_key_Some [OF d] assms(2) by auto
  then show ?thesis
    using assms(1) d by (auto simp: multi_check_lock_def Let_def intro!: exI [of _ d])
qed

lemma check_proposed_expected_round:
  assumes "multi_check_proposed_block m p = Ok Accept"
  obtains e where "e \<le> bar_round (bp_content p)"
    and "(case bp_validated p of
            None \<Rightarrow> Ok (multi_current_round m)
          | Some cert \<Rightarrow> map_ok (\<lambda>r. max r (multi_current_round m))
              (map_err Chain_ArithmeticError (try_add_one (ct_round cert)))) = Ok e"
    and "case bp_validated p of Some cert \<Rightarrow> is_validated (hv_value (ct_value cert)) | None \<Rightarrow> True"
    and "case mm_proposed m of
           Some old \<Rightarrow> bar_round (bp_content old) < bar_round (bp_content p) | None \<Rightarrow> True"
    and "multi_check_lock m p = Ok Accept"
proof -
  obtain e where e: "(case bp_validated p of
            None \<Rightarrow> Ok (multi_current_round m)
          | Some cert \<Rightarrow> map_ok (\<lambda>r. max r (multi_current_round m))
              (map_err Chain_ArithmeticError (try_add_one (ct_round cert)))) = Ok e"
    and v: "case bp_validated p of Some cert \<Rightarrow> is_validated (hv_value (ct_value cert)) | None \<Rightarrow> True"
    and rest: "(if bar_round (bp_content p) > mm_multi_leader_rounds m
             then ensure (e = bar_round (bp_content p)) (WrongRound e)
             else ensure (e \<le> bar_round (bp_content p)) (InsufficientRound e))
            (case mm_proposed m of
               Some old_proposal \<Rightarrow>
                 if bp_content old_proposal = bp_content p then Ok Skip
                 else if bar_round (bp_content p) \<le> bar_round (bp_content old_proposal)
                 then Err (InsufficientRound (bar_round (bp_content old_proposal)))
                 else multi_check_lock m p
             | None \<Rightarrow> multi_check_lock m p) = Ok Accept"
    using assms unfolding multi_check_proposed_block_def Let_def ensure_Ok_iff and_then_Ok_iff by blast
  have "e \<le> bar_round (bp_content p)"
    using rest by (simp split: if_splits)
  moreover have "case mm_proposed m of
       Some old \<Rightarrow> bar_round (bp_content old) < bar_round (bp_content p) | None \<Rightarrow> True"
    using rest by (simp split: if_splits option.splits)
  moreover have "multi_check_lock m p = Ok Accept"
    using rest by (simp split: if_splits option.splits)
  ultimately show thesis using e v that by blast
qed

lemma check_proposed_Accept:
  assumes "multi_check_proposed_block m p = Ok Accept"
  shows "multi_current_round m \<le> bar_round (bp_content p)"
    and "bp_validated p = Some c \<Longrightarrow> is_validated (hv_value (ct_value c))"
    and "bp_validated p = Some c \<Longrightarrow> ct_round c < bar_round (bp_content p)"
    and "mm_proposed m = Some q \<Longrightarrow> bar_round (bp_content q) < bar_round (bp_content p)"
    and "multi_check_lock m p = Ok Accept"
proof -
  obtain e where e: "e \<le> bar_round (bp_content p)"
    and e_def: "(case bp_validated p of
            None \<Rightarrow> Ok (multi_current_round m)
          | Some cert \<Rightarrow> map_ok (\<lambda>r. max r (multi_current_round m))
              (map_err Chain_ArithmeticError (try_add_one (ct_round cert)))) = Ok e"
    and v: "case bp_validated p of Some cert \<Rightarrow> is_validated (hv_value (ct_value cert)) | None \<Rightarrow> True"
    and q: "case mm_proposed m of
           Some old \<Rightarrow> bar_round (bp_content old) < bar_round (bp_content p) | None \<Rightarrow> True"
    and lock: "multi_check_lock m p = Ok Accept"
    using assms by (rule check_proposed_expected_round)
  have "multi_current_round m \<le> e"
    using e_def by (cases "bp_validated p") auto
  with e show "multi_current_round m \<le> bar_round (bp_content p)" by simp
  show "multi_check_lock m p = Ok Accept" by (fact lock)
  show "bp_validated p = Some c \<Longrightarrow> is_validated (hv_value (ct_value c))" using v by simp
  show "mm_proposed m = Some q \<Longrightarrow> bar_round (bp_content q) < bar_round (bp_content p)"
    using q by simp
  assume "bp_validated p = Some c"
  then obtain r where "unat r = Suc (unat (ct_round c))" "r \<le> e"
    using e_def by auto
  with e show "ct_round c < bar_round (bp_content p)"
    by (simp add: word_less_nat_alt word_le_nat_alt)
qed

lemma check_validated_Accept:
  assumes "multi_check_validated_block m c = Ok Accept" and "mm_locked m = Some d"
  shows "ct_round d < ct_round c"
  using assms
  by (auto simp: multi_check_validated_block_def Let_def
      split: option.splits if_splits CertificateValue.splits)

section \<open>What the handlers change\<close>

lemma case_result_fields [simp]:
  "mm_locked (case r of Ok x \<Rightarrow> multi_update_timeout m x now | _ \<Rightarrow> m) = mm_locked m"
  "mm_leader_timeout (case r of Ok x \<Rightarrow> multi_update_timeout m x now | _ \<Rightarrow> m) = mm_leader_timeout m"
  "mm_timeout_vote (case r of Ok x \<Rightarrow> multi_update_timeout m x now | _ \<Rightarrow> m) = mm_timeout_vote m"
  by (cases r; simp)+

lemma create_vote_effects:
  "mm_proposed (multi_create_vote cr m p outcome (Some kp) now) = Some p"
  "mm_leader_timeout (multi_create_vote cr m p outcome (Some kp) now) = mm_leader_timeout m"
  "mm_timeout_vote (multi_create_vote cr m p outcome (Some kp) now) = mm_timeout_vote m"
  "map_option vote_content (mm_pending (multi_create_vote cr m p outcome (Some kp) now)) =
     Some (ValidatedBlock (outcome_with outcome (bar_block (bp_content p))), bar_round (bp_content p))"
  "mm_locked (multi_create_vote cr m p outcome (Some kp) now) =
     max_by_key ct_round (option_list (bp_validated p) @ option_list (mm_locked m))"
proof -
  show "mm_proposed (multi_create_vote cr m p outcome (Some kp) now) = Some p"
    by (simp add: multi_create_vote_def Let_def split: option.split)
  show "mm_leader_timeout (multi_create_vote cr m p outcome (Some kp) now) = mm_leader_timeout m"
    by (simp add: multi_create_vote_def Let_def split: option.split)
  show "mm_timeout_vote (multi_create_vote cr m p outcome (Some kp) now) = mm_timeout_vote m"
    by (simp add: multi_create_vote_def Let_def split: option.split)
  show "map_option vote_content (mm_pending (multi_create_vote cr m p outcome (Some kp) now)) =
     Some (ValidatedBlock (outcome_with outcome (bar_block (bp_content p))), bar_round (bp_content p))"
    by (simp add: multi_create_vote_def Let_def vote_content_def vote_new_def new_validated_def
        hashed_from_def)
  show "mm_locked (multi_create_vote cr m p outcome (Some kp) now) =
     max_by_key ct_round (option_list (bp_validated p) @ option_list (mm_locked m))"
    by (cases "bp_validated p"; cases "mm_locked m") (simp_all add: multi_create_vote_def Let_def not_less)
qed

lemma create_final_vote_effects:
  assumes "hv_value (ct_value c) = ValidatedBlock x"
  shows "multi_create_final_vote cr m c (Some kp) now = m \<and> ct_round c < multi_current_round m \<or>
     multi_current_round m \<le> ct_round c \<and>
     (let m' = multi_create_final_vote cr m c (Some kp) now
      in mm_proposed m' = mm_proposed m \<and> mm_leader_timeout m' = mm_leader_timeout m \<and>
         mm_timeout_vote m' = mm_timeout_vote m \<and> mm_locked m' = Some c \<and>
         map_option vote_content (mm_pending m') = Some (ConfirmedBlock x, ct_round c))"
  using assms
  by (simp add: multi_create_final_vote_def Let_def into_confirmed_def vote_content_def vote_new_def
      hashed_from_def not_less)

lemma timeout_certificate_effects:
  "mm_proposed (multi_handle_timeout_certificate m c now) = mm_proposed m"
  "mm_locked (multi_handle_timeout_certificate m c now) = mm_locked m"
  "mm_pending (multi_handle_timeout_certificate m c now) = mm_pending m"
  "mm_timeout_vote (multi_handle_timeout_certificate m c now) = mm_timeout_vote m"
  "mm_leader_timeout (multi_handle_timeout_certificate m c now) = mm_leader_timeout m \<or>
     mm_leader_timeout (multi_handle_timeout_certificate m c now) = Some c \<and>
     (\<forall>k. mm_leader_timeout m = Some k \<longrightarrow> ct_round k < ct_round c)"
  by (auto simp: multi_handle_timeout_certificate_def Let_def split: option.splits)

lemma vote_leader_timeout_effects:
  defines "m' cr m ch h e kp now \<equiv> fst (multi_vote_leader_timeout cr m ch h e (Some kp) now)"
  shows "mm_proposed (m' cr m ch h e kp now) = mm_proposed m"
    and "mm_locked (m' cr m ch h e kp now) = mm_locked m"
    and "mm_pending (m' cr m ch h e kp now) = mm_pending m"
    and "mm_leader_timeout (m' cr m ch h e kp now) = mm_leader_timeout m"
    and "mm_timeout_vote (m' cr m ch h e kp now) = mm_timeout_vote m \<or>
      map_option vote_content (mm_timeout_vote (m' cr m ch h e kp now)) =
        Some (LeaderTimeout ch h e, multi_current_round m)"
  by (auto simp: m'_def multi_vote_leader_timeout_def Let_def vote_content_def vote_new_def
      new_leader_timeout_def hashed_from_def)

section \<open>Every step keeps the invariant\<close>

lemma cast_votes_Some:
  "cast_votes m = set_option (map_option vote_content (mm_pending m))
     \<union> set_option (map_option vote_content (mm_timeout_vote m))"
  by (auto simp: cast_votes_def option.set_map)

lemma value_block_validated:
  "is_validated w \<Longrightarrow> value_block w = Some b \<Longrightarrow> \<exists>x. w = ValidatedBlock x \<and> eb_block x = b"
  by (cases w) (auto simp: is_validated_def value_block_def value_executed_block_def)

lemma create_vote_current_round:
  assumes "multi_check_proposed_block m p = Ok Accept"
  shows "multi_current_round (multi_create_vote cr m p outcome (Some kp) now) = bar_round (bp_content p)"
proof (rule antisym)
  let ?m' = "multi_create_vote cr m p outcome (Some kp) now"
  have "ct_round c \<le> bar_round (bp_content p)" if "mm_locked ?m' = Some c" for c
  proof -
    from that have "mm_locked m = Some c \<or> bp_validated p = Some c"
      using max_by_key_Some [of ct_round _ c] by (fastforce simp: create_vote_effects)
    then show ?thesis
      using check_proposed_Accept(1) [OF assms] check_proposed_Accept(3) [OF assms]
        round_le_current(1) by (fastforce intro: less_imp_le order_trans)
  qed
  moreover have "multi_current_round m \<le> bar_round (bp_content p)"
    by (rule check_proposed_Accept(1) [OF assms])
  ultimately show "multi_current_round ?m' \<le> bar_round (bp_content p)"
    by (simp add: current_round_le_iff create_vote_effects(1-3))
  show "bar_round (bp_content p) \<le> multi_current_round ?m'"
    by (rule round_le_current) (rule create_vote_effects)
qed

lemma node_inv_create_vote:
  assumes inv: "node_inv G m L"
    and check: "multi_check_proposed_block m p = Ok Accept"
    and G: "\<And>c. bp_validated p = Some c \<Longrightarrow> G c"
    and m'_def: "m' = multi_create_vote cr m p outcome (Some kp) now"
  shows "node_inv G m' (L \<union> cast_votes m')"
proof -
  let ?r = "bar_round (bp_content p)"
  let ?x = "outcome_with outcome (bar_block (bp_content p))"
  note acc = check_proposed_Accept [OF check]
  have L': "L \<union> cast_votes m' = insert (ValidatedBlock ?x, ?r) L"
    using inv by (auto simp: cast_votes_Some m'_def create_vote_effects node_inv_def)
  have rounds: "multi_current_round m' = ?r"
    unfolding m'_def by (rule create_vote_current_round [OF check])
  have old: "t < ?r" if "(ValidatedBlock y, t) \<in> L" for y t
    using inv that acc(4) unfolding node_inv_def by (meson le_less_trans)
  have fresh: "(ValidatedBlock y, ?r) \<notin> L" for y
    using old by blast
  have locked: "\<exists>d. mm_locked m' = Some d \<and> ct_round c \<le> ct_round d" if "mm_locked m = Some c" for c
    using that max_by_key_Some [of ct_round "option_list (bp_validated p) @ option_list (mm_locked m)"]
    by (cases "mm_locked m'") (auto simp: m'_def create_vote_effects)
  have locked': "G c \<and> is_validated (hv_value (ct_value c))" if "mm_locked m' = Some c" for c
  proof -
    from that have "mm_locked m = Some c \<or> bp_validated p = Some c"
      using max_by_key_Some [of ct_round _ c] by (fastforce simp: m'_def create_vote_effects)
    with inv G acc(2) show ?thesis unfolding node_inv_def by blast
  qed
  have lock: "\<exists>z u. certified G (ValidatedBlock z) u \<and> t \<le> u \<and> u < ?r \<and> eb_block z = eb_block ?x"
    if "(ConfirmedBlock y, t) \<in> L" for y t
  proof -
    from inv that obtain c where c: "mm_locked m = Some c" "t \<le> ct_round c"
      unfolding node_inv_def by blast
    obtain d where d: "mm_locked m = Some d \<or> bp_validated p = Some d" "ct_round c \<le> ct_round d"
      "ct_round d < ?r" "value_block (hv_value (ct_value d)) = Some (bar_block (bp_content p))"
      using check_lock_Accept [OF acc(5) c(1)] by blast
    have Gd: "G d" "is_validated (hv_value (ct_value d))"
      using d(1) inv G acc(2) unfolding node_inv_def by blast+
    then obtain z where "hv_value (ct_value d) = ValidatedBlock z" "eb_block z = bar_block (bp_content p)"
      using value_block_validated d(4) by blast
    moreover note d(2,3) c(2)
    ultimately show ?thesis
      by (intro exI [of _ z] exI [of _ "ct_round d"]) (use Gd in \<open>auto simp: certified_def outcome_with_def\<close>)
  qed
  have conf: "(\<exists>c. mm_locked m' = Some c \<and> t \<le> ct_round c) \<and> certified G (ValidatedBlock y) t"
    if "(ConfirmedBlock y, t) \<in> L" for y t
    using node_inv_confirmed [OF inv that] locked by (meson order_trans)
  have le: "multi_current_round m \<le> multi_current_round m'" using acc(1) rounds by simp
  have pr: "mm_proposed m' = Some p" by (simp add: m'_def create_vote_effects)
  show ?thesis
    unfolding node_inv_def L'
  proof (intro conjI)
    show "cast_votes m' \<subseteq> insert (ValidatedBlock ?x, ?r) L" using L' by blast
  next
    show "\<forall>value r. (value, r) \<in> insert (ValidatedBlock ?x, ?r) L \<longrightarrow> r \<le> multi_current_round m'"
      using inv le rounds unfolding node_inv_def by (auto intro: order_trans)
  next
    show "\<forall>x r. (ConfirmedBlock x, r) \<in> insert (ValidatedBlock ?x, ?r) L \<longrightarrow>
        (\<exists>c. mm_locked m' = Some c \<and> r \<le> ct_round c) \<and> certified G (ValidatedBlock x) r"
      using conf by simp
  next
    show "\<forall>x y r t. (ConfirmedBlock x, r) \<in> insert (ValidatedBlock ?x, ?r) L \<longrightarrow>
        (ValidatedBlock y, t) \<in> insert (ValidatedBlock ?x, ?r) L \<longrightarrow> r < t \<longrightarrow>
        (\<exists>z u. certified G (ValidatedBlock z) u \<and> r \<le> u \<and> u < t \<and> eb_block z = eb_block y)"
      using lock node_inv_lock [OF inv] by auto
  next
    show "\<forall>c. mm_locked m' = Some c \<longrightarrow> G c \<and> is_validated (hv_value (ct_value c))"
      using locked' by blast
  next
    show "\<forall>x r. (ValidatedBlock x, r) \<in> insert (ValidatedBlock ?x, ?r) L \<longrightarrow>
        (\<exists>q. mm_proposed m' = Some q \<and> r \<le> bar_round (bp_content q))"
      using pr old by (auto intro: less_imp_le)
  next
    show "\<forall>x y r. (ValidatedBlock x, r) \<in> insert (ValidatedBlock ?x, ?r) L \<longrightarrow>
        (ValidatedBlock y, r) \<in> insert (ValidatedBlock ?x, ?r) L \<longrightarrow> x = y"
      using node_inv_unique [OF inv] fresh by auto
  qed
qed

lemma node_inv_create_final_vote:
  assumes inv: "node_inv G m L"
    and check: "multi_check_validated_block m c = Ok Accept"
    and c: "G c" "is_validated (hv_value (ct_value c))"
    and m'_def: "m' = multi_create_final_vote cr m c (Some kp) now"
  shows "node_inv G m' (L \<union> cast_votes m')"
proof -
  obtain x where x: "hv_value (ct_value c) = ValidatedBlock x"
    using c(2) by (cases "hv_value (ct_value c)") (auto simp: is_validated_def)
  consider "m' = m" | "multi_current_round m \<le> ct_round c" "mm_proposed m' = mm_proposed m"
      "mm_leader_timeout m' = mm_leader_timeout m" "mm_timeout_vote m' = mm_timeout_vote m"
      "mm_locked m' = Some c"
      "map_option vote_content (mm_pending m') = Some (ConfirmedBlock x, ct_round c)"
    using create_final_vote_effects [OF x, of cr m kp now] by (auto simp: m'_def Let_def)
  then show ?thesis
  proof cases
    case 1
    with inv node_inv_cast [OF inv] show ?thesis by (simp add: Un_absorb2)
  next
    case 2
    let ?L' = "insert (ConfirmedBlock x, ct_round c) L"
    have L': "L \<union> cast_votes m' = ?L'"
      using node_inv_cast [OF inv] 2 by (auto simp: cast_votes_Some)
    have rounds: "multi_current_round m \<le> ct_round c \<and> ct_round c \<le> multi_current_round m'"
      using 2(1) round_le_current(1) [OF 2(5)] by simp
    have locked: "ct_round d \<le> ct_round c" if "mm_locked m = Some d" for d
      using check_validated_Accept [OF check that] by simp
    have late: "t \<le> ct_round c" if "(w, t) \<in> L" for w t
      using node_inv_round [OF inv that] 2(1) by simp
    have cert: "certified G (ValidatedBlock x) (ct_round c)"
      using c(1) x by (auto simp: certified_def)
    show ?thesis
      unfolding node_inv_def L'
    proof (intro conjI)
      show "cast_votes m' \<subseteq> ?L'" using L' by blast
      show "\<forall>w r. (w, r) \<in> ?L' \<longrightarrow> r \<le> multi_current_round m'"
        using late rounds by (auto intro: order_trans)
      show "\<forall>d. mm_locked m' = Some d \<longrightarrow> G d \<and> is_validated (hv_value (ct_value d))"
        using c 2(5) by simp
      show "\<forall>x r. (ValidatedBlock x, r) \<in> ?L' \<longrightarrow>
          (\<exists>p. mm_proposed m' = Some p \<and> r \<le> bar_round (bp_content p))"
        using node_inv_proposed [OF inv] 2(2) by simp
      show "\<forall>x y r. (ValidatedBlock x, r) \<in> ?L' \<longrightarrow> (ValidatedBlock y, r) \<in> ?L' \<longrightarrow> x = y"
        using node_inv_unique [OF inv] by simp
      show "\<forall>x r. (ConfirmedBlock x, r) \<in> ?L' \<longrightarrow>
          (\<exists>c. mm_locked m' = Some c \<and> r \<le> ct_round c) \<and> certified G (ValidatedBlock x) r"
        using cert late 2(5) node_inv_confirmed [OF inv] by auto
      show "\<forall>x y r t. (ConfirmedBlock x, r) \<in> ?L' \<longrightarrow> (ValidatedBlock y, t) \<in> ?L' \<longrightarrow> r < t \<longrightarrow>
          (\<exists>z u. certified G (ValidatedBlock z) u \<and> r \<le> u \<and> u < t \<and> eb_block z = eb_block y)"
        using late node_inv_lock [OF inv] by (auto simp: not_less [symmetric])
    qed
  qed
qed

text \<open>Steps that only move the round or add a timeout vote.\<close>

lemma node_inv_timeout:
  assumes inv: "node_inv G m L"
    and same: "mm_proposed m' = mm_proposed m" "mm_locked m' = mm_locked m"
    and mono: "multi_current_round m \<le> multi_current_round m'"
    and votes: "\<And>w r. (w, r) \<in> cast_votes m' - L \<Longrightarrow> is_timeout w \<and> r \<le> multi_current_round m'"
  shows "node_inv G m' (L \<union> cast_votes m')"
proof -
  have *: "(ValidatedBlock x, r) \<in> L \<union> cast_votes m' \<longleftrightarrow> (ValidatedBlock x, r) \<in> L"
    "(ConfirmedBlock x, r) \<in> L \<union> cast_votes m' \<longleftrightarrow> (ConfirmedBlock x, r) \<in> L" for x r
    using votes [of "ValidatedBlock x" r] votes [of "ConfirmedBlock x" r]
    by (auto simp: is_timeout_def)
  have "\<forall>w r. (w, r) \<in> L \<union> cast_votes m' \<longrightarrow> r \<le> multi_current_round m'"
    using votes node_inv_round [OF inv] mono by (meson DiffI UnE order_trans)
  then show ?thesis
    unfolding node_inv_def * same
    using inv unfolding node_inv_def by blast
qed

lemma node_inv_timeout_certificate:
  assumes inv: "node_inv G m L" and m': "m' = multi_handle_timeout_certificate m c now"
  shows "node_inv G m' (L \<union> cast_votes m')"
proof (rule node_inv_timeout [OF inv])
  show "mm_proposed m' = mm_proposed m" "mm_locked m' = mm_locked m"
    by (simp_all add: m' timeout_certificate_effects)
  have "cast_votes m' = cast_votes m"
    by (simp add: m' cast_votes_def timeout_certificate_effects)
  then show "\<And>w r. (w, r) \<in> cast_votes m' - L \<Longrightarrow> is_timeout w \<and> r \<le> multi_current_round m'"
    using node_inv_cast [OF inv] by blast
  have "next_round_or_max (ct_round k) \<le> multi_current_round m'" if "mm_leader_timeout m = Some k" for k
    using timeout_certificate_effects(5) [of m c now] that current_round_le_iff [of m' "multi_current_round m'"]
    by (auto simp: m' intro: order_trans [OF next_round_or_max_mono] less_imp_le)
  then show "multi_current_round m \<le> multi_current_round m'"
    using current_round_le_iff [of m' "multi_current_round m'"]
    by (simp add: current_round_le_iff [of m] m' timeout_certificate_effects)
qed

lemma cast_vote_leader_timeout:
  "cast_votes (fst (multi_vote_leader_timeout cr m ch h e (Some kp) now)) \<subseteq>
     insert (LeaderTimeout ch h e, multi_current_round m) (cast_votes m)"
  using vote_leader_timeout_effects(5) [of cr m ch h e kp now]
  by (elim disjE) (auto simp: cast_votes_Some vote_leader_timeout_effects(3))

lemma cast_create_final_vote:
  assumes "hv_value (ct_value c) = ValidatedBlock x"
  shows "multi_create_final_vote cr m c (Some kp) now = m \<or> multi_current_round m \<le> ct_round c \<and>
    cast_votes (multi_create_final_vote cr m c (Some kp) now) \<subseteq>
      insert (ConfirmedBlock x, ct_round c) (cast_votes m)"
  using create_final_vote_effects [OF assms, of cr m kp now]
  by (elim disjE conjE) (auto simp: cast_votes_Some Let_def)

lemma node_inv_vote_leader_timeout:
  assumes inv: "node_inv G m L"
    and m': "m' = fst (multi_vote_leader_timeout cr m ch h e (Some kp) now)"
  shows "node_inv G m' (L \<union> cast_votes m')"
proof (rule node_inv_timeout [OF inv])
  show "mm_proposed m' = mm_proposed m" "mm_locked m' = mm_locked m"
    by (simp_all add: m' vote_leader_timeout_effects)
  have same: "multi_current_round m' = multi_current_round m"
    by (simp add: m' multi_current_round_def vote_leader_timeout_effects)
  then show "multi_current_round m \<le> multi_current_round m'" by simp
  have "cast_votes m' \<subseteq> insert (LeaderTimeout ch h e, multi_current_round m) (cast_votes m)"
    unfolding m' by (rule cast_vote_leader_timeout)
  with node_inv_cast [OF inv] have "cast_votes m' - L \<subseteq> {(LeaderTimeout ch h e, multi_current_round m)}"
    by blast
  then show "\<And>w r. (w, r) \<in> cast_votes m' - L \<Longrightarrow> is_timeout w \<and> r \<le> multi_current_round m'"
    unfolding same by (auto simp: is_timeout_def)
qed

lemma node_inv_step:
  assumes "node_step cr G m m'" and "node_inv G m L"
  shows "node_inv G m' (L \<union> cast_votes m')"
  using assms(1)
proof (cases rule: node_step.cases)
  case (handle_block_proposal proposal outcome key_pair now)
  then have "multi_check_proposed_block m proposal = Ok Accept"
    by (simp add: manager_check_proposed_block_def)
  then show ?thesis
    by (rule node_inv_create_vote [OF assms(2)]) (fact handle_block_proposal)+
next
  case (process_validated_block certificate key_pair now)
  then show ?thesis
    by (intro node_inv_create_final_vote [OF assms(2), of certificate])
next
  case (process_leader_timeout certificate now)
  then show ?thesis
    by (intro node_inv_timeout_certificate [OF assms(2)])
next
  case (request_leader_timeout chain_id height epoch key_pair now)
  then show ?thesis
    by (intro node_inv_vote_leader_timeout [OF assms(2)])
qed

lemma node_inv_new:
  "multi_new smp keys rounds seed now = Ok m \<Longrightarrow> node_inv G m {}"
  by (auto simp: multi_new_def Let_def node_inv_def cast_votes_def)

section \<open>The network invariant\<close>

definition net_inv :: "Network \<Rightarrow> NetState \<Rightarrow> bool" where
  "net_inv N \<sigma> \<longleftrightarrow>
     (\<forall>v. v \<notin> net_faulty N \<longrightarrow>
        node_inv (genuine N (nd_votes \<circ> \<sigma>)) (nd_manager (\<sigma> v)) (nd_votes (\<sigma> v)) \<and>
        nd_votes (\<sigma> v) \<subseteq> net_values N \<times> UNIV)"

lemma genuine_mono: "(\<And>v. V v \<subseteq> V' v) \<Longrightarrow> genuine N V c \<Longrightarrow> genuine N V' c"
  unfolding genuine_def by blast

lemma node_update_votes: "nd_votes (\<sigma> w) \<subseteq> nd_votes (node_update \<sigma> v m w)"
  by (simp add: node_update_def)

lemma net_inv_step:
  assumes "net_step N \<sigma> \<sigma>'" and "net_inv N \<sigma>"
  shows "net_inv N \<sigma>'"
  using assms(1)
proof (cases rule: net_step.cases)
  case (honest_step v m')
  have G: "genuine N (nd_votes \<circ> \<sigma>) c \<Longrightarrow> genuine N (nd_votes \<circ> \<sigma>') c" for c
    unfolding honest_step by (erule genuine_mono [rotated]) (simp add: node_update_votes)
  have "node_inv (genuine N (nd_votes \<circ> \<sigma>)) m' (nd_votes (\<sigma> v) \<union> cast_votes m')"
    using assms(2) honest_step by (intro node_inv_step) (auto simp: net_inv_def)
  then have "node_inv (genuine N (nd_votes \<circ> \<sigma>')) m' (nd_votes (\<sigma> v) \<union> cast_votes m')"
    by (rule node_inv_mono [rotated]) (rule G)
  moreover have "node_inv (genuine N (nd_votes \<circ> \<sigma>')) (nd_manager (\<sigma> w)) (nd_votes (\<sigma> w))"
    if "w \<notin> net_faulty N" for w
    by (rule node_inv_mono [OF G]) (use assms(2) that in \<open>auto simp: net_inv_def\<close>)
  ultimately show ?thesis
    using assms(2) honest_step by (auto simp: net_inv_def node_update_def)
qed

lemma net_inv_reachable: "net_reachable N \<sigma> \<Longrightarrow> net_inv N \<sigma>"
proof (induction rule: net_reachable.induct)
  case (initial \<sigma>)
  then show ?case
    unfolding net_inv_def net_initial_def using node_inv_new by fastforce
qed (rule net_inv_step)

text \<open>An honest signer of a genuine certificate has voted for exactly its value.\<close>

definition votes_wf :: "Network \<Rightarrow> (ValidatorName \<Rightarrow> votes) \<Rightarrow> bool" where
  "votes_wf N V \<longleftrightarrow> (\<forall>v. v \<notin> net_faulty N \<longrightarrow> V v \<subseteq> net_values N \<times> UNIV)"

lemma genuine_voted:
  assumes "network_wf N" and "votes_wf N V" and "genuine N V c"
    and "v \<in> fst ` set (ct_signatures c)" and "v \<notin> net_faulty N"
  shows "(hv_value (ct_value c), ct_round c) \<in> V v"
proof -
  obtain w where w: "(w, ct_round c) \<in> V v"
    "cr_hash_value (net_crypto N) w = cr_hash_value (net_crypto N) (hv_value (ct_value c))"
    using assms(3-5) unfolding genuine_def by force
  have "w \<in> net_values N" using assms(2,5) w(1) by (auto simp: votes_wf_def)
  moreover have "hv_value (ct_value c) \<in> net_values N" using assms(3) by (simp add: genuine_def)
  ultimately have "w = hv_value (ct_value c)"
    using w(2) assms(1) by (auto simp: network_wf_def dest: inj_onD)
  with w(1) show ?thesis by simp
qed

lemma genuine_quorum:
  assumes "network_wf N" and "genuine N V c"
  shows "quorums.is_quorum (net_committee N) (fst ` set (ct_signatures c))"
  using assms check_signatures_Ok_iff
  by (auto simp: genuine_def network_wf_def certificate_check_Ok_iff)

lemma genuine_backed:
  assumes "network_wf N" and "votes_wf N V" and "genuine N V c"
  shows "\<exists>Q. quorums.is_quorum (net_committee N) Q \<and>
     (\<forall>v\<in>Q. v \<notin> net_faulty N \<longrightarrow> (hv_value (ct_value c), ct_round c) \<in> V v)"
  using genuine_quorum [OF assms(1,3)] genuine_voted [OF assms] by blast

lemma net_inv_votes: "net_inv N \<sigma> \<Longrightarrow> votes_wf N (nd_votes \<circ> \<sigma>)"
  by (simp add: net_inv_def votes_wf_def)

section \<open>The network follows the voting rules\<close>

interpretation net: locked_voting
  "\<lambda>(N, \<sigma>). network_wf N \<and> net_inv N \<sigma>"
  "\<lambda>(N, \<sigma>). quorums.is_quorum (net_committee N)"
  "\<lambda>(N, \<sigma>) v. v \<notin> net_faulty N"
  "\<lambda>(N, \<sigma>) v x r. (ValidatedBlock x, r) \<in> nd_votes (\<sigma> v)"
  "\<lambda>(N, \<sigma>) v x r. (ConfirmedBlock x, r) \<in> nd_votes (\<sigma> v)"
  "\<lambda>(N, \<sigma>) x. certified (genuine N (nd_votes \<circ> \<sigma>)) (ValidatedBlock x)"
  eb_block
proof (unfold_locales, goal_cases)
  case (1 s A B)
  then show ?case
    by (cases s) (auto simp: network_wf_def elim: quorums.honest_in_common)
next
  case (2 s x r)
  then show ?case
    using genuine_backed [OF _ net_inv_votes] by (cases s) (fastforce simp: certified_def)
next
  case (3 s v x r y)
  then show ?case by (cases s) (auto simp: net_inv_def dest: node_inv_unique)
next
  case (4 s v x r)
  then show ?case by (cases s) (auto simp: net_inv_def dest: node_inv_confirmed)
next
  case (5 s v x r y t)
  obtain N \<sigma> where "s = (N, \<sigma>)" by (cases s)
  with 5 have "node_inv (genuine N (nd_votes \<circ> \<sigma>)) (nd_manager (\<sigma> v)) (nd_votes (\<sigma> v))"
    by (simp add: net_inv_def)
  from node_inv_lock [OF this, of x r y t] 5 \<open>s = (N, \<sigma>)\<close> show ?case by simp
qed

lemma net_confirmed:
  assumes "network_wf N" and "net_inv N \<sigma>" and "genuine N (nd_votes \<circ> \<sigma>) c"
    and "hv_value (ct_value c) = ConfirmedBlock x"
  shows "net.confirmed (N, \<sigma>) x (ct_round c)"
  using genuine_backed [OF assms(1) net_inv_votes [OF assms(2)] assms(3)] assms(4)
  by (simp add: net.confirmed_def)

section \<open>New votes\<close>

lemma create_final_vote_new:
  assumes inv: "node_inv G m L" and c: "is_validated (hv_value (ct_value c))"
    and "(w, r) \<in> cast_votes (multi_create_final_vote cr m c (Some kp) now) - L"
  shows "multi_current_round m \<le> r \<and> is_confirmed w"
proof -
  obtain x where "hv_value (ct_value c) = ValidatedBlock x"
    using c by (cases "hv_value (ct_value c)") (auto simp: is_validated_def)
  from cast_create_final_vote [OF this, of cr m kp now]
  have "multi_current_round m \<le> ct_round c \<and> (w, r) = (ConfirmedBlock x, ct_round c)"
    using assms(3) node_inv_cast [OF inv] by auto
  then show ?thesis by (simp add: is_confirmed_def)
qed

lemma vote_leader_timeout_new:
  assumes inv: "node_inv G m L"
    and "(w, r) \<in> cast_votes (fst (multi_vote_leader_timeout cr m ch h e (Some kp) now)) - L"
  shows "multi_current_round m \<le> r \<and> is_timeout w"
proof -
  have "(w, r) = (LeaderTimeout ch h e, multi_current_round m)"
    using cast_vote_leader_timeout [of cr m ch h e kp now] assms(2) node_inv_cast [OF inv] by blast
  then show ?thesis by (simp add: is_timeout_def)
qed

text \<open>A step that exposes a new vote does so in the current round or later; only an accepted
  proposal leads to a vote to validate.\<close>

lemma node_step_new_vote:
  assumes "node_step cr G m m'" and inv: "node_inv G m L" and new: "(w, r) \<in> cast_votes m' - L"
  shows "multi_current_round m \<le> r \<and>
    (is_validated w \<longrightarrow> (\<exists>p. multi_check_proposed_block m p = Ok Accept \<and> r = bar_round (bp_content p)))"
  using assms(1)
proof (cases rule: node_step.cases)
  case (handle_block_proposal p outcome key_pair now)
  then have p: "multi_check_proposed_block m p = Ok Accept"
    by (simp add: manager_check_proposed_block_def)
  have "r = bar_round (bp_content p)"
    using new node_inv_cast [OF inv]
    by (auto simp: handle_block_proposal(1) cast_votes_Some create_vote_effects)
  with p check_proposed_Accept(1) [OF p] show ?thesis by auto
next
  case (process_validated_block c key_pair now)
  then show ?thesis
    using create_final_vote_new [OF inv, of c w r cr key_pair now] new
    by (auto simp: is_confirmed_def is_validated_def split: CertificateValue.splits)
next
  case (process_leader_timeout c now)
  then have "cast_votes m' = cast_votes m"
    by (simp add: cast_votes_def timeout_certificate_effects)
  with new node_inv_cast [OF inv] show ?thesis by blast
next
  case (request_leader_timeout ch h e key_pair now)
  then show ?thesis
    using vote_leader_timeout_new [OF inv, of w r cr ch h e key_pair now] new
    by (auto simp: is_timeout_def is_validated_def split: CertificateValue.splits)
qed

lemma net_step_new_vote:
  assumes "net_inv N \<sigma>" and "net_step N \<sigma> \<sigma>'" and "v \<notin> net_faulty N"
    and "(w, r) \<in> nd_votes (\<sigma>' v) - nd_votes (\<sigma> v)"
  obtains "multi_current_round (nd_manager (\<sigma> v)) \<le> r"
    and "is_validated w \<Longrightarrow> \<exists>p. multi_check_proposed_block (nd_manager (\<sigma> v)) p = Ok Accept \<and>
      r = bar_round (bp_content p)"
  using assms(2)
proof (cases rule: net_step.cases)
  case (honest_step u m')
  then have "u = v" using assms(4) by (auto simp: node_update_def split: if_splits)
  moreover have "node_inv (genuine N (nd_votes \<circ> \<sigma>)) (nd_manager (\<sigma> v)) (nd_votes (\<sigma> v))"
    using assms(1,3) by (simp add: net_inv_def)
  moreover have "(w, r) \<in> cast_votes m' - nd_votes (\<sigma> v)"
    using assms(4) honest_step(1) \<open>u = v\<close> by (auto simp: node_update_def)
  ultimately show ?thesis
    using node_step_new_vote honest_step(3) that by blast
qed

section \<open>Properties\<close>

text \<open>
  C1. Safety of multi-owner chains. If the committee's thresholds are computed without
  overflow, the faulty validators hold less than a third of the votes and hashing is
  collision-free on the values of the run, then in every reachable state of the network
  any two genuine \<open>ConfirmedBlock\<close> certificates contain the same block, whatever their
  rounds and whatever the order of proposals, certificates and timeouts.
\<close>

theorem at_most_one_confirmed_block:
  assumes "network_wf N" and "net_reachable N \<sigma>"
    and "genuine N (nd_votes \<circ> \<sigma>) c" and "hv_value (ct_value c) = ConfirmedBlock x"
    and "genuine N (nd_votes \<circ> \<sigma>) c'" and "hv_value (ct_value c') = ConfirmedBlock x'"
  shows "eb_block x = eb_block x'"
proof -
  have inv: "net_inv N \<sigma>" using assms(2) by (rule net_inv_reachable)
  show ?thesis
    using net.agreement [OF _ net_confirmed [OF assms(1) inv assms(3,4)]
        net_confirmed [OF assms(1) inv assms(5,6)]] assms(1) inv by simp
qed

text \<open>
  C2. First rule of the header: an honest validator never casts a vote (to validate, to
  confirm or to time out) in a round below that of a vote it has already cast.
\<close>

theorem votes_never_go_back:
  assumes "net_reachable N \<sigma>" and "net_step N \<sigma> \<sigma>'" and "v \<notin> net_faulty N"
    and "(w, r) \<in> nd_votes (\<sigma>' v) - nd_votes (\<sigma> v)" and "(w', r') \<in> nd_votes (\<sigma> v)"
  shows "r' \<le> r"
proof -
  have inv: "net_inv N \<sigma>" using assms(1) by (rule net_inv_reachable)
  then have "r' \<le> multi_current_round (nd_manager (\<sigma> v))"
    using assms(3,5) by (auto simp: net_inv_def intro: node_inv_round)
  also have "\<dots> \<le> r" by (rule net_step_new_vote [OF inv assms(2-4)])
  finally show ?thesis .
qed

text \<open>
  C3. Second rule of the header: an honest validator that has voted to confirm a block in
  round \<open>s\<close> votes to validate a block afterwards only in a later round \<open>r\<close>, and only if there
  is a genuine \<open>ValidatedBlock\<close> certificate for the proposed block in a round between \<open>s\<close>
  and \<open>r\<close>.
\<close>

theorem validation_respects_lock:
  assumes "net_reachable N \<sigma>" and "net_step N \<sigma> \<sigma>'" and "v \<notin> net_faulty N"
    and "(ConfirmedBlock x, s) \<in> nd_votes (\<sigma> v)"
    and "(ValidatedBlock y, r) \<in> nd_votes (\<sigma>' v) - nd_votes (\<sigma> v)"
  shows "\<exists>c z. genuine N (nd_votes \<circ> \<sigma>') c \<and> hv_value (ct_value c) = ValidatedBlock z \<and>
    eb_block z = eb_block y \<and> s \<le> ct_round c \<and> ct_round c < r"
proof -
  have inv: "net_inv N \<sigma>" using assms(1) by (rule net_inv_reachable)
  obtain p where p: "multi_check_proposed_block (nd_manager (\<sigma> v)) p = Ok Accept"
    "r = bar_round (bp_content p)"
    by (rule net_step_new_vote [OF inv assms(2,3,5)]) (auto simp: is_validated_def)
  obtain c where c: "mm_locked (nd_manager (\<sigma> v)) = Some c" "s \<le> ct_round c"
    using inv assms(3,4) node_inv_confirmed unfolding net_inv_def by blast
  have "s < r"
    using check_lock_Accept [OF check_proposed_Accept(5) [OF p(1)] c(1)] c(2) p(2) by auto
  moreover have "node_inv (genuine N (nd_votes \<circ> \<sigma>')) (nd_manager (\<sigma>' v)) (nd_votes (\<sigma>' v))"
    using net_inv_step [OF assms(2) inv] assms(3) by (simp add: net_inv_def)
  moreover have "(ConfirmedBlock x, s) \<in> nd_votes (\<sigma>' v)" "(ValidatedBlock y, r) \<in> nd_votes (\<sigma>' v)"
    using assms(2,4,5) by (auto elim!: net_stepE simp: node_update_def)
  ultimately show ?thesis
    using node_inv_lock [of "genuine N (nd_votes \<circ> \<sigma>')"] unfolding certified_def by blast
qed

text \<open>
  C4. Third rule of the header: an honest validator votes to confirm a block in a round only
  if there is a genuine \<open>ValidatedBlock\<close> certificate for the same executed block in the same
  round.
\<close>

theorem confirmation_needs_validation:
  assumes "net_reachable N \<sigma>" and "v \<notin> net_faulty N" and "(ConfirmedBlock x, r) \<in> nd_votes (\<sigma> v)"
  shows "\<exists>c. genuine N (nd_votes \<circ> \<sigma>) c \<and> hv_value (ct_value c) = ValidatedBlock x \<and> ct_round c = r"
  using net_inv_reachable [OF assms(1)] assms(2,3) node_inv_confirmed
  unfolding net_inv_def certified_def by blast

text \<open>
  C5. The liveness part of the header: a proposal that carries the highest \<open>ValidatedBlock\<close>
  certificate known to a validator and proposes that block is accepted by it, if the round
  is above the certificate's and every earlier proposal's, not below the validator's current
  round, and, in leader rotation mode, exactly the next round. This holds even if the
  validator is locked on a block.
\<close>

theorem highest_lock_proposal_accepted:
  assumes "network_wf N" and "net_reachable N \<sigma>" and "v \<notin> net_faulty N"
    and m: "m = nd_manager (\<sigma> v)" and r: "r = bar_round (bp_content p)"
    and c: "genuine N (nd_votes \<circ> \<sigma>) c" "hv_value (ct_value c) = ValidatedBlock x"
      "bp_validated p = Some c" "bar_block (bp_content p) = eb_block x"
    and "ct_round c < r" and "multi_current_round m \<le> r"
    and "r \<le> mm_multi_leader_rounds m \<or> r = ct_round c + 1 \<or> r = multi_current_round m"
    and "\<And>q. mm_proposed m = Some q \<Longrightarrow> bar_round (bp_content q) < r"
    and "\<And>d. mm_locked m = Some d \<Longrightarrow> ct_round d \<le> ct_round c"
    and "blk_height (eb_block x) < max_value"
  shows "manager_check_proposed_block (Manager_Multi m) p = Ok Accept"
proof -
  have inv: "net_inv N \<sigma>" using assms(2) by (rule net_inv_reachable)
  have nx: "unat (ct_round c + 1) = unat (ct_round c) + 1"
    using \<open>ct_round c < r\<close> unat_lt_pow [of r] unat_plus_exact [of "ct_round c" 1]
    by (simp add: word_less_nat_alt)
  then have ta: "try_add_one (ct_round c) = Ok (ct_round c + 1)" by simp
  have le: "ct_round c + 1 \<le> r"
    using \<open>ct_round c < r\<close> nx by (simp add: word_less_nat_alt word_le_nat_alt)
  have exact: "r \<le> mm_multi_leader_rounds m \<or> max (ct_round c + 1) (multi_current_round m) = r"
    using assms(12) le \<open>multi_current_round m \<le> r\<close> by (auto simp: max_def)
  have lock: "multi_check_lock m p = Ok Accept"
  proof (cases "mm_locked m")
    case None
    then show ?thesis
      using c \<open>ct_round c < r\<close> r by (simp add: multi_check_lock_def value_block_def value_executed_block_def)
  next
    case (Some d)
    have "genuine N (nd_votes \<circ> \<sigma>) d \<and> is_validated (hv_value (ct_value d))"
      using inv Some assms(3) m node_inv_locked unfolding net_inv_def by blast
    then obtain y where y: "hv_value (ct_value d) = ValidatedBlock y"
      "certified (genuine N (nd_votes \<circ> \<sigma>)) (ValidatedBlock y) (ct_round d)"
      by (cases "hv_value (ct_value d)") (auto simp: is_validated_def certified_def)
    have "ct_round d = ct_round c \<Longrightarrow> y = x"
      using net.validated_unique [of "(N, \<sigma>)" x "ct_round c" y] y(2) c(1,2) assms(1) inv
      by (auto simp: certified_def)
    then show ?thesis
      using c \<open>ct_round c < r\<close> r y(1) Some assms(14) [OF Some]
      by (auto simp: multi_check_lock_def value_block_def value_executed_block_def)
  qed
  have fresh: "\<not> r \<le> bar_round (bp_content q) \<and> bp_content q \<noteq> bp_content p" if "mm_proposed m = Some q" for q
    using assms(13) [OF that] r by auto
  show ?thesis
    unfolding manager_check_proposed_block_def multi_check_proposed_block_def
    using c assms(15) exact le \<open>multi_current_round m \<le> r\<close> lock fresh
    by (cases "mm_proposed m") (auto simp: Let_def ta r [symmetric] is_validated_def max_def
        split: if_splits)
qed

end
