(* ===== verification/Consensus_Run.thy ===== *)
theory Consensus_Run
  imports Consensus
begin

text \<open>
  A concrete run of a network with one validator of weight 1, on which the properties of
  the theory \<open>Consensus\<close> are instantiated: a proposal in round 1 is validated and
  confirmed, then proposed again in round 2 with its certificate. The hash function of the
  run tells the kinds of values apart, and signatures always verify.
\<close>

section \<open>A run of a one-validator network\<close>

text \<open>The concrete run on which the properties are instantiated.\<close>

definition ex_block :: Block where
  "ex_block = \<lparr>blk_chain_id = 0, blk_epoch = 0, blk_incoming_messages = [], blk_operations = [],
     blk_height = 5, blk_timestamp = 0, blk_authenticated_signer = None,
     blk_previous_block_hash = None\<rparr>"

definition ex_outcome :: BlockExecutionOutcome where
  "ex_outcome = \<lparr>beo_messages = [], beo_message_counts = [], beo_state_hash = 9\<rparr>"

definition ex_executed :: ExecutedBlock where
  "ex_executed = outcome_with ex_outcome ex_block"

definition ex_crypto :: Crypto where
  "ex_crypto = \<lparr>cr_hash_key = id, cr_hash_description = (\<lambda>_. 0),
     cr_hash_value = (\<lambda>v. case v of ValidatedBlock _ \<Rightarrow> 1 | ConfirmedBlock _ \<Rightarrow> 2 | LeaderTimeout _ _ _ \<Rightarrow> 3),
     cr_sign_vote = (\<lambda>_ _. 0), cr_check_vote = (\<lambda>_ _ _. Ok ()), cr_verify_batch = (\<lambda>_ _. Ok ()),
     cr_sign_block = (\<lambda>_ _. 0), cr_check_block = (\<lambda>_ _ _. Ok ())\<rparr>"

definition ex_committee :: Committee where
  "ex_committee = committee_new [(7, \<lparr>vs_network_address = ''a'', vs_votes = 1\<rparr>)] policy_default"

definition ex_network :: Network where
  "ex_network = \<lparr>net_crypto = ex_crypto, net_committee = ex_committee, net_faulty = {},
     net_values = {ValidatedBlock ex_executed, ConfirmedBlock ex_executed}\<rparr>"

definition ex_key_pair :: KeyPair where
  "ex_key_pair = \<lparr>kp_public = 7, kp_secret = 0\<rparr>"

definition ex_sampler :: Sampler where
  "ex_sampler = \<lparr>smp_check_weights = (\<lambda>_. Ok ()), smp_sample = (\<lambda>_ _. 0)\<rparr>"

definition ex_manager0 :: MultiOwnerManager where
  "ex_manager0 = \<lparr>mm_public_keys = [(3, (3, 1))], mm_multi_leader_rounds = 2, mm_seed = 5,
     mm_distribution = [1], mm_proposed = None, mm_locked = None, mm_leader_timeout = None,
     mm_pending = None, mm_timeout_vote = None,
     mm_round_timeout = timestamp_saturating_add 0 TIMEOUT\<rparr>"

definition ex_proposal :: BlockProposal where
  "ex_proposal = \<lparr>bp_content = \<lparr>bar_block = ex_block, bar_round = 1\<rparr>, bp_owner = 3,
     bp_signature = 0, bp_blobs = [], bp_validated = None\<rparr>"

definition ex_manager1 :: MultiOwnerManager where
  "ex_manager1 = multi_create_vote ex_crypto ex_manager0 ex_proposal ex_outcome (Some ex_key_pair) 0"

definition ex_validated :: Certificate where
  "ex_validated = \<lparr>ct_value = new_validated ex_crypto ex_executed, ct_round = 1, ct_signatures = [(7, 0)]\<rparr>"

definition ex_manager2 :: MultiOwnerManager where
  "ex_manager2 = multi_create_final_vote ex_crypto ex_manager1 ex_validated (Some ex_key_pair) 0"

definition ex_confirmed :: "Signature \<Rightarrow> Certificate" where
  "ex_confirmed s = \<lparr>ct_value = new_confirmed ex_crypto ex_executed, ct_round = 1, ct_signatures = [(7, s)]\<rparr>"

definition ex_state0 :: NetState where
  "ex_state0 = (\<lambda>_. \<lparr>nd_manager = ex_manager0, nd_votes = {}\<rparr>)"

definition ex_state1 :: NetState where
  "ex_state1 = node_update ex_state0 7 ex_manager1"

definition ex_state2 :: NetState where
  "ex_state2 = node_update ex_state1 7 ex_manager2"

lemmas ex_certificate_defs =
  ex_validated_def ex_confirmed_def new_validated_def new_confirmed_def hashed_from_def
  certificate_check_def certificate_lite_value_def ex_crypto_def ex_network_def

lemma ex_committee_wf: "committee_wf ex_committee"
  by (simp add: committee_wf_def ex_committee_def committee_new_def Let_def votes_sum_def btree_wf_def)

lemma ex_network_wf: "network_wf ex_network"
  using ex_committee_wf
  by (simp add: network_wf_def ex_network_def quorums.tolerated_def committee_total inj_on_def
      ex_crypto_def) (simp add: ex_committee_def committee_new_def Let_def)

lemma ex_check_signatures:
  "check_signatures ex_crypto lv 1 [(7, s)] ex_committee = Ok ()"
  by (simp add: check_signatures_def ex_committee_def committee_new_def Let_def weight_def ex_crypto_def)

lemma ex_votes1: "cast_votes ex_manager1 = {(ValidatedBlock ex_executed, 1)}"
  by (simp add: cast_votes_Some ex_manager1_def create_vote_effects ex_proposal_def ex_executed_def)
    (simp add: ex_manager0_def)

lemma ex_manager1_locked: "mm_locked ex_manager1 = None" "multi_current_round ex_manager1 = 1"
  by (simp_all add: ex_manager1_def create_vote_effects multi_current_round_def)
    (simp_all add: ex_manager0_def ex_proposal_def)

lemma ex_votes2: "cast_votes ex_manager2 = {(ConfirmedBlock ex_executed, 1)}"
proof -
  have v: "hv_value (ct_value ex_validated) = ValidatedBlock ex_executed" "ct_round ex_validated = 1"
    by (simp_all add: ex_certificate_defs)
  moreover have "mm_timeout_vote ex_manager1 = None"
    unfolding ex_manager1_def create_vote_effects by (simp add: ex_manager0_def)
  ultimately show ?thesis
    using create_final_vote_effects [OF v(1), of ex_crypto ex_manager1 ex_key_pair 0]
      ex_manager1_locked(2) by (auto simp: cast_votes_Some ex_manager2_def Let_def)
qed

lemma ex_genuine_validated: "genuine ex_network (nd_votes \<circ> ex_state1) ex_validated"
  by (simp add: genuine_def ex_state1_def node_update_def ex_votes1)
    (auto simp: ex_certificate_defs ex_check_signatures [unfolded ex_crypto_def]
      intro!: exI [of _ "ValidatedBlock ex_executed"])

lemma ex_genuine_confirmed: "genuine ex_network (nd_votes \<circ> ex_state2) (ex_confirmed s)"
  by (simp add: genuine_def ex_state2_def node_update_def ex_votes2)
    (auto simp: ex_certificate_defs ex_check_signatures [unfolded ex_crypto_def]
      intro!: exI [of _ "ConfirmedBlock ex_executed"])

lemma ex_initial: "net_reachable ex_network ex_state0"
proof -
  have "multi_new ex_sampler [(3, (3, 1))] 2 5 0 = Ok ex_manager0"
    by (simp add: multi_new_def Let_def ex_sampler_def ex_manager0_def btree_from_list_def)
  then show ?thesis
    unfolding ex_state0_def by (intro net_reachable.initial) (simp add: net_initial_def, blast)
qed

lemma ex_step1: "net_step ex_network ex_state0 ex_state1"
proof -
  have "node_step ex_crypto (genuine ex_network (nd_votes \<circ> ex_state0)) ex_manager0 ex_manager1"
    unfolding ex_manager1_def
    by (rule node_step.handle_block_proposal)
      (simp_all add: ex_proposal_def ex_manager0_def manager_check_proposed_block_def ex_block_def
        multi_check_proposed_block_def multi_check_lock_def multi_current_round_def Let_def)
  then show ?thesis
    unfolding ex_state1_def
    by (intro net_step.honest_step)
      (simp_all add: ex_votes1, simp_all add: ex_network_def ex_state0_def)
qed

lemma ex_step2: "net_step ex_network ex_state1 ex_state2"
proof -
  have "multi_check_validated_block ex_manager1 ex_validated = Ok Accept"
    by (simp add: multi_check_validated_block_def ex_manager1_locked Let_def)
      (simp add: ex_manager1_def multi_create_vote_def ex_proposal_def ex_manager0_def Let_def
        ex_validated_def vote_new_def new_validated_def hashed_from_def)
  moreover have "is_validated (hv_value (ct_value ex_validated))"
    by (simp add: ex_certificate_defs is_validated_def)
  ultimately have
    "node_step ex_crypto (genuine ex_network (nd_votes \<circ> ex_state1)) ex_manager1 ex_manager2"
    unfolding ex_manager2_def using ex_genuine_validated
    by (intro node_step.process_validated_block)
  then show ?thesis
    unfolding ex_state2_def
    by (intro net_step.honest_step)
      (simp_all add: ex_votes2, simp_all add: ex_network_def ex_state1_def node_update_def)
qed

lemmas ex_reachable1 = net_reachable.step [OF ex_initial ex_step1]
lemmas ex_reachable2 = net_reachable.step [OF ex_reachable1 ex_step2]

lemma ex_confirmed_value: "hv_value (ct_value (ex_confirmed s)) = ConfirmedBlock ex_executed"
  by (simp add: ex_certificate_defs)

theorem at_most_one_confirmed_block_witness:
  "network_wf ex_network \<and> net_reachable ex_network ex_state2 \<and>
   genuine ex_network (nd_votes \<circ> ex_state2) (ex_confirmed 0) \<and> genuine ex_network (nd_votes \<circ> ex_state2) (ex_confirmed 1) \<and>
   hv_value (ct_value (ex_confirmed 0)) = ConfirmedBlock ex_executed \<and>
   hv_value (ct_value (ex_confirmed 1)) = ConfirmedBlock ex_executed \<and>
   eb_block ex_executed = eb_block ex_executed"
  using at_most_one_confirmed_block [OF ex_network_wf ex_reachable2 ex_genuine_confirmed
      ex_confirmed_value ex_genuine_confirmed ex_confirmed_value]
    ex_network_wf ex_reachable2 ex_genuine_confirmed ex_confirmed_value by blast

section \<open>The second proposal\<close>

definition ex_proposal2 :: BlockProposal where
  "ex_proposal2 = \<lparr>bp_content = \<lparr>bar_block = ex_block, bar_round = 2\<rparr>, bp_owner = 3,
     bp_signature = 0, bp_blobs = [], bp_validated = Some ex_validated\<rparr>"

definition ex_manager3 :: MultiOwnerManager where
  "ex_manager3 = multi_create_vote ex_crypto ex_manager2 ex_proposal2 ex_outcome (Some ex_key_pair) 0"

definition ex_state3 :: NetState where
  "ex_state3 = node_update ex_state2 7 ex_manager3"

lemma ex_validated_value:
  "hv_value (ct_value ex_validated) = ValidatedBlock ex_executed" "ct_round ex_validated = 1"
  by (simp_all add: ex_certificate_defs)

lemma ex_manager1_fields:
  "mm_proposed ex_manager1 = Some ex_proposal" "mm_leader_timeout ex_manager1 = None"
  "mm_timeout_vote ex_manager1 = None" "mm_multi_leader_rounds ex_manager1 = 2"
  unfolding ex_manager1_def create_vote_effects
  by (simp_all add: ex_manager0_def) (simp add: multi_create_vote_def Let_def ex_proposal_def
      ex_key_pair_def multi_update_timeout_def split: result.split)

lemma ex_manager2_fields:
  "mm_proposed ex_manager2 = Some ex_proposal" "mm_leader_timeout ex_manager2 = None"
  "mm_timeout_vote ex_manager2 = None" "mm_locked ex_manager2 = Some ex_validated"
  "mm_multi_leader_rounds ex_manager2 = 2" "multi_current_round ex_manager2 = 1"
proof -
  show fields: "mm_proposed ex_manager2 = Some ex_proposal" "mm_leader_timeout ex_manager2 = None"
    "mm_timeout_vote ex_manager2 = None" "mm_locked ex_manager2 = Some ex_validated"
    using create_final_vote_effects [OF ex_validated_value(1), of ex_crypto ex_manager1 ex_key_pair 0]
      ex_manager1_locked(2) ex_validated_value(2) ex_manager1_fields
    by (auto simp: ex_manager2_def Let_def)
  show "mm_multi_leader_rounds ex_manager2 = 2"
    using ex_manager1_fields(4) ex_manager1_locked(2) ex_validated_value
    by (simp add: ex_manager2_def multi_create_final_vote_def into_confirmed_def Let_def
        multi_update_timeout_def)
  show "multi_current_round ex_manager2 = 1"
    by (simp add: multi_current_round_def fields ex_validated_value ex_proposal_def)
qed

lemma ex_accept2: "manager_check_proposed_block (Manager_Multi ex_manager2) ex_proposal2 = Ok Accept"
proof -
  have "try_add_one (1 :: RoundNumber) = Ok 2" by simp
  then show ?thesis
    by (simp add: manager_check_proposed_block_def multi_check_proposed_block_def multi_check_lock_def
        Let_def ex_manager2_fields ex_proposal2_def ex_validated_value is_validated_def
        value_block_def value_executed_block_def del: try_add_one_Ok_iff)
      (simp add: ex_proposal_def ex_executed_def outcome_with_def ex_block_def word_le_nat_alt)
qed

lemma ex_votes3: "cast_votes ex_manager3 = {(ValidatedBlock ex_executed, 2)}"
  by (simp add: cast_votes_Some ex_manager3_def create_vote_effects ex_proposal2_def ex_executed_def
      ex_manager2_fields)

lemma ex_genuine_validated2: "genuine ex_network (nd_votes \<circ> ex_state2) ex_validated"
  using ex_genuine_validated by (rule genuine_mono [rotated]) (simp add: ex_state2_def node_update_def)

lemma ex_step3: "net_step ex_network ex_state2 ex_state3"
proof -
  have "node_step ex_crypto (genuine ex_network (nd_votes \<circ> ex_state2)) ex_manager2 ex_manager3"
    unfolding ex_manager3_def using ex_accept2 ex_genuine_validated2
    by (intro node_step.handle_block_proposal) (auto simp: ex_proposal2_def)
  then show ?thesis
    unfolding ex_state3_def
    by (intro net_step.honest_step)
      (simp_all add: ex_votes3, simp_all add: ex_network_def ex_state2_def node_update_def)
qed

lemma ex_honest: "7 \<notin> net_faulty ex_network"
  by (simp add: ex_network_def)

lemma ex_node_votes:
  "nd_votes (ex_state1 7) = {(ValidatedBlock ex_executed, 1)}"
  "nd_votes (ex_state2 7) = {(ValidatedBlock ex_executed, 1), (ConfirmedBlock ex_executed, 1)}"
  "nd_votes (ex_state3 7) = {(ValidatedBlock ex_executed, 1), (ConfirmedBlock ex_executed, 1),
     (ValidatedBlock ex_executed, 2)}"
proof -
  show one: "nd_votes (ex_state1 7) = {(ValidatedBlock ex_executed, 1)}"
    by (simp add: ex_state1_def node_update_def ex_votes1 ex_state0_def)
  show two: "nd_votes (ex_state2 7) = {(ValidatedBlock ex_executed, 1), (ConfirmedBlock ex_executed, 1)}"
    using one by (auto simp: ex_state2_def node_update_def ex_votes2)
  show "nd_votes (ex_state3 7) = {(ValidatedBlock ex_executed, 1), (ConfirmedBlock ex_executed, 1),
     (ValidatedBlock ex_executed, 2)}"
    using two by (auto simp: ex_state3_def node_update_def ex_votes3)
qed

theorem votes_never_go_back_witness:
  "net_reachable ex_network ex_state2 \<and> net_step ex_network ex_state2 ex_state3 \<and>
   (ValidatedBlock ex_executed, 2) \<in> nd_votes (ex_state3 7) - nd_votes (ex_state2 7) \<and>
   (ConfirmedBlock ex_executed, 1) \<in> nd_votes (ex_state2 7) \<and> (1 :: RoundNumber) \<le> 2"
proof -
  have new: "(ValidatedBlock ex_executed, 2) \<in> nd_votes (ex_state3 7) - nd_votes (ex_state2 7)"
    and old: "(ConfirmedBlock ex_executed, 1) \<in> nd_votes (ex_state2 7)"
    by (simp_all add: ex_node_votes)
  show ?thesis
    using votes_never_go_back [OF ex_reachable2 ex_step3 ex_honest new old] ex_reachable2 ex_step3 new old
    by blast
qed

theorem validation_respects_lock_witness:
  "net_reachable ex_network ex_state2 \<and> net_step ex_network ex_state2 ex_state3 \<and>
   (\<exists>c z. genuine ex_network (nd_votes \<circ> ex_state3) c \<and> hv_value (ct_value c) = ValidatedBlock z \<and>
      eb_block z = eb_block ex_executed \<and> 1 \<le> ct_round c \<and> ct_round c < 2)"
proof -
  have new: "(ValidatedBlock ex_executed, 2) \<in> nd_votes (ex_state3 7) - nd_votes (ex_state2 7)"
    and old: "(ConfirmedBlock ex_executed, 1) \<in> nd_votes (ex_state2 7)"
    by (simp_all add: ex_node_votes)
  show ?thesis
    using validation_respects_lock [OF ex_reachable2 ex_step3 ex_honest old new] ex_reachable2 ex_step3
    by blast
qed

theorem confirmation_needs_validation_witness:
  "net_reachable ex_network ex_state2 \<and> (ConfirmedBlock ex_executed, 1) \<in> nd_votes (ex_state2 7) \<and>
   (\<exists>c. genuine ex_network (nd_votes \<circ> ex_state2) c \<and> hv_value (ct_value c) = ValidatedBlock ex_executed
      \<and> ct_round c = 1)"
proof -
  have old: "(ConfirmedBlock ex_executed, 1) \<in> nd_votes (ex_state2 7)"
    by (simp add: ex_node_votes)
  show ?thesis
    using confirmation_needs_validation [OF ex_reachable2 ex_honest old] ex_reachable2 old by blast
qed

theorem highest_lock_proposal_accepted_witness:
  "mm_locked (nd_manager (ex_state2 7)) = Some ex_validated \<and>
   manager_check_proposed_block (Manager_Multi (nd_manager (ex_state2 7))) ex_proposal2 = Ok Accept"
proof -
  have m: "nd_manager (ex_state2 7) = ex_manager2"
    by (simp add: ex_state2_def node_update_def)
  have r: "2 = bar_round (bp_content ex_proposal2)" by (simp add: ex_proposal2_def)
  have "manager_check_proposed_block (Manager_Multi ex_manager2) ex_proposal2 = Ok Accept"
    by (rule highest_lock_proposal_accepted [OF ex_network_wf ex_reachable2 ex_honest m [symmetric] r
          ex_genuine_validated2 ex_validated_value(1)])
      (auto simp: ex_proposal2_def ex_validated_value ex_manager2_fields ex_executed_def
        outcome_with_def ex_block_def ex_proposal_def)
  then show ?thesis by (simp add: m ex_manager2_fields)
qed

end
