(* ===== verification/Single_Consensus.thy ===== *)
theory Single_Consensus
  imports Consensus_Run
begin

text \<open>
  Chains with one owner (\<open>linera-chain/src/manager/single.rs\<close>): a validator votes at once to
  confirm the first proposal it accepts at a height, and for no other block. The network is
  built like the one for several owners, from the single-owner manager's operations.
\<close>

record SingleNode =
  sn_manager :: SingleOwnerManager
  sn_votes :: votes

type_synonym SingleNetState = "ValidatorName \<Rightarrow> SingleNode"

definition single_cast_votes :: "SingleOwnerManager \<Rightarrow> votes" where
  "single_cast_votes m = vote_content ` set_option (sm_pending m)"

definition single_node_update :: "SingleNetState \<Rightarrow> ValidatorName \<Rightarrow> SingleOwnerManager \<Rightarrow> SingleNetState" where
  "single_node_update \<sigma> v m =
     \<sigma>(v := \<lparr>sn_manager = m, sn_votes = sn_votes (\<sigma> v) \<union> single_cast_votes m\<rparr>)"

inductive single_net_step :: "Network \<Rightarrow> SingleNetState \<Rightarrow> SingleNetState \<Rightarrow> bool" for N where
  single_block_proposal:
    "v \<notin> net_faulty N \<Longrightarrow>
     manager_check_proposed_block (Manager_Single (sn_manager (\<sigma> v))) proposal = Ok Accept \<Longrightarrow>
     m' = single_create_vote (net_crypto N) (sn_manager (\<sigma> v)) proposal outcome (Some key_pair) \<Longrightarrow>
     single_cast_votes m' \<subseteq> net_values N \<times> UNIV \<Longrightarrow>
     single_net_step N \<sigma> (single_node_update \<sigma> v m')"

inductive single_net_reachable :: "Network \<Rightarrow> SingleNetState \<Rightarrow> bool" for N where
  single_initial:
    "(\<And>v. sn_votes (\<sigma> v) = {} \<and> (\<exists>owner key. sn_manager (\<sigma> v) = single_new owner key)) \<Longrightarrow>
     single_net_reachable N \<sigma>"
| single_further:
    "single_net_reachable N \<sigma> \<Longrightarrow> single_net_step N \<sigma> \<sigma>' \<Longrightarrow> single_net_reachable N \<sigma>'"

text \<open>All that an honest validator has ever voted for is its pending vote.\<close>

definition single_inv :: "Network \<Rightarrow> SingleNetState \<Rightarrow> bool" where
  "single_inv N \<sigma> \<longleftrightarrow>
     (\<forall>v. v \<notin> net_faulty N \<longrightarrow>
        single_cast_votes (sn_manager (\<sigma> v)) = sn_votes (\<sigma> v) \<and>
        sn_votes (\<sigma> v) \<subseteq> net_values N \<times> UNIV \<and>
        (\<forall>w r. (w, r) \<in> sn_votes (\<sigma> v) \<longrightarrow> is_confirmed w))"

lemma single_check_Accept:
  "manager_check_proposed_block (Manager_Single m) p = Ok Accept \<Longrightarrow>
     sm_pending m = None \<and> bar_round (bp_content p) = 0"
  by (auto simp: manager_check_proposed_block_def single_check_proposed_block_def Let_def
      split: option.splits if_splits CertificateValue.splits)

lemma single_create_vote_cast:
  "bar_round (bp_content p) = 0 \<Longrightarrow>
     single_cast_votes (single_create_vote cr m p outcome (Some kp)) =
       {(ConfirmedBlock (outcome_with outcome (bar_block (bp_content p))), 0)}"
  by (simp add: single_cast_votes_def single_create_vote_def Let_def vote_content_def vote_new_def
      hashed_from_def)

lemma single_inv_votes:
  "single_inv N \<sigma> \<Longrightarrow> v \<notin> net_faulty N \<Longrightarrow>
     sn_votes (\<sigma> v) = vote_content ` set_option (sm_pending (sn_manager (\<sigma> v)))"
  unfolding single_cast_votes_def [symmetric] by (simp add: single_inv_def)

lemma single_inv_step:
  assumes "single_net_step N \<sigma> \<sigma>'" and "single_inv N \<sigma>"
  shows "single_inv N \<sigma>'"
  using assms(1)
proof (cases rule: single_net_step.cases)
  case (single_block_proposal v p m' outcome key_pair)
  then have p: "sm_pending (sn_manager (\<sigma> v)) = None" "bar_round (bp_content p) = 0"
    using single_check_Accept by blast+
  then have "sn_votes (\<sigma> v) = {}"
    using single_inv_votes [OF assms(2) single_block_proposal(2)] by simp
  then show ?thesis
    using assms(2) single_block_proposal single_create_vote_cast [OF p(2)]
    by (auto simp: single_inv_def single_node_update_def is_confirmed_def)
qed

lemma single_inv_reachable: "single_net_reachable N \<sigma> \<Longrightarrow> single_inv N \<sigma>"
proof (induction rule: single_net_reachable.induct)
  case (single_initial \<sigma>)
  then have "sn_votes (\<sigma> v) = {} \<and> sm_pending (sn_manager (\<sigma> v)) = None" for v
    by (metis SingleOwnerManager.select_convs(3) single_new_def)
  then show ?case by (simp add: single_inv_def single_cast_votes_def)
qed (rule single_inv_step)

lemma single_vote_unique:
  "single_inv N \<sigma> \<Longrightarrow> v \<notin> net_faulty N \<Longrightarrow> a \<in> sn_votes (\<sigma> v) \<Longrightarrow> b \<in> sn_votes (\<sigma> v) \<Longrightarrow> a = b"
  by (cases "sm_pending (sn_manager (\<sigma> v))") (simp_all add: single_inv_votes)

text \<open>
  C6. Safety of single-owner chains: under the same assumptions on the committee, the faulty
  validators and the hash function, any two genuine certificates for a height contain the
  same executed block, and it is confirmed.
\<close>

theorem single_owner_confirms_one_block:
  assumes "network_wf N" and "single_net_reachable N \<sigma>"
    and "genuine N (sn_votes \<circ> \<sigma>) c" and "genuine N (sn_votes \<circ> \<sigma>) c'"
  shows "hv_value (ct_value c) = hv_value (ct_value c') \<and> is_confirmed (hv_value (ct_value c))"
proof -
  have inv: "single_inv N \<sigma>" using assms(2) by (rule single_inv_reachable)
  then have votes: "votes_wf N (sn_votes \<circ> \<sigma>)" by (simp add: single_inv_def votes_wf_def)
  have "committee_wf (net_committee N)" "quorums.tolerated (net_committee N) (net_faulty N)"
    using assms(1) by (simp_all add: network_wf_def)
  then obtain v where v: "v \<in> fst ` set (ct_signatures c)" "v \<in> fst ` set (ct_signatures c')"
    "v \<notin> net_faulty N"
    using quorums.honest_in_common genuine_quorum [OF assms(1,3)] genuine_quorum [OF assms(1,4)]
    by metis
  then have "(hv_value (ct_value c), ct_round c) \<in> sn_votes (\<sigma> v)"
    "(hv_value (ct_value c'), ct_round c') \<in> sn_votes (\<sigma> v)"
    using genuine_voted [OF assms(1) votes] assms(3,4) by auto
  then show ?thesis
    using single_vote_unique [OF inv v(3)] inv v(3) by (fastforce simp: single_inv_def)
qed

definition ex_single0 :: SingleNetState where
  "ex_single0 = (\<lambda>_. \<lparr>sn_manager = single_new 3 3, sn_votes = {}\<rparr>)"

definition ex_single_proposal :: BlockProposal where
  "ex_single_proposal = ex_proposal\<lparr>bp_content := \<lparr>bar_block = ex_block, bar_round = 0\<rparr>\<rparr>"

definition ex_single1 :: SingleNetState where
  "ex_single1 = single_node_update ex_single0 7
     (single_create_vote ex_crypto (single_new 3 3) ex_single_proposal ex_outcome (Some ex_key_pair))"

definition ex_single_certificate :: "Signature \<Rightarrow> Certificate" where
  "ex_single_certificate s = (ex_confirmed s)\<lparr>ct_round := 0\<rparr>"

lemma ex_single_votes:
  "single_cast_votes (single_create_vote ex_crypto m ex_single_proposal ex_outcome (Some ex_key_pair)) =
     {(ConfirmedBlock ex_executed, 0)}"
  using single_create_vote_cast [of ex_single_proposal]
  by (simp add: ex_single_proposal_def ex_executed_def)

lemma ex_single_reachable: "single_net_reachable ex_network ex_single1"
proof -
  have "single_net_reachable ex_network ex_single0"
    by (rule single_net_reachable.single_initial) (auto simp: ex_single0_def)
  moreover have "single_net_step ex_network ex_single0 ex_single1"
    unfolding ex_single1_def
    by (rule single_net_step.single_block_proposal [OF ex_honest])
      (simp_all add: ex_single_votes, simp_all add: ex_single0_def ex_network_def single_new_def
        manager_check_proposed_block_def single_check_proposed_block_def ex_single_proposal_def
        ex_proposal_def ex_block_def)
  ultimately show ?thesis by (rule single_net_reachable.single_further)
qed

lemma ex_single_genuine: "genuine ex_network (sn_votes \<circ> ex_single1) (ex_single_certificate s)"
proof -
  have "sn_votes (ex_single1 7) = {(ConfirmedBlock ex_executed, 0)}"
    by (simp add: ex_single1_def single_node_update_def ex_single_votes ex_single0_def)
  moreover have "check_signatures ex_crypto lv 0 [(7, s)] ex_committee = Ok ()" for lv
    by (simp add: check_signatures_def ex_committee_def committee_new_def Let_def weight_def ex_crypto_def)
  ultimately show ?thesis
    by (simp add: genuine_def ex_single_certificate_def certificate_check_def ex_confirmed_def
        ex_network_def) (simp add: new_confirmed_def hashed_from_def ex_crypto_def)
qed

theorem single_owner_confirms_one_block_witness:
  "network_wf ex_network \<and> single_net_reachable ex_network ex_single1 \<and>
   genuine ex_network (sn_votes \<circ> ex_single1) (ex_single_certificate 0) \<and>
   hv_value (ct_value (ex_single_certificate 0)) = hv_value (ct_value (ex_single_certificate 1)) \<and>
   is_confirmed (hv_value (ct_value (ex_single_certificate 0)))"
  using single_owner_confirms_one_block [OF ex_network_wf ex_single_reachable ex_single_genuine
      ex_single_genuine] ex_network_wf ex_single_reachable ex_single_genuine by blast

end
