(* ===== verification/Aggregation.thy ===== *)
theory Aggregation
  imports Certificates
begin

text \<open>
  \<open>SignatureAggregator\<close>: its documentation promises that a certificate returned by
  \<open>append\<close> passes \<open>Certificate::check\<close>. The aggregator is followed over any sequence of
  calls, failing ones included.
\<close>

inductive aggregating :: "Crypto \<Rightarrow> HashedValue \<Rightarrow> RoundNumber \<Rightarrow> Committee \<Rightarrow> SignatureAggregator \<Rightarrow> bool"
    for cr w r c where
  agg_new: "aggregating cr w r c (aggregator_new w r c)"
| agg_append: "aggregating cr w r c a \<Longrightarrow>
    aggregating cr w r c (fst (aggregator_append cr a validator signature))"

definition signers :: "Certificate \<Rightarrow> ValidatorName set" where
  "signers cert = fst ` set (ct_signatures cert)"

definition aggregator_inv ::
    "Crypto \<Rightarrow> HashedValue \<Rightarrow> RoundNumber \<Rightarrow> Committee \<Rightarrow> SignatureAggregator \<Rightarrow> bool" where
  "aggregator_inv cr w r c a \<longleftrightarrow>
     sa_committee a = c \<and> ct_value (sa_partial a) = w \<and> ct_round (sa_partial a) = r \<and>
     is_strictly_ordered (ct_signatures (sa_partial a)) \<and>
     signers (sa_partial a) \<subseteq> set (sa_used_validators a) \<and>
     (\<forall>(v, s) \<in> set (ct_signatures (sa_partial a)).
        weight c v > 0 \<and> cr_check_vote cr s (hv_hash w, r) v = Ok ()) \<and>
     unat (sa_weight a) \<le> (\<Sum>v\<in>signers (sa_partial a). unat (weight c v))"

lemma aggregator_inv_new: "aggregator_inv cr w r c (aggregator_new w r c)"
  by (simp add: aggregator_inv_def aggregator_new_def signers_def)

text \<open>The partial certificate after a successful call, and its exact weight.\<close>

lemma accepted_vote:
  assumes inv: "aggregator_inv cr w r c a" and wf: "committee_wf c"
    and ok: "cr_check_vote cr s (hv_hash w, r) v = Ok ()" and fresh: "v \<notin> set (sa_used_validators a)"
    and pos: "weight c v > 0"
  defines "p \<equiv> add_signature (sa_partial a) (v, s)"
  shows "is_strictly_ordered (ct_signatures p)" and "signers p = insert v (signers (sa_partial a))"
    and "\<forall>(v, s) \<in> set (ct_signatures p). weight c v > 0 \<and> cr_check_vote cr s (hv_hash w, r) v = Ok ()"
    and "unat (sa_weight a + weight c v) \<le> (\<Sum>v\<in>signers p. unat (weight c v))"
proof -
  have new: "v \<notin> signers (sa_partial a)" using inv fresh by (auto simp: aggregator_inv_def)
  then show "is_strictly_ordered (ct_signatures p)"
    using inv unfolding p_def by (intro add_signature_sorted) (auto simp: aggregator_inv_def signers_def)
  show sg: "signers p = insert v (signers (sa_partial a))" by (simp add: p_def signers_def)
  show "\<forall>(v, s) \<in> set (ct_signatures p). weight c v > 0 \<and> cr_check_vote cr s (hv_hash w, r) v = Ok ()"
    using inv ok pos by (auto simp: p_def aggregator_inv_def)
  have fin: "finite (signers (sa_partial a))" by (simp add: signers_def)
  have sum: "(\<Sum>v\<in>signers p. unat (weight c v)) =
      unat (weight c v) + (\<Sum>v\<in>signers (sa_partial a). unat (weight c v))"
    using new fin by (simp add: sg)
  have "(\<Sum>v\<in>signers p. unat (weight c v)) \<le> unat (com_total_votes c)"
    using quorums.power_le_total [of "signers p" c] wf fin by (simp add: committee_total sg)
  also have "\<dots> < 2 ^ 64" using unat_lt_pow [of "com_total_votes c"] by simp
  finally have "unat (sa_weight a) + unat (weight c v) < 2 ^ 64"
    using sum inv by (simp add: aggregator_inv_def)
  then have "unat (sa_weight a + weight c v) = unat (sa_weight a) + unat (weight c v)"
    by (intro unat_plus_exact) simp
  then show "unat (sa_weight a + weight c v) \<le> (\<Sum>v\<in>signers p. unat (weight c v))"
    using sum inv by (simp add: aggregator_inv_def)
qed

lemma aggregator_inv_append:
  assumes inv: "aggregator_inv cr w r c a" and wf: "committee_wf c"
  shows "aggregator_inv cr w r c (fst (aggregator_append cr a v s))"
proof (cases "cr_check_vote cr s (hv_hash w, r) v = Ok () \<and> v \<notin> set (sa_used_validators a) \<and> weight c v > 0")
  case True
  note new = accepted_vote [OF inv wf, of s v]
  show ?thesis
    using inv True new
    by (auto simp: aggregator_append_def Let_def aggregator_inv_def)
next
  case False
  then show ?thesis
    using inv by (auto simp: aggregator_append_def Let_def aggregator_inv_def split: result.splits)
qed

lemma aggregating_inv: "aggregating cr w r c a \<Longrightarrow> committee_wf c \<Longrightarrow> aggregator_inv cr w r c a"
  by (induction rule: aggregating.induct) (auto simp: aggregator_inv_new aggregator_inv_append)

lemma append_Some:
  assumes inv: "aggregator_inv cr w r c a" and wf: "committee_wf c"
    and "aggregator_append cr a v s = (a', Ok (Some cert))"
  shows "ct_value cert = w \<and> ct_round cert = r \<and> is_strictly_ordered (ct_signatures cert) \<and>
    (\<forall>(v, s) \<in> set (ct_signatures cert). weight c v > 0 \<and> cr_check_vote cr s (hv_hash w, r) v = Ok ()) \<and>
    quorums.is_quorum c (signers cert)"
proof -
  have acc: "cr_check_vote cr s (hv_hash w, r) v = Ok ()" "v \<notin> set (sa_used_validators a)"
    "weight c v > 0" "cert = add_signature (sa_partial a) (v, s)"
    "quorum_threshold c \<le> sa_weight a + weight c v"
    using assms(3) inv
    by (auto simp: aggregator_append_def Let_def aggregator_inv_def split: result.splits if_splits)
  note new = accepted_vote [OF inv wf acc(1-3)]
  have "unat (quorum_threshold c) \<le> (\<Sum>v\<in>signers cert. unat (weight c v))"
    using new(4) acc(4,5) by (simp add: word_le_nat_alt)
  then show ?thesis
    using new(1,3) inv acc(4) by (simp add: aggregator_inv_def quorums.is_quorum_def signers_def)
qed

text \<open>
  C7. Whatever votes an aggregator has been given, valid or not, and whatever errors it has
  returned, a certificate that \<open>append\<close> returns is for the aggregator's value and round,
  has strictly ordered signatures, and passes \<open>Certificate::check\<close>. The one assumption on
  the signature library is that batch verification accepts a list of signatures that verify
  one by one.
\<close>

theorem aggregated_certificate_checks:
  assumes "committee_wf c" and "aggregating cr w r c a"
    and "aggregator_append cr a v s = (a', Ok (Some cert))"
    and "\<And>m sigs. (\<And>k s. (k, s) \<in> set sigs \<Longrightarrow> cr_check_vote cr s m k = Ok ()) \<Longrightarrow>
           cr_verify_batch cr m sigs = Ok ()"
  shows "certificate_check cr cert c = Ok w \<and> ct_round cert = r \<and> is_strictly_ordered (ct_signatures cert)"
proof -
  note cert = append_Some [OF aggregating_inv [OF assms(2,1)] assms(1,3)]
  have "cr_verify_batch cr (hv_hash w, r) (ct_signatures cert) = Ok ()"
    using cert by (intro assms(4)) auto
  moreover have "distinct (map fst (ct_signatures cert))"
    using cert by (intro sorted_signers_distinct) (simp add: is_strictly_ordered_iff)
  ultimately show ?thesis
    using cert
    by (auto simp: certificate_check_Ok_iff check_signatures_Ok_iff [OF assms(1)]
        certificate_lite_value_def signers_def)
qed

definition ex_agg_committee :: Committee where
  "ex_agg_committee = committee_new
     [(1, \<lparr>vs_network_address = ''a'', vs_votes = 1\<rparr>), (2, \<lparr>vs_network_address = ''b'', vs_votes = 1\<rparr>)]
     policy_default"

definition ex_agg_crypto :: Crypto where
  "ex_agg_crypto = \<lparr>cr_hash_key = id, cr_hash_description = (\<lambda>_. 0), cr_hash_value = (\<lambda>_. 0),
     cr_sign_vote = (\<lambda>k _. ucast (kp_public k)),
     cr_check_vote = (\<lambda>s _ k. if s = ucast k then Ok () else Err (InvalidSignature [] [])),
     cr_verify_batch = (\<lambda>_ sigs. if \<forall>(k, s) \<in> set sigs. s = ucast k then Ok ()
                                 else Err (InvalidSignature [] [])),
     cr_sign_block = (\<lambda>_ _. 0), cr_check_block = (\<lambda>_ _ _. Ok ())\<rparr>"

definition ex_agg_value :: HashedValue where
  "ex_agg_value = \<lparr>hv_value = LeaderTimeout 0 0 0, hv_hash = 0\<rparr>"

definition ex_aggregator :: SignatureAggregator where
  "ex_aggregator = fst (aggregator_append ex_agg_crypto (aggregator_new ex_agg_value 4 ex_agg_committee) 2 2)"

text \<open>The second of two validators of weight 1 completes the certificate.\<close>

theorem aggregated_certificate_checks_witness:
  "committee_wf ex_agg_committee \<and>
   snd (aggregator_append ex_agg_crypto ex_aggregator 1 1) =
     Ok (Some \<lparr>ct_value = ex_agg_value, ct_round = 4, ct_signatures = [(1, 1), (2, 2)]\<rparr>) \<and>
   certificate_check ex_agg_crypto
     \<lparr>ct_value = ex_agg_value, ct_round = 4, ct_signatures = [(1, 1), (2, 2)]\<rparr> ex_agg_committee =
     Ok ex_agg_value"
proof -
  have wf: "committee_wf ex_agg_committee"
    by (simp add: committee_wf_def ex_agg_committee_def committee_new_def Let_def votes_sum_def btree_wf_def)
  let ?cert = "\<lparr>ct_value = ex_agg_value, ct_round = 4, ct_signatures = [(1, 1), (2, 2)]\<rparr> :: Certificate"
  have agg: "aggregating ex_agg_crypto ex_agg_value 4 ex_agg_committee ex_aggregator"
    unfolding ex_aggregator_def by (intro aggregating.intros)
  have step: "snd (aggregator_append ex_agg_crypto ex_aggregator 1 1) = Ok (Some ?cert)"
    by (simp add: ex_aggregator_def aggregator_append_def aggregator_new_def ex_agg_crypto_def
        ex_agg_committee_def committee_new_def weight_def add_signature_def vec_insert_def
        binary_search_by_def binary_search_loop.simps [of _ _ 0 0]
        binary_search_loop.simps [of _ _ 0 "Suc 0"] compare_keys_def Let_def)
  then have "aggregator_append ex_agg_crypto ex_aggregator 1 1 =
      (fst (aggregator_append ex_agg_crypto ex_aggregator 1 1), Ok (Some ?cert))"
    by (metis prod.collapse)
  moreover have "cr_verify_batch ex_agg_crypto m sigs = Ok ()"
    if "\<And>k s. (k, s) \<in> set sigs \<Longrightarrow> cr_check_vote ex_agg_crypto s m k = Ok ()" for m sigs
  proof -
    have "s = ucast k" if "(k, s) \<in> set sigs" for k s
      using \<open>\<And>k s. (k, s) \<in> set sigs \<Longrightarrow> _\<close> [OF that] by (simp add: ex_agg_crypto_def split: if_splits)
    then show ?thesis by (auto simp: ex_agg_crypto_def)
  qed
  ultimately have "certificate_check ex_agg_crypto ?cert ex_agg_committee = Ok ex_agg_value"
    using aggregated_certificate_checks [OF wf agg] by blast
  with wf step show ?thesis by blast
qed

end
