(* ===== verification/Inbox.thy ===== *)
theory Inbox
  imports Certificates "HOL-Library.Product_Lexorder" "HOL-Library.Sublist"
begin

text \<open>
  \<open>linera-chain/src/inbox.rs\<close>: the inbox of a chain for one origin. Events are added when the
  sender's blocks arrive and removed when the chain's own blocks execute them, possibly
  before they arrive. Cursors are compared by height, then index. The two queues are the
  contents of their queue views. An operation that fails leaves no state behind: the chain
  discards the view.
\<close>

type_synonym Cursor = "BlockHeight \<times> u32"

definition cursor_from :: "Event \<Rightarrow> Cursor" where
  "cursor_from event = (ev_height event, ev_index event)"

definition cursor_try_add_one :: "Cursor \<Rightarrow> (ArithmeticError, Cursor) result" where
  "cursor_try_add_one self =
     map_ok (\<lambda>index. (fst self, index)) (ok_or Overflow (checked_add (snd self) 1))"

datatype InboxError =
    Inbox_ViewError ViewError
  | Inbox_ArithmeticError ArithmeticError
  | UnexpectedEvent Event Event
  | IncorrectOrder Event Cursor
  | UnskippableEvent Event

definition chain_error_from_inbox :: "ChainId \<Rightarrow> Origin \<Rightarrow> InboxError \<Rightarrow> ChainError" where
  "chain_error_from_inbox chain_id origin error =
     (case error of
        Inbox_ViewError e \<Rightarrow> Chain_ViewError e
      | Inbox_ArithmeticError e \<Rightarrow> Chain_ArithmeticError e
      | UnexpectedEvent event previous_event \<Rightarrow> UnexpectedMessage chain_id origin event previous_event
      | IncorrectOrder event next_cursor \<Rightarrow>
          IncorrectMessageOrder chain_id origin event (fst next_cursor) (snd next_cursor)
      | UnskippableEvent event \<Rightarrow> UnskippableMessage chain_id origin event)"

record InboxState =
  ib_next_cursor_to_add :: Cursor
  ib_next_cursor_to_remove :: Cursor
  ib_added_events :: "Event list"
  ib_removed_events :: "Event list"

definition inbox_default :: InboxState where
  "inbox_default =
     \<lparr>ib_next_cursor_to_add = (0, 0), ib_next_cursor_to_remove = (0, 0),
      ib_added_events = [], ib_removed_events = []\<rparr>"

definition inbox_next_block_height_to_receive :: "InboxState \<Rightarrow> (ChainError, BlockHeight) result" where
  "inbox_next_block_height_to_receive self =
     (let cursor = ib_next_cursor_to_add self
      in if snd cursor = 0 then Ok (fst cursor)
         else map_err Chain_ArithmeticError (try_add_one (fst cursor)))"

text \<open>The loop that discards added events with lower cursors.\<close>

fun discard_lower :: "Cursor \<Rightarrow> Event list \<Rightarrow> (InboxError, Event list) result" where
  "discard_lower cursor [] = Ok []"
| "discard_lower cursor (previous_event # added_events) =
     (if cursor_from previous_event \<ge> cursor then Ok (previous_event # added_events)
      else ensure (ev_is_skippable previous_event) (UnskippableEvent previous_event)
             (discard_lower cursor added_events))"

definition remove_event :: "InboxState \<Rightarrow> Event \<Rightarrow> (InboxError, InboxState) result" where
  "remove_event self event =
     (let cursor = cursor_from event
      in ensure (cursor \<ge> ib_next_cursor_to_remove self)
           (IncorrectOrder event (ib_next_cursor_to_remove self))
        (and_then (discard_lower cursor (ib_added_events self)) (\<lambda>added_events.
         and_then
           (case added_events of
              previous_event # rest \<Rightarrow>
                ensure (event = previous_event) (UnexpectedEvent event previous_event)
                  (Ok (self\<lparr>ib_added_events := rest\<rparr>))
            | [] \<Rightarrow> Ok (self\<lparr>ib_added_events := [],
                               ib_removed_events := ib_removed_events self @ [event]\<rparr>))
           (\<lambda>self.
         and_then (map_err Inbox_ArithmeticError (cursor_try_add_one cursor)) (\<lambda>next_cursor.
           Ok (self\<lparr>ib_next_cursor_to_remove := next_cursor\<rparr>))))))"

definition add_event :: "InboxState \<Rightarrow> Event \<Rightarrow> (InboxError, InboxState) result" where
  "add_event self event =
     (let cursor = cursor_from event
      in ensure (cursor \<ge> ib_next_cursor_to_add self)
           (IncorrectOrder event (ib_next_cursor_to_add self))
        (and_then
           (case ib_removed_events self of
              previous_event # rest \<Rightarrow>
                if cursor_from previous_event = cursor
                then ensure (event = previous_event) (UnexpectedEvent event previous_event)
                       (Ok (self\<lparr>ib_removed_events := rest\<rparr>))
                else ensure (cursor < cursor_from previous_event \<and> ev_is_skippable event)
                       (UnexpectedEvent event previous_event) (Ok self)
            | [] \<Rightarrow> Ok (self\<lparr>ib_added_events := ib_added_events self @ [event]\<rparr>))
           (\<lambda>self.
         and_then (map_err Inbox_ArithmeticError (cursor_try_add_one cursor)) (\<lambda>next_cursor.
           Ok (self\<lparr>ib_next_cursor_to_add := next_cursor\<rparr>)))))"

section \<open>Cursors\<close>

lemma cursor_try_add_one_Ok_iff:
  "cursor_try_add_one c = Ok d \<longleftrightarrow> fst d = fst c \<and> unat (snd d) = Suc (unat (snd c))"
  by (cases c; cases d) (auto simp: cursor_try_add_one_def)

lemma cursor_try_add_one_total:
  "(\<exists>d. cursor_try_add_one c = Ok d) \<longleftrightarrow> snd c \<noteq> max_value"
proof -
  have "(\<exists>d. cursor_try_add_one c = Ok d) \<longleftrightarrow> (\<exists>i. try_add_one (snd c) = Ok i)"
    by (auto simp: cursor_try_add_one_def try_add_one_def)
  also have "\<dots> \<longleftrightarrow> snd c \<noteq> max_value"
    using try_add_one_Err_iff [of "snd c"] try_add_one_not_Panic [of "snd c"]
    by (cases "try_add_one (snd c)") (auto simp del: try_add_one_Ok_iff)
  finally show ?thesis .
qed

lemma cursor_succ_le_iff:
  "cursor_try_add_one c = Ok d \<Longrightarrow> d \<le> e \<longleftrightarrow> c < e"
  by (cases c; cases d; cases e)
    (auto simp: cursor_try_add_one_Ok_iff less_prod_def less_eq_prod_def word_less_nat_alt word_le_nat_alt)

lemma cursor_le_iff_less_succ:
  "cursor_try_add_one c = Ok d \<Longrightarrow> e < d \<longleftrightarrow> e \<le> c"
  using cursor_succ_le_iff [of c d e] by (meson leD leI)

lemma cursor_less_succ: "cursor_try_add_one c = Ok d \<Longrightarrow> c < d"
  using cursor_le_iff_less_succ [of c d c] by simp

section \<open>The invariant\<close>

definition cursors :: "Event list \<Rightarrow> Cursor list" where
  "cursors es = map cursor_from es"

definition inbox_inv :: "InboxState \<Rightarrow> bool" where
  "inbox_inv ib \<longleftrightarrow>
     (let added = ib_added_events ib; removed = ib_removed_events ib
      in (added = [] \<or> removed = []) \<and>
         sorted_wrt (<) (cursors added) \<and> sorted_wrt (<) (cursors removed) \<and>
         (added = [] \<and> removed = [] \<longrightarrow> ib_next_cursor_to_add ib = ib_next_cursor_to_remove ib) \<and>
         (added \<noteq> [] \<longrightarrow>
            ib_next_cursor_to_remove ib \<le> cursor_from (hd added) \<and>
            cursor_try_add_one (cursor_from (last added)) = Ok (ib_next_cursor_to_add ib)) \<and>
         (removed \<noteq> [] \<longrightarrow>
            ib_next_cursor_to_add ib \<le> cursor_from (hd removed) \<and>
            cursor_try_add_one (cursor_from (last removed)) = Ok (ib_next_cursor_to_remove ib)))"

lemma sorted_hd_le_last: "sorted_wrt (<) xs \<Longrightarrow> xs \<noteq> [] \<Longrightarrow> hd xs \<le> last xs"
    for xs :: "'a::linorder list"
  by (cases xs rule: rev_cases) (auto simp: sorted_wrt_append hd_append intro: less_imp_le)

lemma cursors_simps [simp]:
  "cursors [] = []" "cursors (e # es) = cursor_from e # cursors es"
  "cursors (es @ fs) = cursors es @ cursors fs" "cursors es = [] \<longleftrightarrow> es = []"
  "set (cursors es) = cursor_from ` set es"
  "es \<noteq> [] \<Longrightarrow> hd (cursors es) = cursor_from (hd es)"
  "es \<noteq> [] \<Longrightarrow> last (cursors es) = cursor_from (last es)"
  by (simp_all add: cursors_def hd_map last_map)

lemma inbox_inv_default: "inbox_inv inbox_default"
  by (simp add: inbox_inv_def inbox_default_def)

lemma sorted_hd_least:
  "sorted_wrt (<) (cursors es) \<Longrightarrow> e \<in> set es \<Longrightarrow> cursor_from (hd es) \<le> cursor_from e"
  by (cases es) (auto intro: less_imp_le)

lemma sorted_last_greatest:
  "sorted_wrt (<) (cursors es) \<Longrightarrow> e \<in> set es \<Longrightarrow> cursor_from e \<le> cursor_from (last es)"
  by (cases es rule: rev_cases) (auto simp: sorted_wrt_append intro: less_imp_le)

text \<open>What discarding leaves, when it succeeds.\<close>

lemma discard_lower_Ok:
  "discard_lower c es = Ok rest \<Longrightarrow>
     \<exists>ds. es = ds @ rest \<and> (\<forall>d \<in> set ds. ev_is_skippable d \<and> cursor_from d < c) \<and>
       (rest \<noteq> [] \<longrightarrow> c \<le> cursor_from (hd rest))"
proof (induction c es rule: discard_lower.induct)
  case (2 c e es)
  show ?case
  proof (cases "c \<le> cursor_from e")
    case False
    with 2 obtain ds where "es = ds @ rest" "\<forall>d \<in> set ds. ev_is_skippable d \<and> cursor_from d < c"
      "rest \<noteq> [] \<longrightarrow> c \<le> cursor_from (hd rest)" "ev_is_skippable e"
      by auto
    with False show ?thesis by (intro exI [of _ "e # ds"]) auto
  qed (use 2 in auto)
qed auto

lemma discard_lower_Ok_iff:
  assumes "sorted_wrt (<) (cursors es)"
  shows "(\<exists>rest. discard_lower c es = Ok rest) \<longleftrightarrow>
     (\<forall>d \<in> set es. cursor_from d < c \<longrightarrow> ev_is_skippable d)"
  using assms
proof (induction c es rule: discard_lower.induct)
  case (2 c e es)
  then show ?case by (auto simp: not_le dest: less_le_trans)
qed auto

text \<open>The successful branches of the two operations, with the state each leaves.\<close>

lemma add_event_Ok_iff:
  "add_event ib e = Ok ib' \<longleftrightarrow>
     ib_next_cursor_to_add ib \<le> cursor_from e \<and>
     (\<exists>nc. cursor_try_add_one (cursor_from e) = Ok nc \<and>
       (case ib_removed_events ib of
          [] \<Rightarrow> ib' = ib\<lparr>ib_added_events := ib_added_events ib @ [e], ib_next_cursor_to_add := nc\<rparr>
        | p # ps \<Rightarrow>
            e = p \<and> ib' = ib\<lparr>ib_removed_events := ps, ib_next_cursor_to_add := nc\<rparr> \<or>
            cursor_from e < cursor_from p \<and> ev_is_skippable e \<and> ib' = ib\<lparr>ib_next_cursor_to_add := nc\<rparr>))"
proof (cases "ib_removed_events ib")
  case Nil
  then show ?thesis by (simp add: add_event_def Let_def) blast
next
  case (Cons p ps)
  then show ?thesis
    by (cases "cursor_from p = cursor_from e"; cases "e = p") (simp_all add: add_event_def Let_def, blast+)
qed

lemma remove_event_Ok_iff:
  "remove_event ib e = Ok ib' \<longleftrightarrow>
     ib_next_cursor_to_remove ib \<le> cursor_from e \<and>
     (\<exists>nc rest. cursor_try_add_one (cursor_from e) = Ok nc \<and>
        discard_lower (cursor_from e) (ib_added_events ib) = Ok rest \<and>
       (case rest of
          [] \<Rightarrow> ib' = ib\<lparr>ib_added_events := [], ib_removed_events := ib_removed_events ib @ [e],
                        ib_next_cursor_to_remove := nc\<rparr>
        | p # ps \<Rightarrow> e = p \<and> ib' = ib\<lparr>ib_added_events := ps, ib_next_cursor_to_remove := nc\<rparr>))"
proof (cases "discard_lower (cursor_from e) (ib_added_events ib)")
  case (Ok rest)
  then show ?thesis
    by (cases rest) (simp_all add: remove_event_def Let_def, blast+)
qed (simp_all add: remove_event_def Let_def)

lemmas inbox_inv_unfold = inbox_inv_def [unfolded Let_def]

lemma last_before:
  assumes "sorted_wrt (<) (cursors es)" "es \<noteq> [] \<longrightarrow> cursor_try_add_one (cursor_from (last es)) = Ok n"
    "n \<le> c" "d \<in> set es"
  shows "cursor_from d < c"
  using assms sorted_last_greatest [of es d] cursor_succ_le_iff [of "cursor_from (last es)" n c]
  by (cases es) (auto dest: le_less_trans)

lemma add_event_inv:
  assumes inv: "inbox_inv ib" and ok: "add_event ib e = Ok ib'"
  shows "inbox_inv ib'"
proof -
  let ?c = "cursor_from e"
  obtain nc where c: "ib_next_cursor_to_add ib \<le> ?c" and nc: "cursor_try_add_one ?c = Ok nc"
    using ok by (auto simp: add_event_Ok_iff)
  show ?thesis
  proof (cases "ib_removed_events ib")
    case Nil
    then have ib': "ib' = ib\<lparr>ib_added_events := ib_added_events ib @ [e], ib_next_cursor_to_add := nc\<rparr>"
      using ok nc by (auto simp: add_event_Ok_iff)
    have "cursor_from d < ?c" if "d \<in> set (ib_added_events ib)" for d
      using last_before [OF _ _ c that] inv by (simp add: inbox_inv_unfold)
    with inv c nc Nil show ?thesis
      by (auto simp: inbox_inv_unfold ib' sorted_wrt_append hd_append)
  next
    case (Cons p ps)
    have added: "ib_added_events ib = []" using inv Cons by (simp add: inbox_inv_unfold)
    consider "e = p" "ib' = ib\<lparr>ib_removed_events := ps, ib_next_cursor_to_add := nc\<rparr>"
      | "?c < cursor_from p" "ib' = ib\<lparr>ib_next_cursor_to_add := nc\<rparr>"
      using ok nc Cons by (auto simp: add_event_Ok_iff)
    then show ?thesis
    proof cases
      case 1
      then show ?thesis using inv nc \<open>ib_removed_events ib = _\<close> added cursor_succ_le_iff [OF nc]
        by (cases ps) (auto simp: inbox_inv_unfold)
    next
      case 2
      then show ?thesis using inv Cons added cursor_succ_le_iff [OF nc]
        by (simp add: inbox_inv_unfold)
    qed
  qed
qed

lemma remove_event_inv:
  assumes inv: "inbox_inv ib" and ok: "remove_event ib e = Ok ib'"
  shows "inbox_inv ib'"
proof -
  let ?c = "cursor_from e"
  obtain nc rest where c: "ib_next_cursor_to_remove ib \<le> ?c" and nc: "cursor_try_add_one ?c = Ok nc"
    and rest: "discard_lower ?c (ib_added_events ib) = Ok rest"
    using ok by (auto simp: remove_event_Ok_iff)
  obtain ds where ds: "ib_added_events ib = ds @ rest" "\<And>d. d \<in> set ds \<Longrightarrow> cursor_from d < ?c"
    using discard_lower_Ok [OF rest] by auto
  show ?thesis
  proof (cases rest)
    case Nil
    then have ib': "ib' = ib\<lparr>ib_added_events := [], ib_removed_events := ib_removed_events ib @ [e],
        ib_next_cursor_to_remove := nc\<rparr>"
      using ok nc rest by (auto simp: remove_event_Ok_iff)
    have "cursor_from d < ?c" if "d \<in> set (ib_removed_events ib)" for d
      using last_before [OF _ _ c that] inv by (simp add: inbox_inv_unfold)
    moreover have "ib_next_cursor_to_add ib \<le> ?c" if "ib_removed_events ib = []"
      using inv that ds c Nil cursor_succ_le_iff [of "cursor_from (last ds)" "ib_next_cursor_to_add ib" ?c]
      by (cases "ds = []") (auto simp: inbox_inv_unfold)
    ultimately show ?thesis using inv nc
      by (auto simp: inbox_inv_unfold ib' sorted_wrt_append hd_append)
  next
    case (Cons p ps)
    then have ib': "e = p" "ib' = ib\<lparr>ib_added_events := ps, ib_next_cursor_to_remove := nc\<rparr>"
      using ok nc rest by (auto simp: remove_event_Ok_iff)
    show ?thesis using inv nc ds Cons ib' cursor_succ_le_iff [OF nc]
      by (cases ps) (auto simp: inbox_inv_unfold sorted_wrt_append)
  qed
qed

section \<open>The history of an inbox\<close>

text \<open>
  \<open>inbox_run A R ib\<close>: the inbox \<open>ib\<close> is reached from the empty one by adding the events
  \<open>A\<close> and removing the events \<open>R\<close>, interleaved in any way.
\<close>

inductive inbox_run :: "Event list \<Rightarrow> Event list \<Rightarrow> InboxState \<Rightarrow> bool" where
  run_start: "inbox_run [] [] inbox_default"
| run_add: "inbox_run A R ib \<Longrightarrow> add_event ib e = Ok ib' \<Longrightarrow> inbox_run (A @ [e]) R ib'"
| run_remove: "inbox_run A R ib \<Longrightarrow> remove_event ib e = Ok ib' \<Longrightarrow> inbox_run A (R @ [e]) ib'"

lemma inbox_run_inv: "inbox_run A R ib \<Longrightarrow> inbox_inv ib"
  by (induction rule: inbox_run.induct) (auto intro: inbox_inv_default add_event_inv remove_event_inv)

text \<open>The added events \<open>A0\<close> and the removed events \<open>R0\<close> are settled with one another.\<close>

definition settled :: "Event list \<Rightarrow> Event list \<Rightarrow> bool" where
  "settled A0 R0 \<longleftrightarrow> subseq R0 A0 \<and>
     filter (\<lambda>e. \<not> ev_is_skippable e) A0 = filter (\<lambda>e. \<not> ev_is_skippable e) R0"

lemma settled_simps [simp]:
  "settled [] []"
  "settled A0 R0 \<Longrightarrow> settled (A0 @ [e]) (R0 @ [e])"
  by (auto simp: settled_def)

lemma settled_skip: "settled A0 R0 \<Longrightarrow> \<forall>d \<in> set ds. ev_is_skippable d \<Longrightarrow> settled (A0 @ ds) R0"
  by (auto simp: settled_def subseq_rev_drop_many filter_empty_conv)

definition accounted :: "Event list \<Rightarrow> Event list \<Rightarrow> InboxState \<Rightarrow> bool" where
  "accounted A R ib \<longleftrightarrow> (\<exists>A0 R0. A = A0 @ ib_added_events ib \<and> R = R0 @ ib_removed_events ib \<and> settled A0 R0)"

lemma accountedI: "settled A0 R0 \<Longrightarrow> A = A0 @ ib_added_events ib \<Longrightarrow> R = R0 @ ib_removed_events ib \<Longrightarrow>
    accounted A R ib"
  by (auto simp: accounted_def)

lemma add_event_accounted:
  assumes inv: "inbox_inv ib" and acc: "accounted A R ib" and ok: "add_event ib e = Ok ib'"
  shows "accounted (A @ [e]) R ib'"
proof -
  obtain A0 R0 where h: "A = A0 @ ib_added_events ib" "R = R0 @ ib_removed_events ib" "settled A0 R0"
    using acc by (auto simp: accounted_def)
  show ?thesis
  proof (cases "ib_removed_events ib")
    case Nil
    with ok h show ?thesis by (intro accountedI [OF h(3)]) (auto simp: add_event_Ok_iff)
  next
    case (Cons p ps)
    then have none: "ib_added_events ib = []" using inv by (simp add: inbox_inv_unfold)
    from ok Cons consider "e = p" "ib_added_events ib' = []" "ib_removed_events ib' = ps"
      | "ev_is_skippable e" "ib_added_events ib' = []" "ib_removed_events ib' = p # ps"
      using none by (auto simp: add_event_Ok_iff)
    then show ?thesis
    proof cases
      case 1
      with h none Cons show ?thesis by (intro accountedI [of "A0 @ [e]" "R0 @ [e]"]) auto
    next
      case 2
      with h none Cons show ?thesis by (intro accountedI [of "A0 @ [e]" R0]) (auto intro: settled_skip)
    qed
  qed
qed

lemma remove_event_accounted:
  assumes inv: "inbox_inv ib" and acc: "accounted A R ib" and ok: "remove_event ib e = Ok ib'"
  shows "accounted A (R @ [e]) ib'"
proof -
  obtain A0 R0 where h: "A = A0 @ ib_added_events ib" "R = R0 @ ib_removed_events ib" "settled A0 R0"
    using acc by (auto simp: accounted_def)
  obtain rest where rest: "discard_lower (cursor_from e) (ib_added_events ib) = Ok rest"
    using ok by (auto simp: remove_event_Ok_iff)
  obtain ds where ds: "ib_added_events ib = ds @ rest" "\<forall>d \<in> set ds. ev_is_skippable d"
    using discard_lower_Ok [OF rest] by auto
  have s: "settled (A0 @ ds) R0" using h(3) ds(2) by (rule settled_skip)
  show ?thesis
  proof (cases rest)
    case Nil
    with ok h ds rest show ?thesis by (intro accountedI [OF s]) (auto simp: remove_event_Ok_iff)
  next
    case (Cons p ps)
    then have none: "ib_removed_events ib = []" using inv ds by (auto simp: inbox_inv_unfold)
    have "e = p" "ib_added_events ib' = ps" "ib_removed_events ib' = []"
      using ok rest Cons none by (auto simp: remove_event_Ok_iff)
    with h ds Cons none settled_simps(2) [OF s] show ?thesis
      by (intro accountedI [of "(A0 @ ds) @ [e]" "R0 @ [e]"]) auto
  qed
qed

lemma inbox_run_accounted: "inbox_run A R ib \<Longrightarrow> accounted A R ib"
proof (induction rule: inbox_run.induct)
  case run_start
  then show ?case by (intro accountedI [of "[]" "[]"]) (auto simp: inbox_default_def)
qed (auto intro: add_event_accounted remove_event_accounted inbox_run_inv)

text \<open>Exactly when an event can be removed.\<close>

lemma discard_lower_rest:
  assumes "sorted_wrt (<) (cursors es)" "discard_lower c es = Ok rest"
  shows "rest = filter (\<lambda>d. c \<le> cursor_from d) es"
  using assms
proof (induction c es rule: discard_lower.induct)
  case (2 c e es)
  have "filter (\<lambda>d. c \<le> cursor_from d) es = es" if "c \<le> cursor_from e"
    using that 2(2) by (auto simp: filter_id_conv)
  with 2 show ?case by (cases "c \<le> cursor_from e") auto
qed auto

lemma removable_rest:
  assumes "sorted_wrt (<) (cursors es)"
  shows "(case filter (\<lambda>d. cursor_from e \<le> cursor_from d) es of [] \<Rightarrow> True | p # ps \<Rightarrow> e = p) \<longleftrightarrow>
    e \<in> set es \<or> (\<forall>d \<in> set es. cursor_from d < cursor_from e)"
  using assms
proof (induction es)
  case (Cons d ds)
  have "filter (\<lambda>d. cursor_from e \<le> cursor_from d) ds = ds" if "cursor_from e \<le> cursor_from d"
    using that Cons(2) by (auto simp: filter_id_conv)
  with Cons show ?case by (auto simp: not_le not_less)
qed auto

lemma inbox_inv_beyond:
  assumes inv: "inbox_inv ib" and c: "ib_next_cursor_to_remove ib \<le> c"
  shows "(\<forall>d \<in> set (ib_added_events ib). cursor_from d < c) \<longleftrightarrow> ib_next_cursor_to_add ib \<le> c"
proof (cases "ib_added_events ib = []")
  case True
  have "ib_next_cursor_to_add ib \<le> ib_next_cursor_to_remove ib"
  proof (cases "ib_removed_events ib = []")
    case False
    then have "ib_next_cursor_to_add ib \<le> cursor_from (last (ib_removed_events ib))"
      using inv sorted_last_greatest [of "ib_removed_events ib" "hd (ib_removed_events ib)"]
      by (auto simp: inbox_inv_unfold)
    also have "\<dots> < ib_next_cursor_to_remove ib"
      using inv False by (intro cursor_less_succ) (simp add: inbox_inv_unfold)
    finally show ?thesis by simp
  qed (use inv True in \<open>simp add: inbox_inv_unfold\<close>)
  with True c show ?thesis by auto
next
  case False
  with inv have s: "sorted_wrt (<) (cursors (ib_added_events ib))"
    and n: "cursor_try_add_one (cursor_from (last (ib_added_events ib))) = Ok (ib_next_cursor_to_add ib)"
    by (auto simp: inbox_inv_unfold)
  show ?thesis using False last_before [OF s, of "ib_next_cursor_to_add ib" c] cursor_succ_le_iff [OF n, of c] n
    by auto
qed

section \<open>Properties\<close>

text \<open>
  C8. Whatever the interleaving of arrivals and executions, the events that arrived and the
  events that were executed agree: what arrived is a settled part followed by the events still
  waiting, what was executed is a settled part followed by the events executed ahead of their
  arrival, at most one of the two queues is non-empty, and in the settled parts the executed
  events are the arrived ones, in the same order, except for skippable ones. No unskippable
  event is lost, duplicated or reordered.
\<close>

theorem inbox_reconciles:
  assumes "inbox_run A R ib"
  shows "\<exists>A0 R0. A = A0 @ ib_added_events ib \<and> R = R0 @ ib_removed_events ib \<and>
    (ib_added_events ib = [] \<or> ib_removed_events ib = []) \<and> subseq R0 A0 \<and>
    filter (\<lambda>e. \<not> ev_is_skippable e) A0 = filter (\<lambda>e. \<not> ev_is_skippable e) R0"
  using inbox_run_accounted [OF assms] inbox_run_inv [OF assms]
  by (auto simp: accounted_def settled_def inbox_inv_unfold)

text \<open>
  C9. In a reachable inbox an event is accepted for execution exactly when it does not go back
  in the order of cursors, the events waiting before it may all be skipped, and it is either
  one of the waiting events or one that cannot have arrived yet (and its index has a successor).
  In particular an execution that contradicts what arrived is refused.
\<close>

theorem remove_event_accepts_iff:
  assumes "inbox_run A R ib"
  shows "(\<exists>ib'. remove_event ib e = Ok ib') \<longleftrightarrow>
    ib_next_cursor_to_remove ib \<le> cursor_from e \<and> ev_index e \<noteq> max_value \<and>
    (\<forall>d \<in> set (ib_added_events ib). cursor_from d < cursor_from e \<longrightarrow> ev_is_skippable d) \<and>
    (e \<in> set (ib_added_events ib) \<or> ib_next_cursor_to_add ib \<le> cursor_from e)"
proof -
  have inv: "inbox_inv ib" using assms by (rule inbox_run_inv)
  then have s: "sorted_wrt (<) (cursors (ib_added_events ib))" by (simp add: inbox_inv_unfold)
  let ?es = "ib_added_events ib" and ?c = "cursor_from e"
  have succ: "(\<exists>nc. cursor_try_add_one ?c = Ok nc) \<longleftrightarrow> ev_index e \<noteq> max_value"
    by (simp only: cursor_try_add_one_total cursor_from_def snd_conv)
  have found: "(case rest of [] \<Rightarrow> True | p # ps \<Rightarrow> e = p) \<longleftrightarrow>
      e \<in> set ?es \<or> (\<forall>d \<in> set ?es. cursor_from d < ?c)" if "discard_lower ?c ?es = Ok rest" for rest
    unfolding discard_lower_rest [OF s that] using s by (rule removable_rest)
  have "(\<exists>ib'. remove_event ib e = Ok ib') \<longleftrightarrow> ib_next_cursor_to_remove ib \<le> ?c \<and>
      (\<exists>nc. cursor_try_add_one ?c = Ok nc) \<and>
      (\<exists>rest. discard_lower ?c ?es = Ok rest \<and> (case rest of [] \<Rightarrow> True | p # ps \<Rightarrow> e = p))"
  proof (cases "discard_lower ?c ?es")
    case (Ok rest)
    then show ?thesis by (cases rest) (auto simp: remove_event_Ok_iff)
  qed (auto simp: remove_event_Ok_iff)
  also have "\<dots> \<longleftrightarrow> ib_next_cursor_to_remove ib \<le> ?c \<and> ev_index e \<noteq> max_value \<and>
      (\<exists>rest. discard_lower ?c ?es = Ok rest) \<and>
      (e \<in> set ?es \<or> (\<forall>d \<in> set ?es. cursor_from d < ?c))"
    using succ found by blast
  also have "\<dots> \<longleftrightarrow> ib_next_cursor_to_remove ib \<le> ?c \<and> ev_index e \<noteq> max_value \<and>
      (\<forall>d \<in> set ?es. cursor_from d < ?c \<longrightarrow> ev_is_skippable d) \<and>
      (e \<in> set ?es \<or> ib_next_cursor_to_add ib \<le> ?c)"
    using inbox_inv_beyond [OF inv, of ?c] by (auto simp: discard_lower_Ok_iff [OF s])
  finally show ?thesis .
qed

text \<open>Instances: a skippable event arrives and is passed over by the execution of a later one
  that has not arrived yet.\<close>

definition ex_event :: "u32 \<Rightarrow> bool \<Rightarrow> Event" where
  "ex_event i b = \<lparr>ev_certificate_hash = 0, ev_height = 3, ev_index = i, ev_authenticated_signer = None,
     ev_is_skippable = b, ev_timestamp = 0, ev_message = Message_System Msg_ApplicationCreated\<rparr>"

definition ex_inbox1 :: InboxState where
  "ex_inbox1 = \<lparr>ib_next_cursor_to_add = (3, 1), ib_next_cursor_to_remove = (0, 0),
     ib_added_events = [ex_event 0 True], ib_removed_events = []\<rparr>"

definition ex_inbox2 :: InboxState where
  "ex_inbox2 = \<lparr>ib_next_cursor_to_add = (3, 1), ib_next_cursor_to_remove = (3, 3),
     ib_added_events = [], ib_removed_events = [ex_event 2 False]\<rparr>"

lemmas ex_inbox_defs = ex_inbox1_def ex_inbox2_def ex_event_def inbox_default_def cursor_from_def

lemma ex_inbox_run1: "inbox_run [ex_event 0 True] [] ex_inbox1"
proof -
  have "add_event inbox_default (ex_event 0 True) = Ok ex_inbox1"
    by (auto simp: add_event_Ok_iff cursor_try_add_one_Ok_iff ex_inbox_defs less_eq_prod_def intro!: exI [of _ "(3, 1)"])
  from run_add [OF run_start this] show ?thesis by simp
qed

lemma ex_inbox_remove: "remove_event ex_inbox1 (ex_event 2 False) = Ok ex_inbox2"
  by (auto simp: remove_event_Ok_iff cursor_try_add_one_Ok_iff ex_inbox_defs less_eq_prod_def word_le_nat_alt
      word_less_nat_alt intro!: exI [of _ "(3, 3)"])

theorem inbox_reconciles_witness:
  "inbox_run [ex_event 0 True] [ex_event 2 False] ex_inbox2 \<and>
   (\<exists>A0 R0. [ex_event 0 True] = A0 @ ib_added_events ex_inbox2 \<and>
     [ex_event 2 False] = R0 @ ib_removed_events ex_inbox2 \<and> subseq R0 A0)"
proof -
  have run: "inbox_run [ex_event 0 True] [ex_event 2 False] ex_inbox2"
    using run_remove [OF ex_inbox_run1 ex_inbox_remove] by simp
  show ?thesis using inbox_reconciles [OF run] run by blast
qed

theorem remove_event_accepts_iff_witness:
  "inbox_run [ex_event 0 True] [] ex_inbox1 \<and>
   (\<exists>ib'. remove_event ex_inbox1 (ex_event 2 False) = Ok ib') \<and>
   \<not> (\<exists>ib'. remove_event ex_inbox1 (ex_event 0 False) = Ok ib')"
  using remove_event_accepts_iff [OF ex_inbox_run1, of "ex_event 2 False"]
    remove_event_accepts_iff [OF ex_inbox_run1, of "ex_event 0 False"] ex_inbox_run1 ex_inbox_remove
  by (auto simp: ex_inbox_defs less_eq_prod_def)

end
