(* ===== verification/Applications.thy ===== *)
theory Applications
  imports Execution_Types "HOL-Library.AList" "HOL-Library.List_Lexorder"
begin

text \<open>
  \<open>linera-execution/src/applications.rs\<close>: the registry of the bytecodes and applications known
  to a chain. A map view is the association list of its contents; listing it goes by the
  serialised keys, so the serialisation of the keys is a parameter. The main results are that
  the search for dependencies returns, that it fails exactly on an unknown dependency, and
  that it lists every application after those it requires.
\<close>

record ApplicationRegistryView =
  ar_published_bytecodes :: "(BytecodeId \<times> BytecodeLocation) list"
  ar_known_applications :: "(UserApplicationId \<times> UserApplicationDescription) list"

type_synonym AppMap = "(UserApplicationId \<times> UserApplicationDescription) list"

definition registry_default :: ApplicationRegistryView where
  "registry_default = \<lparr>ar_published_bytecodes = [], ar_known_applications = []\<rparr>"

text \<open>\<open>for_each_index_value\<close> of a map view: by increasing serialised key.\<close>

definition map_view_index_values :: "('k \<Rightarrow> bytes) \<Rightarrow> ('k \<times> 'v) list \<Rightarrow> ('k \<times> 'v) list" where
  "map_view_index_values serialize m = sort_key (serialize \<circ> fst) m"

definition registry_import ::
    "ApplicationRegistryView \<Rightarrow> (BytecodeId, BytecodeLocation) BTreeMap \<Rightarrow>
     (UserApplicationId, UserApplicationDescription) BTreeMap \<Rightarrow> ApplicationRegistryView" where
  "registry_import self published_bytecodes known_applications =
     (let self = fold (\<lambda>(aid, location) self.
            self\<lparr>ar_published_bytecodes := AList.update aid location (ar_published_bytecodes self)\<rparr>)
            published_bytecodes self
      in fold (\<lambda>(aid, description) self.
            self\<lparr>ar_known_applications := AList.update aid description (ar_known_applications self)\<rparr>)
            known_applications self)"

definition register_published_bytecode ::
    "ApplicationRegistryView \<Rightarrow> BytecodeId \<Rightarrow> BytecodeLocation \<Rightarrow> ApplicationRegistryView" where
  "register_published_bytecode self aid location =
     self\<lparr>ar_published_bytecodes := AList.update aid location (ar_published_bytecodes self)\<rparr>"

definition bytecode_locations ::
    "(BytecodeId \<Rightarrow> bytes) \<Rightarrow> ApplicationRegistryView \<Rightarrow> (BytecodeId \<times> BytecodeLocation) list" where
  "bytecode_locations serialize self = map_view_index_values serialize (ar_published_bytecodes self)"

definition bytecode_location_for :: "ApplicationRegistryView \<Rightarrow> BytecodeId \<Rightarrow> BytecodeLocation option" where
  "bytecode_location_for self aid = map_of (ar_published_bytecodes self) aid"

definition describe_application ::
    "ApplicationRegistryView \<Rightarrow> UserApplicationId \<Rightarrow> (SystemExecutionError, UserApplicationDescription) result" where
  "describe_application self aid = ok_or (UnknownApplicationId aid) (map_of (ar_known_applications self) aid)"

definition check_required ::
    "ApplicationRegistryView \<Rightarrow> UserApplicationId list \<Rightarrow> (SystemExecutionError, unit) result" where
  "check_required self required_application_ids =
     try_fold (\<lambda>_ required_id. map_ok (\<lambda>_. ()) (describe_application self required_id)) ()
       required_application_ids"

definition register_application ::
    "ApplicationRegistryView \<Rightarrow> UserApplicationDescription \<Rightarrow>
     (SystemExecutionError, ApplicationRegistryView \<times> UserApplicationId) result" where
  "register_application self application =
     and_then (check_required self (uad_required_application_ids application)) (\<lambda>_.
       let aid = application_id_from application
       in Ok (self\<lparr>ar_known_applications := AList.update aid application (ar_known_applications self)\<rparr>, aid))"

definition register_new_application ::
    "ApplicationRegistryView \<Rightarrow> UserApplicationId \<Rightarrow> bytes \<Rightarrow> UserApplicationId list \<Rightarrow>
     (SystemExecutionError, ApplicationRegistryView) result" where
  "register_new_application self application_id parameters required_application_ids =
     and_then (check_required self required_application_ids) (\<lambda>_.
       case application_id of ApplicationId bytecode_id creation \<Rightarrow>
         and_then (ok_or (UnknownBytecodeId bytecode_id) (map_of (ar_published_bytecodes self) bytecode_id))
           (\<lambda>bytecode_location.
             let description = \<lparr>uad_bytecode_id = bytecode_id, uad_bytecode_location = bytecode_location,
                   uad_creation = creation, uad_parameters = parameters,
                   uad_required_application_ids = required_application_ids\<rparr>
             in Ok (self\<lparr>ar_known_applications :=
                   AList.update application_id description (ar_known_applications self)\<rparr>)))"

text \<open>
  The loop of \<open>find_dependencies\<close>. The stack is written with its top first; \<open>registered_apps\<close>
  is consulted before the registry.
\<close>

definition lookup_app ::
    "ApplicationRegistryView \<Rightarrow> AppMap \<Rightarrow> UserApplicationId \<Rightarrow> (SystemExecutionError, UserApplicationDescription) result" where
  "lookup_app self registered_apps aid =
     (case map_of registered_apps aid of Some app \<Rightarrow> Ok app | None \<Rightarrow> describe_application self aid)"

definition push_unseen :: "UserApplicationId set \<Rightarrow> UserApplicationId list \<Rightarrow> UserApplicationId list \<Rightarrow> UserApplicationId list" where
  "push_unseen seen required stack =
     fold (\<lambda>child stack. if child \<in> seen then stack else child # stack) (rev required) stack"

lemma lookup_app_Ok_dom:
  "lookup_app self apps aid = Ok app \<Longrightarrow> aid \<in> fst ` set apps \<union> fst ` set (ar_known_applications self)"
  by (auto simp: lookup_app_def describe_application_def map_of_eq_None_iff dest: map_of_SomeD
      split: option.splits intro: rev_image_eqI)

function (sequential) find_dependencies_loop ::
    "ApplicationRegistryView \<Rightarrow> AppMap \<Rightarrow> UserApplicationId list \<Rightarrow> UserApplicationId list \<Rightarrow>
     UserApplicationId set \<Rightarrow> UserApplicationId set \<Rightarrow> (SystemExecutionError, UserApplicationId list) result" where
  "find_dependencies_loop self apps [] result sorted_ids seen = Ok result"
| "find_dependencies_loop self apps (aid # stack) result sorted_ids seen =
     (if aid \<in> sorted_ids then find_dependencies_loop self apps stack result sorted_ids seen
      else if aid \<in> seen then
        find_dependencies_loop self apps stack (result @ [aid]) (insert aid sorted_ids) seen
      else (case lookup_app self apps aid of
          Ok app \<Rightarrow> find_dependencies_loop self apps
            (push_unseen (insert aid seen) (uad_required_application_ids app) (aid # stack))
            result sorted_ids (insert aid seen)
        | Err e \<Rightarrow> Err e
        | Panic \<Rightarrow> Panic))"
  by pat_completeness auto

termination
proof (relation "measures [\<lambda>(self, apps, stack, result, sorted_ids, seen).
      card (fst ` set apps \<union> fst ` set (ar_known_applications self) - seen),
    \<lambda>(self, apps, stack, result, sorted_ids, seen). length stack]", goal_cases)
  case (4 self apps aid stack result sorted_ids seen app)
  let ?D = "fst ` set apps \<union> fst ` set (ar_known_applications self)"
  have "aid \<in> ?D - seen" using 4 lookup_app_Ok_dom by blast
  then have "card (?D - insert aid seen) < card (?D - seen)"
    by (intro psubset_card_mono) auto
  then show ?case by simp
qed auto

definition find_dependencies ::
    "ApplicationRegistryView \<Rightarrow> UserApplicationId list \<Rightarrow> AppMap \<Rightarrow> (SystemExecutionError, UserApplicationId list) result" where
  "find_dependencies self stack registered_apps =
     find_dependencies_loop self registered_apps (rev stack) [] {} {}"

definition describe_applications_with_dependencies ::
    "ApplicationRegistryView \<Rightarrow> UserApplicationId list \<Rightarrow> AppMap \<Rightarrow>
     (SystemExecutionError, UserApplicationDescription list) result" where
  "describe_applications_with_dependencies self ids extra_registered_apps =
     and_then (find_dependencies self ids extra_registered_apps) (\<lambda>ids_with_deps.
       try_fold (\<lambda>result aid. map_ok (\<lambda>description. result @ [description])
           (lookup_app self extra_registered_apps aid))
         [] ids_with_deps)"

section \<open>The search for dependencies\<close>

lemma push_unseen_eq: "push_unseen seen required stack = filter (\<lambda>c. c \<notin> seen) required @ stack"
  unfolding push_unseen_def foldr_conv_fold [symmetric] by (induction required) auto

definition requires :: "ApplicationRegistryView \<Rightarrow> AppMap \<Rightarrow> (UserApplicationId \<times> UserApplicationId) set" where
  "requires self apps = {(a, c). \<exists>app. lookup_app self apps a = Ok app \<and> c \<in> set (uad_required_application_ids app)}"

definition needed :: "ApplicationRegistryView \<Rightarrow> AppMap \<Rightarrow> UserApplicationId list \<Rightarrow> UserApplicationId set" where
  "needed self apps ids = (requires self apps)\<^sup>* `` set ids"

text \<open>An entry whose dependencies were pushed stays on the stack below them until they are sorted.\<close>

definition open_entry :: "UserApplicationId list \<Rightarrow> UserApplicationId set \<Rightarrow> UserApplicationId set \<Rightarrow>
    UserApplicationId list \<Rightarrow> UserApplicationId \<Rightarrow> bool" where
  "open_entry stack sorted_ids seen xs y \<longleftrightarrow>
     (\<exists>ys. stack = xs @ y # ys) \<and> y \<notin> set xs \<and> y \<in> seen - sorted_ids"

definition search_inv where
  "search_inv self apps ids stack result sorted_ids seen \<longleftrightarrow>
     set result = sorted_ids \<and> distinct result \<and> sorted_ids \<subseteq> seen \<and>
     seen \<subseteq> sorted_ids \<union> set stack \<and> set ids \<subseteq> sorted_ids \<union> set stack \<and>
     (\<forall>(a, c) \<in> requires self apps. a \<in> seen \<longrightarrow> c \<in> sorted_ids \<union> set stack) \<and>
     seen \<union> set stack \<subseteq> needed self apps ids \<and>
     (\<forall>a \<in> seen. \<exists>app. lookup_app self apps a = Ok app)"

definition stack_inv where
  "stack_inv R stack sorted_ids seen \<longleftrightarrow>
     (\<forall>xs y. open_entry stack sorted_ids seen xs y \<longrightarrow>
        (\<forall>z \<in> set xs. (y, z) \<in> R\<^sup>+) \<and> R `` {y} \<subseteq> sorted_ids \<union> set xs)"

definition topological :: "('a \<times> 'a) set \<Rightarrow> 'a list \<Rightarrow> bool" where
  "topological R result \<longleftrightarrow> (\<forall>xs y ys. result = xs @ y # ys \<longrightarrow> R `` {y} \<subseteq> set xs)"

lemma needed_closed: "x \<in> needed self apps ids \<Longrightarrow> (x, c) \<in> requires self apps \<Longrightarrow> c \<in> needed self apps ids"
  by (auto simp: needed_def intro: rtrancl_into_rtrancl)

lemma search_inv_start: "search_inv self apps ids (rev ids) [] {} {}"
  by (auto simp: search_inv_def needed_def)

lemma search_inv_skip:
  "search_inv self apps ids (x # stack) result sorted_ids seen \<Longrightarrow> x \<in> sorted_ids \<Longrightarrow>
   search_inv self apps ids stack result sorted_ids seen"
  by (auto simp: search_inv_def)

lemma search_inv_close:
  "search_inv self apps ids (x # stack) result sorted_ids seen \<Longrightarrow> x \<notin> sorted_ids \<Longrightarrow> x \<in> seen \<Longrightarrow>
   search_inv self apps ids stack (result @ [x]) (insert x sorted_ids) seen"
  by (auto simp: search_inv_def)

lemma search_inv_open:
  assumes "search_inv self apps ids (x # stack) result sorted_ids seen" "x \<notin> seen" "lookup_app self apps x = Ok app"
  shows "search_inv self apps ids (push_unseen (insert x seen) (uad_required_application_ids app) (x # stack))
     result sorted_ids (insert x seen)"
proof -
  have "c \<in> set (uad_required_application_ids app) \<longleftrightarrow> (x, c) \<in> requires self apps" for c
    using assms(3) by (auto simp: requires_def)
  then show ?thesis using assms needed_closed [of x]
    by (auto simp: search_inv_def push_unseen_eq)
qed

lemma find_dependencies_loop_Ok:
  "search_inv self apps ids stack result sorted_ids seen \<Longrightarrow>
   find_dependencies_loop self apps stack result sorted_ids seen = Ok r \<Longrightarrow>
   search_inv self apps ids [] r (set r) (set r)"
proof (induction self apps stack result sorted_ids seen rule: find_dependencies_loop.induct)
  case (1 self apps result sorted_ids seen)
  then show ?case by (auto simp: search_inv_def)
next
  case (2 self apps x stack result sorted_ids seen)
  show ?case using 2 search_inv_skip search_inv_close search_inv_open
    by (auto split: if_splits result.splits)
qed

lemma find_dependencies_loop_Err:
  "search_inv self apps ids stack result sorted_ids seen \<Longrightarrow>
   find_dependencies_loop self apps stack result sorted_ids seen = Err e \<Longrightarrow>
   \<exists>x \<in> needed self apps ids. lookup_app self apps x = Err e"
proof (induction self apps stack result sorted_ids seen rule: find_dependencies_loop.induct)
  case (2 self apps x stack result sorted_ids seen)
  have "x \<in> needed self apps ids" using 2(4) by (auto simp: search_inv_def)
  then show ?case using 2 search_inv_skip search_inv_close search_inv_open
    by (auto split: if_splits result.splits)
qed simp

lemma lookup_app_Err_iff: "lookup_app self apps x = Err e \<longleftrightarrow>
    e = UnknownApplicationId x \<and> (\<nexists>app. lookup_app self apps x = Ok app)"
  by (auto simp: lookup_app_def describe_application_def split: option.splits)

lemma lookup_app_no_panic: "lookup_app self apps x \<noteq> Panic"
  by (auto simp: lookup_app_def describe_application_def split: option.splits)

lemma find_dependencies_loop_no_panic:
  "find_dependencies_loop self apps stack result sorted_ids seen \<noteq> Panic"
  by (induction self apps stack result sorted_ids seen rule: find_dependencies_loop.induct)
    (auto simp: lookup_app_no_panic split: result.splits)

section \<open>The order of dependencies\<close>

lemma split_after:
  "y \<notin> set ps \<Longrightarrow> ps @ qs = xs @ y # ys \<Longrightarrow> \<exists>xs'. xs = ps @ xs' \<and> qs = xs' @ y # ys"
  by (induction ps arbitrary: xs) (auto simp: Cons_eq_append_conv)

lemma stack_invD:
  "stack_inv R stack sorted_ids seen \<Longrightarrow> open_entry stack sorted_ids seen xs y \<Longrightarrow>
   (\<forall>z \<in> set xs. (y, z) \<in> R\<^sup>+) \<and> R `` {y} \<subseteq> sorted_ids \<union> set xs"
  by (simp add: stack_inv_def)

lemma open_entry_Cons:
  "open_entry stack sorted' seen xs y \<Longrightarrow> y \<noteq> x \<Longrightarrow> sorted_ids \<subseteq> sorted' \<Longrightarrow>
   open_entry (x # stack) sorted_ids seen (x # xs) y"
  by (auto simp: open_entry_def)

lemma stack_inv_pop:
  assumes inv: "stack_inv R (x # stack) sorted_ids seen"
  shows "stack_inv R stack (insert x sorted_ids) seen"
  unfolding stack_inv_def
proof (intro allI impI)
  fix xs y
  assume e: "open_entry stack (insert x sorted_ids) seen xs y"
  then have "y \<noteq> x" by (auto simp: open_entry_def)
  from open_entry_Cons [OF e this, of sorted_ids] inv
  show "(\<forall>z \<in> set xs. (y, z) \<in> R\<^sup>+) \<and> R `` {y} \<subseteq> insert x sorted_ids \<union> set xs"
    by (force simp: stack_inv_def)
qed

lemma stack_inv_open:
  assumes inv: "stack_inv R (x # stack) sorted_ids seen" and new: "x \<notin> seen"
    and cs: "cs = filter (\<lambda>c. c \<notin> insert x seen) req" "R `` {x} = set req"
    and ac: "acyclic R" and seen: "seen \<subseteq> sorted_ids \<union> set (x # stack)"
  shows "stack_inv R (cs @ x # stack) sorted_ids (insert x seen)"
  unfolding stack_inv_def
proof (intro allI impI)
  fix xs y
  assume "open_entry (cs @ x # stack) sorted_ids (insert x seen) xs y"
  then obtain ys where st: "cs @ x # stack = xs @ y # ys" and y: "y \<notin> set xs" "y \<in> insert x seen" "y \<notin> sorted_ids"
    by (auto simp: open_entry_def)
  obtain xs' where xs: "xs = cs @ xs'" "x # stack = xs' @ y # ys"
    using split_after [OF _ st] y(2) cs(1) by auto
  show "(\<forall>z \<in> set xs. (y, z) \<in> R\<^sup>+) \<and> R `` {y} \<subseteq> sorted_ids \<union> set xs"
  proof (cases "y = x")
    case True
    have "xs' = []" using xs y(1) True by (cases xs') auto
    moreover have "c \<in> sorted_ids" if c: "(x, c) \<in> R" "c \<in> insert x seen" for c
    proof (rule ccontr)
      assume nc: "c \<notin> sorted_ids"
      have "c \<noteq> x" using ac c(1) by (auto simp: acyclic_def)
      then have "c \<in> seen" "c \<in> set stack" using c(2) nc seen by auto
      then obtain us vs where "stack = us @ c # vs" "c \<notin> set us" by (meson split_list_first)
      then have "open_entry (x # stack) sorted_ids seen (x # us) c"
        using nc \<open>c \<noteq> x\<close> \<open>c \<in> seen\<close> by (auto simp: open_entry_def)
      then have "(c, x) \<in> R\<^sup>+" using inv by (auto simp: stack_inv_def)
      then show False using ac c(1) by (meson acyclic_def trancl_into_trancl2)
    qed
    ultimately show ?thesis using True xs cs by auto
  next
    case False
    then obtain us where us: "xs' = x # us" "stack = us @ y # ys" using xs(2) by (cases xs') auto
    have "open_entry (x # stack) sorted_ids seen (x # us) y"
      using us y False xs(1) by (auto simp: open_entry_def)
    then have above: "(y, x) \<in> R\<^sup>+" "\<forall>z \<in> set us. (y, z) \<in> R\<^sup>+" "R `` {y} \<subseteq> sorted_ids \<union> set (x # us)"
      using stack_invD [OF inv, of "x # us" y] by simp_all
    have "(y, c) \<in> R\<^sup>+" if "c \<in> set cs" for c
      using above(1) that cs by (auto intro: trancl_into_trancl)
    with above show ?thesis using xs(1) us(1) by auto
  qed
qed

lemma topological_snoc: "topological R result \<Longrightarrow> R `` {x} \<subseteq> set result \<Longrightarrow> topological R (result @ [x])"
  by (fastforce simp: topological_def append_eq_append_conv2 Cons_eq_append_conv append_eq_Cons_conv)

lemma find_dependencies_loop_topological:
  "search_inv self apps ids stack result sorted_ids seen \<Longrightarrow>
   stack_inv (requires self apps) stack sorted_ids seen \<Longrightarrow> topological (requires self apps) result \<Longrightarrow>
   acyclic (requires self apps) \<Longrightarrow>
   find_dependencies_loop self apps stack result sorted_ids seen = Ok r \<Longrightarrow>
   topological (requires self apps) r"
proof (induction self apps stack result sorted_ids seen rule: find_dependencies_loop.induct)
  case (2 self apps x stack result sorted_ids seen)
  note IH = "2.IH" and prems = "2.prems"
  consider "x \<in> sorted_ids" | "x \<notin> sorted_ids" "x \<in> seen" | "x \<notin> sorted_ids" "x \<notin> seen" by blast
  then show ?case
  proof cases
    case 1
    with IH(1) prems show ?thesis using search_inv_skip stack_inv_pop [OF prems(2)] by (simp add: insert_absorb)
  next
    case 2
    have "open_entry (x # stack) sorted_ids seen [] x" using 2 by (auto simp: open_entry_def)
    then have "requires self apps `` {x} \<subseteq> set result"
      using stack_invD [OF prems(2)] prems(1) by (fastforce simp: search_inv_def)
    then have "topological (requires self apps) (result @ [x])" using prems(3) by (intro topological_snoc)
    with 2 prems IH(2) show ?thesis using search_inv_close stack_inv_pop by simp
  next
    case 3
    then obtain app where app: "lookup_app self apps x = Ok app" using prems(5) by (auto split: result.splits)
    have req: "requires self apps `` {x} = set (uad_required_application_ids app)"
      using app by (auto simp: requires_def)
    have "seen \<subseteq> sorted_ids \<union> set (x # stack)" using prems(1) by (simp add: search_inv_def)
    note st = stack_inv_open [OF prems(2) 3(2) refl req prems(4) this]
    show ?thesis
      using IH(3) [OF 3 app search_inv_open [OF prems(1) 3(2) app] _ prems(3,4)] st prems(5) 3 app
      by (simp add: push_unseen_eq)
  qed
qed simp

section \<open>Registries that are built by registration\<close>

text \<open>
  The registries of a chain: bytecodes are published, new applications are registered under
  a fresh identifier, and a known application is registered again only with the dependencies it
  was created with.
\<close>

inductive registry_reachable :: "ApplicationRegistryView \<Rightarrow> bool" where
  reg_start: "registry_reachable registry_default"
| reg_bytecode: "registry_reachable self \<Longrightarrow> registry_reachable (register_published_bytecode self i l)"
| reg_known: "registry_reachable self \<Longrightarrow> register_application self application = Ok (self', i) \<Longrightarrow>
    (\<And>d. map_of (ar_known_applications self) i = Some d \<Longrightarrow>
       uad_required_application_ids d = uad_required_application_ids application) \<Longrightarrow>
    registry_reachable self'"
| reg_new: "registry_reachable self \<Longrightarrow> register_new_application self i parameters required = Ok self' \<Longrightarrow>
    map_of (ar_known_applications self) i = None \<Longrightarrow> registry_reachable self'"

definition registry_wf :: "ApplicationRegistryView \<Rightarrow> bool" where
  "registry_wf self \<longleftrightarrow> (\<exists>rank :: UserApplicationId \<Rightarrow> nat. \<forall>a c. (a, c) \<in> requires self [] \<longrightarrow> rank c < rank a) \<and>
     (\<forall>i d. map_of (ar_known_applications self) i = Some d \<longrightarrow>
        application_id_from d = i \<and>
        set (uad_required_application_ids d) \<subseteq> dom (map_of (ar_known_applications self)))"

lemma registry_wf_closed:
  "registry_wf self \<Longrightarrow> map_of (ar_known_applications self) i = Some d \<Longrightarrow>
   x \<in> set (uad_required_application_ids d) \<Longrightarrow> \<exists>y. map_of (ar_known_applications self) x = Some y"
  unfolding registry_wf_def by blast

lemma describe_application_Ok_iff [simp]:
  "describe_application self i = Ok d \<longleftrightarrow> map_of (ar_known_applications self) i = Some d"
  by (simp add: describe_application_def)

lemma requires_no_extra:
  "requires self [] = {(a, c). \<exists>d. map_of (ar_known_applications self) a = Some d \<and>
     c \<in> set (uad_required_application_ids d)}"
  by (simp add: requires_def lookup_app_def)

lemma check_required_Ok_iff:
  "check_required self is = Ok () \<longleftrightarrow> set is \<subseteq> dom (map_of (ar_known_applications self))"
  by (induction "is") (auto simp: check_required_def)

lemma register_application_Ok_iff:
  "register_application self d = Ok (self', i) \<longleftrightarrow>
     set (uad_required_application_ids d) \<subseteq> dom (map_of (ar_known_applications self)) \<and>
     i = application_id_from d \<and>
     self' = self\<lparr>ar_known_applications := AList.update i d (ar_known_applications self)\<rparr>"
  by (auto simp: register_application_def Let_def check_required_Ok_iff)

lemma registry_wf_update:
  assumes wf: "registry_wf self" and i: "application_id_from d = i"
    and req: "set (uad_required_application_ids d) \<subseteq> dom (map_of (ar_known_applications self))"
    and same: "\<And>d'. map_of (ar_known_applications self) i = Some d' \<Longrightarrow>
       uad_required_application_ids d' = uad_required_application_ids d"
  shows "registry_wf (self\<lparr>ar_known_applications := AList.update i d (ar_known_applications self)\<rparr>)"
proof -
  let ?self = "self\<lparr>ar_known_applications := AList.update i d (ar_known_applications self)\<rparr>"
  obtain rank :: "UserApplicationId \<Rightarrow> nat" where rank: "\<And>a c. (a, c) \<in> requires self [] \<Longrightarrow> rank c < rank a"
    using wf by (auto simp: registry_wf_def)
  have "\<exists>rank :: UserApplicationId \<Rightarrow> nat. \<forall>a c. (a, c) \<in> requires ?self [] \<longrightarrow> rank c < rank a"
  proof (cases "map_of (ar_known_applications self) i")
    case None
    let ?rank = "rank(i := Suc (\<Sum>c \<in> set (uad_required_application_ids d). rank c))"
    have "?rank c < ?rank a" if e: "(a, c) \<in> requires ?self []" for a c
    proof -
      have "c \<noteq> i" using e None req wf by (force simp: requires_no_extra update_conv' registry_wf_def split: if_splits)
      then show ?thesis
        using e rank [of a c] member_le_sum [of c "set (uad_required_application_ids d)" rank]
        by (auto simp: requires_no_extra update_conv' split: if_splits)
    qed
    then show ?thesis by blast
  next
    case (Some d')
    then have "requires ?self [] = requires self []"
      using same by (auto simp: requires_no_extra update_conv' split: if_splits)
    then show ?thesis using rank by auto
  qed
  moreover have "application_id_from d' = j" if "map_of (ar_known_applications self) j = Some d'" for j d'
    using wf that by (simp add: registry_wf_def)
  ultimately show ?thesis using i req registry_wf_closed [OF wf]
    unfolding registry_wf_def by (auto simp: update_conv')
qed

lemma registry_wf_acyclic: "registry_wf self \<Longrightarrow> acyclic (requires self [])"
proof -
  assume "registry_wf self"
  then obtain rank :: "UserApplicationId \<Rightarrow> nat" where "\<And>a c. (a, c) \<in> requires self [] \<Longrightarrow> rank c < rank a"
    by (auto simp: registry_wf_def)
  then show ?thesis by (rule acyclicI_order)
qed

lemma registry_reachable_wf: "registry_reachable self \<Longrightarrow> registry_wf self"
proof (induction rule: registry_reachable.induct)
  case reg_start
  then show ?case by (simp add: registry_wf_def registry_default_def requires_no_extra)
next
  case (reg_bytecode self i l)
  then show ?case by (simp add: registry_wf_def requires_no_extra register_published_bytecode_def)
next
  case (reg_known self application self' i)
  then show ?case by (auto simp: register_application_Ok_iff intro: registry_wf_update)
next
  case (reg_new self i parameters required self')
  then show ?case
    by (cases i) (auto simp: register_new_application_def Let_def check_required_Ok_iff application_id_from_def
        intro!: registry_wf_update)
qed

lemma find_dependencies_cases:
  "case find_dependencies self ids apps of
     Ok r \<Rightarrow> distinct r \<and> set r = needed self apps ids \<and>
       (\<forall>x \<in> set r. \<exists>app. lookup_app self apps x = Ok app) \<and>
       (acyclic (requires self apps) \<longrightarrow> topological (requires self apps) r)
   | Err e \<Rightarrow> \<exists>x \<in> needed self apps ids. lookup_app self apps x = Err e
   | Panic \<Rightarrow> False"
proof (cases "find_dependencies self ids apps")
  case (Ok r)
  have inv: "search_inv self apps ids [] r (set r) (set r)"
    using find_dependencies_loop_Ok [OF search_inv_start] Ok by (simp add: find_dependencies_def)
  have "x \<in> set r" if "(i, x) \<in> (requires self apps)\<^sup>*" "i \<in> set ids" for i x
    using that by (induction rule: rtrancl_induct) (use inv in \<open>auto simp: search_inv_def\<close>)
  then have "needed self apps ids \<subseteq> set r" by (auto simp: needed_def)
  moreover have "topological (requires self apps) r" if "acyclic (requires self apps)"
    by (rule find_dependencies_loop_topological [OF search_inv_start _ _ that])
      (use Ok in \<open>auto simp: find_dependencies_def stack_inv_def open_entry_def topological_def\<close>)
  ultimately show ?thesis using Ok inv by (auto simp: search_inv_def)
next
  case (Err e)
  then show ?thesis using find_dependencies_loop_Err [OF search_inv_start] by (simp add: find_dependencies_def)
next
  case Panic
  then show ?thesis by (simp add: find_dependencies_def find_dependencies_loop_no_panic)
qed

lemma try_fold_lookup:
  assumes "\<forall>i \<in> set is. \<exists>app. lookup_app self apps i = Ok app"
  shows "\<exists>ds. try_fold (\<lambda>result i. map_ok (\<lambda>d. result @ [d]) (lookup_app self apps i)) acc is = Ok (acc @ ds) \<and>
    list_all2 (\<lambda>i d. lookup_app self apps i = Ok d) is ds"
  using assms
proof (induction "is" arbitrary: acc)
  case (Cons i "is")
  then obtain app where "lookup_app self apps i = Ok app" by auto
  then show ?case using Cons(1) [of "acc @ [app]"] Cons(2) by fastforce
qed simp

lemma register_in_order:
  assumes "topological (requires self []) (done @ is)" "list_all2 (\<lambda>i d. lookup_app self [] i = Ok d) is ds"
    and wf: "registry_wf self" and "set done \<subseteq> dom (map_of (ar_known_applications other))"
  shows "\<exists>other'. try_fold (\<lambda>self d. map_ok fst (register_application self d)) other ds = Ok other' \<and>
    set (done @ is) \<subseteq> dom (map_of (ar_known_applications other'))"
  using assms(1,2,4)
proof (induction "is" arbitrary: ds other "done")
  case (Cons i "is")
  then obtain d ds' where ds: "ds = d # ds'" "lookup_app self [] i = Ok d"
      "list_all2 (\<lambda>i d. lookup_app self [] i = Ok d) is ds'"
    by (auto simp: list_all2_Cons1)
  have d: "application_id_from d = i" using wf ds(2) by (simp add: registry_wf_def lookup_app_def)
  have "set (uad_required_application_ids d) \<subseteq> set done"
    using Cons(2) ds(2) unfolding topological_def requires_def by fastforce
  then obtain other1 where o: "register_application other d = Ok (other1, i)"
      "other1 = other\<lparr>ar_known_applications := AList.update i d (ar_known_applications other)\<rparr>"
    using Cons(4) d by (auto simp: register_application_Ok_iff)
  have "set (done @ [i]) \<subseteq> dom (map_of (ar_known_applications other1))"
    using Cons(4) o(2) by (auto simp: update_conv')
  with Cons(1) [of "done @ [i]" ds' other1] Cons(2) ds o(1) show ?case by simp
qed simp

section \<open>Properties\<close>

text \<open>
  C10. The search for dependencies always ends. It succeeds exactly if every application that
  the given ones require, directly or not, has a description; the result then lists these
  applications once each and, unless dependencies are circular, every one of them after all
  those it requires. Otherwise the error names such an application without a description.
\<close>

theorem find_dependencies_sorts:
  "(\<exists>r. find_dependencies self ids apps = Ok r \<and> distinct r \<and> set r = needed self apps ids \<and>
      (\<forall>x \<in> needed self apps ids. \<exists>app. lookup_app self apps x = Ok app) \<and>
      (acyclic (requires self apps) \<longrightarrow>
        (\<forall>xs x ys. r = xs @ x # ys \<longrightarrow> requires self apps `` {x} \<subseteq> set xs))) \<or>
   (\<exists>x \<in> needed self apps ids. find_dependencies self ids apps = Err (UnknownApplicationId x) \<and>
      (\<nexists>app. lookup_app self apps x = Ok app))"
proof (cases "find_dependencies self ids apps")
  case (Ok r)
  then show ?thesis using find_dependencies_cases [of self apps ids] by (auto simp: topological_def)
next
  case (Err e)
  then show ?thesis using find_dependencies_cases [of self apps ids] by (auto simp: lookup_app_Err_iff)
next
  case Panic
  then show ?thesis using find_dependencies_cases [of self apps ids] by simp
qed

text \<open>
  C11. Applications can be carried from chain to chain: in a registry built by registration,
  describing known applications with their dependencies succeeds, and registering the
  descriptions in the order returned succeeds in the registry of any other chain, which then
  knows the applications.
\<close>

theorem described_applications_register:
  assumes "registry_reachable self" "set ids \<subseteq> dom (map_of (ar_known_applications self))"
  shows "\<exists>ds. describe_applications_with_dependencies self ids [] = Ok ds \<and>
    (\<forall>other. \<exists>other'. try_fold (\<lambda>self d. map_ok fst (register_application self d)) other ds = Ok other' \<and>
       set ids \<subseteq> dom (map_of (ar_known_applications other')))"
proof -
  have wf: "registry_wf self" using assms(1) by (rule registry_reachable_wf)
  have "x \<in> dom (map_of (ar_known_applications self))" if "(i, x) \<in> (requires self [])\<^sup>*" "i \<in> set ids" for i x
    using that assms(2)
    by (induction rule: rtrancl_induct) (auto simp: requires_no_extra dest: registry_wf_closed [OF wf])
  then have known: "x \<in> dom (map_of (ar_known_applications self))" if "x \<in> needed self [] ids" for x
    using that by (auto simp: needed_def)
  then have found: "\<exists>app. lookup_app self [] x = Ok app" if "x \<in> needed self [] ids" for x
    using that by (auto simp: lookup_app_def dom_def)
  then have "find_dependencies self ids [] \<noteq> Err e" for e
    using find_dependencies_cases [of self "[]" ids] by (force simp: lookup_app_Err_iff)
  then obtain r where r: "find_dependencies self ids [] = Ok r" "set r = needed self [] ids"
      "topological (requires self []) r"
    using find_dependencies_cases [of self "[]" ids] registry_wf_acyclic [OF wf]
    by (cases "find_dependencies self ids []") auto
  have "\<forall>x \<in> set r. \<exists>app. lookup_app self [] x = Ok app"
    using found r(2) by simp
  from try_fold_lookup [OF this, of "[]"] obtain ds where
    ds: "describe_applications_with_dependencies self ids [] = Ok ds"
      "list_all2 (\<lambda>i d. lookup_app self [] i = Ok d) r ds"
    using r(1) by (auto simp: describe_applications_with_dependencies_def)
  have "set ids \<subseteq> set r" using r(2) by (auto simp: needed_def)
  with register_in_order [of self "[]" r ds] r(3) ds wf show ?thesis by fastforce
qed

text \<open>Instances: an application that requires another one.\<close>

definition ex_bytecode_id :: BytecodeId where
  "ex_bytecode_id = BytecodeId (MessageId 0 0 0)"

definition ex_app :: "u32 \<Rightarrow> UserApplicationId list \<Rightarrow> UserApplicationDescription" where
  "ex_app i required = \<lparr>uad_bytecode_id = ex_bytecode_id,
     uad_bytecode_location = \<lparr>bl_certificate_hash = 0, bl_operation_index = 0\<rparr>,
     uad_creation = MessageId 0 1 i, uad_parameters = [], uad_required_application_ids = required\<rparr>"

definition ex_registry :: ApplicationRegistryView where
  "ex_registry = \<lparr>ar_published_bytecodes = [],
     ar_known_applications =
       [(application_id_from (ex_app 0 []), ex_app 0 []),
        (application_id_from (ex_app 1 [application_id_from (ex_app 0 [])]),
         ex_app 1 [application_id_from (ex_app 0 [])])]\<rparr>"

definition ex_app_id :: "u32 \<Rightarrow> UserApplicationId" where
  "ex_app_id i = application_id_from (ex_app i [])"

lemmas ex_registry_defs = ex_registry_def ex_app_id_def ex_app_def application_id_from_def ex_bytecode_id_def

lemma ex_registry_reachable: "registry_reachable ex_registry"
proof -
  let ?d0 = "ex_app 0 []" and ?d1 = "ex_app 1 [application_id_from (ex_app 0 [])]"
  let ?r1 = "registry_default\<lparr>ar_known_applications := [(application_id_from ?d0, ?d0)]\<rparr>"
  have "registry_reachable ?r1"
    by (rule reg_known [OF reg_start, of ?d0 ?r1 "application_id_from ?d0"])
      (simp_all add: register_application_Ok_iff ex_registry_defs registry_default_def)
  then show ?thesis
    by (rule reg_known [of ?r1 ?d1 ex_registry "application_id_from ?d1"])
      (simp_all add: register_application_Ok_iff ex_registry_defs registry_default_def)
qed

lemma ex_find: "find_dependencies ex_registry [ex_app_id 1] [] = Ok [ex_app_id 0, ex_app_id 1]"
  by (simp add: find_dependencies_def push_unseen_def lookup_app_def describe_application_def ex_registry_defs)

theorem find_dependencies_sorts_witness:
  "acyclic (requires ex_registry []) \<and>
   find_dependencies ex_registry [ex_app_id 1] [] = Ok [ex_app_id 0, ex_app_id 1] \<and>
   requires ex_registry [] `` {ex_app_id 1} \<subseteq> {ex_app_id 0}"
proof -
  have ac: "acyclic (requires ex_registry [])"
    using registry_wf_acyclic [OF registry_reachable_wf [OF ex_registry_reachable]] .
  have "\<forall>xs x ys. [ex_app_id 0, ex_app_id 1] = xs @ x # ys \<longrightarrow> requires ex_registry [] `` {x} \<subseteq> set xs"
    using find_dependencies_sorts [of ex_registry "[ex_app_id 1]" "[]"] ac by (simp add: ex_find)
  from this [rule_format, of "[ex_app_id 0]" "ex_app_id 1" "[]"] show ?thesis using ac by (simp add: ex_find)
qed

theorem described_applications_register_witness:
  "registry_reachable ex_registry \<and>
   (\<exists>ds. describe_applications_with_dependencies ex_registry [ex_app_id 1] [] = Ok ds \<and>
     (\<exists>other'. try_fold (\<lambda>self d. map_ok fst (register_application self d)) registry_default ds = Ok other' \<and>
       ex_app_id 1 \<in> dom (map_of (ar_known_applications other'))))"
proof -
  have "set [ex_app_id 1] \<subseteq> dom (map_of (ar_known_applications ex_registry))"
    by (simp add: ex_registry_defs)
  from described_applications_register [OF ex_registry_reachable this] ex_registry_reachable
  show ?thesis by auto
qed

end
