(* ===== verification/System.thy ===== *)
theory System
  imports Applications
begin

text \<open>
  \<open>linera-execution/src/system.rs\<close>: the system application. Its state is a record with one
  field per view; registers hold values, the map view of balances is the association list of
  its contents and the set view of subscriptions the list of its elements. Hashing and
  serialisation are the fields of \<open>SystemEnv\<close>. Every arm of \<open>execute_operation\<close> and
  \<open>execute_message\<close> is modelled, the larger ones by a definition of their own.

  Results: funds are never created, an owner's funds are spent only under that owner's
  signature, epochs do not go back, and execution on an active chain does not panic.
\<close>

record SystemEnv =
  env_hash_key :: "PublicKey \<Rightarrow> CryptoHash"
  env_hash_description :: "ChainDescription \<Rightarrow> CryptoHash"
  env_channel_name :: "SystemChannel \<Rightarrow> ChannelName"
  env_subscription_key :: "ChannelSubscription \<Rightarrow> bytes"
  env_bytecode_id_key :: "BytecodeId \<Rightarrow> bytes"

record SystemState =
  ss_description :: "ChainDescription option"
  ss_epoch :: "Epoch option"
  ss_admin_id :: "ChainId option"
  ss_subscriptions :: "ChannelSubscription list"
  ss_committees :: Committees
  ss_ownership :: ChainOwnership
  ss_balance :: Amount
  ss_balances :: "(Owner \<times> Amount) list"
  ss_timestamp :: Timestamp
  ss_registry :: ApplicationRegistryView

definition system_default :: SystemState where
  "system_default =
     \<lparr>ss_description = None, ss_epoch = None, ss_admin_id = None, ss_subscriptions = [],
      ss_committees = [], ss_ownership = Ownership_None, ss_balance = 0, ss_balances = [],
      ss_timestamp = 0, ss_registry = registry_default\<rparr>"

definition current_committee :: "SystemState \<Rightarrow> (Epoch \<times> Committee) option" where
  "current_committee self =
     (case ss_epoch self of
        None \<Rightarrow> None
      | Some epoch \<Rightarrow> map_option (\<lambda>committee. (epoch, committee)) (map_of (ss_committees self) epoch))"

definition system_is_active :: "SystemState \<Rightarrow> bool" where
  "system_is_active self \<longleftrightarrow>
     ss_description self \<noteq> None \<and> ownership_is_active (ss_ownership self) \<and>
     current_committee self \<noteq> None \<and> ss_admin_id self \<noteq> None"

text \<open>\<open>get_mut_or_default\<close> of the balances: a missing entry is created with the default.\<close>

definition balance_of :: "SystemState \<Rightarrow> Owner \<Rightarrow> Amount" where
  "balance_of self owner = (case map_of (ss_balances self) owner of Some amount \<Rightarrow> amount | None \<Rightarrow> 0)"

definition set_balance :: "Owner \<Rightarrow> Amount \<Rightarrow> SystemState \<Rightarrow> SystemState" where
  "set_balance owner amount self = self\<lparr>ss_balances := AList.update owner amount (ss_balances self)\<rparr>"

definition plain_message :: "Destination \<Rightarrow> SystemMessage \<Rightarrow> SystemMessage RawOutgoingMessage" where
  "plain_message destination message =
     \<lparr>rom_destination = destination, rom_authenticated = False, rom_is_skippable = False, rom_message = message\<rparr>"

type_synonym system_result = "SystemState \<times> SystemMessage RawExecutionResult"

definition send :: "SystemState \<Rightarrow> SystemMessage RawOutgoingMessage list \<Rightarrow> system_result" where
  "send self messages = (self, raw_result_default\<lparr>rer_messages := messages\<rparr>)"

section \<open>Operations\<close>

definition operation_open_chain ::
    "SystemEnv \<Rightarrow> OperationContext \<Rightarrow> ChainOwnership \<Rightarrow> ChainId \<Rightarrow> Epoch \<Rightarrow> Committees \<Rightarrow> SystemState \<Rightarrow>
     (SystemExecutionError, system_result) result" where
  "operation_open_chain env context ownership admin_id epoch committees self =
     (let child_id = chain_id_child (env_hash_description env) (next_message_id context)
      in ensure (ss_admin_id self = Some admin_id) (InvalidNewChainAdminId child_id)
        (ensure (ss_committees self = committees) InvalidCommittees
        (ensure (ss_epoch self = Some epoch) (InvalidEpoch child_id epoch)
          (let e1 = plain_message (Recipient child_id) (Msg_OpenChain ownership admin_id epoch committees);
               subscription = \<lparr>sub_chain_id = admin_id, sub_name = env_channel_name env Admin\<rparr>;
               e2 = plain_message (Recipient admin_id) (Msg_Subscribe child_id subscription)
           in Ok (send self [e1, e2])))))"

definition operation_close_chain :: "SystemEnv \<Rightarrow> OperationContext \<Rightarrow> SystemState \<Rightarrow> system_result" where
  "operation_close_chain env context self =
     (let self = self\<lparr>ss_ownership := Ownership_None\<rparr>;
          messages = map (\<lambda>subscription. plain_message (Recipient (sub_chain_id subscription))
              (Msg_Unsubscribe (opc_chain_id context) subscription))
            (sort_key (env_subscription_key env) (ss_subscriptions self))
      in send (self\<lparr>ss_subscriptions := []\<rparr>) messages)"

definition credit_message :: "Amount \<Rightarrow> Recipient \<Rightarrow> SystemMessage RawOutgoingMessage list" where
  "credit_message amount recipient =
     (case recipient of
        Recipient_Account account \<Rightarrow>
          [plain_message (Recipient (acc_chain_id account)) (Msg_Credit account amount)]
      | Burn \<Rightarrow> [])"

definition operation_transfer ::
    "OperationContext \<Rightarrow> Owner option \<Rightarrow> Recipient \<Rightarrow> Amount \<Rightarrow> SystemState \<Rightarrow>
     (SystemExecutionError, system_result) result" where
  "operation_transfer context owner recipient amount self =
     ensure (owner = None \<or> opc_authenticated_signer context = owner) UnauthenticatedTransferOwner
       (ensure (amount > 0) IncorrectTransferAmount
         (let balance = (case owner of Some owner \<Rightarrow> balance_of self owner | None \<Rightarrow> ss_balance self)
          in ensure (balance \<ge> amount) (InsufficientFunding balance)
            (and_then (map_err Sys_ArithmeticError (try_sub_assign balance amount)) (\<lambda>balance.
               let self = (case owner of Some owner \<Rightarrow> set_balance owner balance self
                                       | None \<Rightarrow> self\<lparr>ss_balance := balance\<rparr>)
               in Ok (send self (credit_message amount recipient))))))"

definition operation_claim ::
    "OperationContext \<Rightarrow> Owner \<Rightarrow> ChainId \<Rightarrow> Recipient \<Rightarrow> Amount \<Rightarrow> UserData \<Rightarrow> SystemState \<Rightarrow>
     (SystemExecutionError, system_result) result" where
  "operation_claim context owner target recipient amount user_data self =
     ensure (opc_authenticated_signer context = Some owner) UnauthenticatedClaimOwner
       (ensure (amount > 0) IncorrectClaimAmount
         (Ok (send self [\<lparr>rom_destination = Recipient target, rom_authenticated = True,
            rom_is_skippable = False,
            rom_message = Msg_Withdraw \<lparr>acc_chain_id = target, acc_owner = Some owner\<rparr> amount recipient user_data\<rparr>])))"

definition operation_admin ::
    "SystemEnv \<Rightarrow> OperationContext \<Rightarrow> AdminOperation \<Rightarrow> SystemState \<Rightarrow>
     (SystemExecutionError, system_result) result" where
  "operation_admin env context admin_operation self =
     ensure (ss_admin_id self = Some (opc_chain_id context)) AdminOperationOnNonAdminChain
       (case admin_operation of
          CreateCommittee epoch committee \<Rightarrow>
            and_then (expect (ss_epoch self)) (\<lambda>current.
            and_then (map_err Sys_ArithmeticError (try_add_one current)) (\<lambda>next_epoch.
            ensure (epoch = next_epoch) InvalidCommitteeCreation
              (let self = self\<lparr>ss_committees := btree_insert epoch committee (ss_committees self),
                               ss_epoch := Some epoch\<rparr>
               in Ok (send self [plain_message (Subscribers (env_channel_name env Admin))
                    (Msg_SetCommittees epoch (ss_committees self))]))))
        | RemoveCommittee epoch \<Rightarrow>
            ensure (map_of (ss_committees self) epoch \<noteq> None) InvalidCommitteeRemoval
              (let self = self\<lparr>ss_committees := btree_remove epoch (ss_committees self)\<rparr>
               in and_then (expect (ss_epoch self)) (\<lambda>current.
                  Ok (send self [plain_message (Subscribers (env_channel_name env Admin))
                    (Msg_SetCommittees current (ss_committees self))]))))"

definition operation_subscribe ::
    "SystemEnv \<Rightarrow> OperationContext \<Rightarrow> ChainId \<Rightarrow> SystemChannel \<Rightarrow> SystemState \<Rightarrow>
     (SystemExecutionError, system_result) result" where
  "operation_subscribe env context chain_id channel self =
     ensure (opc_chain_id context \<noteq> chain_id) (SelfSubscription (opc_chain_id context) channel)
       (ensure (channel = Admin \<longrightarrow> ss_admin_id self = Some chain_id)
          (InvalidAdminSubscription (opc_chain_id context) channel)
         (let subscription = \<lparr>sub_chain_id = chain_id, sub_name = env_channel_name env channel\<rparr>
          in ensure (subscription \<notin> set (ss_subscriptions self)) (NoSuchChannel (opc_chain_id context) channel)
            (Ok (send (self\<lparr>ss_subscriptions := List.insert subscription (ss_subscriptions self)\<rparr>)
              [plain_message (Recipient chain_id) (Msg_Subscribe (opc_chain_id context) subscription)]))))"

definition operation_unsubscribe ::
    "SystemEnv \<Rightarrow> OperationContext \<Rightarrow> ChainId \<Rightarrow> SystemChannel \<Rightarrow> SystemState \<Rightarrow>
     (SystemExecutionError, system_result) result" where
  "operation_unsubscribe env context chain_id channel self =
     (let subscription = \<lparr>sub_chain_id = chain_id, sub_name = env_channel_name env channel\<rparr>
      in ensure (subscription \<in> set (ss_subscriptions self)) (InvalidUnsubscription (opc_chain_id context) channel)
        (Ok (send (self\<lparr>ss_subscriptions := removeAll subscription (ss_subscriptions self)\<rparr>)
          [plain_message (Recipient chain_id) (Msg_Unsubscribe (opc_chain_id context) subscription)])))"

definition operation_create_application ::
    "OperationContext \<Rightarrow> BytecodeId \<Rightarrow> bytes \<Rightarrow> UserApplicationId list \<Rightarrow> SystemState \<Rightarrow>
     (SystemExecutionError, system_result \<times> UserApplicationId) result" where
  "operation_create_application context bytecode_id parameters required_application_ids self =
     (let app_id = ApplicationId bytecode_id (next_message_id context)
      in and_then (register_new_application (ss_registry self) app_id parameters required_application_ids)
           (\<lambda>registry. Ok (send (self\<lparr>ss_registry := registry\<rparr>)
              [plain_message (Recipient (opc_chain_id context)) Msg_ApplicationCreated], app_id)))"

definition system_execute_operation ::
    "SystemEnv \<Rightarrow> OperationContext \<Rightarrow> SystemOperation \<Rightarrow> SystemState \<Rightarrow>
     (SystemExecutionError, system_result \<times> (UserApplicationId \<times> bytes) option) result" where
  "system_execute_operation env context operation self =
     (let no_application = map_ok (\<lambda>r. (r, None))
      in case operation of
        Op_OpenChain ownership admin_id epoch committees \<Rightarrow>
          no_application (operation_open_chain env context ownership admin_id epoch committees self)
      | Op_ChangeOwner new_public_key \<Rightarrow>
          Ok (send (self\<lparr>ss_ownership := ownership_single (env_hash_key env) new_public_key\<rparr>) [], None)
      | Op_ChangeMultipleOwners new_public_keys multi_leader_rounds \<Rightarrow>
          Ok (send (self\<lparr>ss_ownership :=
            ownership_multiple (env_hash_key env) new_public_keys multi_leader_rounds\<rparr>) [], None)
      | Op_CloseChain \<Rightarrow> Ok (operation_close_chain env context self, None)
      | Op_Transfer owner recipient amount _ \<Rightarrow>
          no_application (operation_transfer context owner recipient amount self)
      | Op_Claim owner target recipient amount user_data \<Rightarrow>
          no_application (operation_claim context owner target recipient amount user_data self)
      | Op_Admin admin_operation \<Rightarrow> no_application (operation_admin env context admin_operation self)
      | Op_Subscribe chain_id channel \<Rightarrow> no_application (operation_subscribe env context chain_id channel self)
      | Op_Unsubscribe chain_id channel \<Rightarrow> no_application (operation_unsubscribe env context chain_id channel self)
      | Op_PublishBytecode _ _ \<Rightarrow>
          Ok (send self [plain_message (Recipient (opc_chain_id context))
            (Msg_BytecodePublished (opc_index context))], None)
      | Op_CreateApplication bytecode_id parameters initialization_argument required_application_ids \<Rightarrow>
          map_ok (\<lambda>(r, app_id). (r, Some (app_id, initialization_argument)))
            (operation_create_application context bytecode_id parameters required_application_ids self)
      | Op_RequestApplication chain_id application_id \<Rightarrow>
          Ok (send self [plain_message (Recipient chain_id) (Msg_RequestApplication application_id)], None))"

section \<open>Messages\<close>

definition message_credit :: "MessageContext \<Rightarrow> Account \<Rightarrow> Amount \<Rightarrow> SystemState \<Rightarrow> SystemState" where
  "message_credit context account amount self =
     (if msc_chain_id context = acc_chain_id account
      then (case acc_owner account of
              None \<Rightarrow> self\<lparr>ss_balance := saturating_add (ss_balance self) amount\<rparr>
            | Some owner \<Rightarrow> set_balance owner (saturating_add (balance_of self owner) amount) self)
      else self)"

definition message_withdraw ::
    "MessageContext \<Rightarrow> Account \<Rightarrow> Amount \<Rightarrow> Recipient \<Rightarrow> SystemState \<Rightarrow> system_result" where
  "message_withdraw context account amount recipient self =
     (case acc_owner account of
        Some owner \<Rightarrow>
          if acc_chain_id account = msc_chain_id context \<and> msc_authenticated_signer context = Some owner
          then let balance = balance_of self owner
               in (case try_sub_assign balance amount of
                     Ok balance \<Rightarrow> send (set_balance owner balance self) (credit_message amount recipient)
                   | _ \<Rightarrow> send (set_balance owner balance self) [])
          else send self []
      | None \<Rightarrow> send self [])"

definition message_set_committees ::
    "Epoch \<Rightarrow> Committees \<Rightarrow> SystemState \<Rightarrow> (SystemExecutionError, SystemState) result" where
  "message_set_committees epoch committees self =
     and_then (expect (ss_epoch self)) (\<lambda>current.
       ensure (epoch \<ge> current) CannotRewindEpoch
         (Ok (self\<lparr>ss_epoch := Some epoch, ss_committees := committees\<rparr>)))"

definition message_bytecode_published ::
    "SystemEnv \<Rightarrow> MessageContext \<Rightarrow> u32 \<Rightarrow> SystemState \<Rightarrow> system_result" where
  "message_bytecode_published env context operation_index self =
     (let bytecode_id = BytecodeId (msc_message_id context);
          bytecode_location = \<lparr>bl_certificate_hash = msc_certificate_hash context,
            bl_operation_index = operation_index\<rparr>;
          registry = register_published_bytecode (ss_registry self) bytecode_id bytecode_location;
          locations = bytecode_locations (env_bytecode_id_key env) registry
      in send (self\<lparr>ss_registry := registry\<rparr>)
           [plain_message (Subscribers (env_channel_name env PublishedBytecodes)) (Msg_BytecodeLocations locations)])"

definition message_register_applications ::
    "UserApplicationDescription list \<Rightarrow> SystemState \<Rightarrow> (SystemExecutionError, SystemState) result" where
  "message_register_applications applications self =
     map_ok (\<lambda>registry. self\<lparr>ss_registry := registry\<rparr>)
       (try_fold (\<lambda>registry application. map_ok fst (register_application registry application))
          (ss_registry self) applications)"

definition message_request_application ::
    "MessageContext \<Rightarrow> UserApplicationId \<Rightarrow> SystemState \<Rightarrow> (SystemExecutionError, system_result) result" where
  "message_request_application context application_id self =
     (case describe_applications_with_dependencies (ss_registry self) [application_id] [] of
        Err (UnknownApplicationId _) \<Rightarrow> Ok (send self [])
      | Err e \<Rightarrow> Err e
      | Panic \<Rightarrow> Panic
      | Ok applications \<Rightarrow>
          Ok (send self [\<lparr>rom_destination = Recipient (mid_chain_id (msc_message_id context)),
            rom_authenticated = False, rom_is_skippable = True,
            rom_message = Msg_RegisterApplications applications\<rparr>]))"

definition system_execute_message ::
    "SystemEnv \<Rightarrow> MessageContext \<Rightarrow> SystemMessage \<Rightarrow> SystemState \<Rightarrow>
     (SystemExecutionError, system_result) result" where
  "system_execute_message env context message self =
     (case message of
        Msg_Credit account amount \<Rightarrow> Ok (send (message_credit context account amount self) [])
      | Msg_Withdraw account amount recipient _ \<Rightarrow> Ok (message_withdraw context account amount recipient self)
      | Msg_SetCommittees epoch committees \<Rightarrow>
          map_ok (\<lambda>self. send self []) (message_set_committees epoch committees self)
      | Msg_Subscribe subscriber subscription \<Rightarrow>
          if sub_chain_id subscription = msc_chain_id context
          then Ok (self, raw_result_default
            \<lparr>rer_messages := [plain_message (Recipient subscriber) (Msg_Notify subscriber)],
             rer_subscribe := [(sub_name subscription, subscriber)]\<rparr>)
          else Ok (send self [])
      | Msg_Unsubscribe subscriber subscription \<Rightarrow>
          if sub_chain_id subscription = msc_chain_id context
          then Ok (self, raw_result_default
            \<lparr>rer_messages := [plain_message (Recipient subscriber) (Msg_Notify subscriber)],
             rer_unsubscribe := [(sub_name subscription, subscriber)]\<rparr>)
          else Ok (send self [])
      | Msg_BytecodePublished operation_index \<Rightarrow> Ok (message_bytecode_published env context operation_index self)
      | Msg_BytecodeLocations locations \<Rightarrow>
          Ok (send (self\<lparr>ss_registry := fold (\<lambda>(bytecode_id, location) registry.
            register_published_bytecode registry bytecode_id location) locations (ss_registry self)\<rparr>) [])
      | Msg_ApplicationCreated \<Rightarrow> Ok (send self [])
      | Msg_Notify _ \<Rightarrow> Ok (send self [])
      | Msg_OpenChain _ _ _ _ \<Rightarrow> Ok (send self [])
      | Msg_RegisterApplications applications \<Rightarrow>
          map_ok (\<lambda>self. send self []) (message_register_applications applications self)
      | Msg_RequestApplication application_id \<Rightarrow> message_request_application context application_id self)"

section \<open>Opening a chain and queries\<close>

definition system_open_chain ::
    "SystemEnv \<Rightarrow> MessageId \<Rightarrow> ChainOwnership \<Rightarrow> Epoch \<Rightarrow> Committees \<Rightarrow> ChainId \<Rightarrow> Timestamp \<Rightarrow> SystemState \<Rightarrow>
     ('e, SystemState) result" where
  "system_open_chain env message_id ownership epoch committees admin_id timestamp self =
     assert_that (ss_description self = None)
       (assert_that (\<not> ownership_is_active (ss_ownership self))
         (assert_that (ss_committees self = [])
           (Ok (self\<lparr>ss_description := Some (Child message_id), ss_epoch := Some epoch,
              ss_committees := committees, ss_admin_id := Some admin_id,
              ss_subscriptions := List.insert \<lparr>sub_chain_id = admin_id, sub_name = env_channel_name env Admin\<rparr>
                (ss_subscriptions self),
              ss_ownership := ownership, ss_timestamp := timestamp\<rparr>))))"

definition system_handle_query :: "QueryContext \<Rightarrow> SystemState \<Rightarrow> SystemResponse" where
  "system_handle_query context self = \<lparr>rsp_chain_id = qc_chain_id context, rsp_balance = ss_balance self\<rparr>"

section \<open>Steps of the system state\<close>

text \<open>One execution, with the signer it is authenticated by, the message it receives (if any)
  and what it sends.\<close>

inductive system_step ::
    "SystemEnv \<Rightarrow> Owner option \<Rightarrow> SystemMessage option \<Rightarrow> SystemState \<Rightarrow> SystemMessage RawExecutionResult \<Rightarrow>
     SystemState \<Rightarrow> bool" for env where
  step_operation: "system_execute_operation env context operation s = Ok ((s', r), new_application) \<Longrightarrow>
     system_step env (opc_authenticated_signer context) None s r s'"
| step_message: "system_execute_message env context message s = Ok (s', r) \<Longrightarrow>
     system_step env (msc_authenticated_signer context) (Some message) s r s'"

declare send_def [simp]

lemma raw_result_default_simps [simp]:
  "rer_messages raw_result_default = []" "rer_subscribe raw_result_default = []"
  "rer_unsubscribe raw_result_default = []" "rer_authenticated_signer raw_result_default = None"
  by (simp_all add: raw_result_default_def)

text \<open>The executions that touch balances; all others leave them alone.\<close>

lemma operation_transfer_Ok_iff:
  "operation_transfer context owner recipient amount s = Ok (s', r) \<longleftrightarrow>
     (owner = None \<or> opc_authenticated_signer context = owner) \<and> amount > 0 \<and>
     r = raw_result_default\<lparr>rer_messages := credit_message amount recipient\<rparr> \<and>
     (case owner of
        Some w \<Rightarrow> amount \<le> balance_of s w \<and> s' = set_balance w (balance_of s w - amount) s
      | None \<Rightarrow> amount \<le> ss_balance s \<and> s' = s\<lparr>ss_balance := ss_balance s - amount\<rparr>)"
  by (auto simp: operation_transfer_def Let_def try_sub_assign_def checked_sub_def split: option.splits)

lemma message_withdraw_cases:
  "message_withdraw context account amount recipient s = (s', r) \<longleftrightarrow>
     (case acc_owner account of
        Some w \<Rightarrow>
          if acc_chain_id account = msc_chain_id context \<and> msc_authenticated_signer context = Some w
          then if amount \<le> balance_of s w
               then s' = set_balance w (balance_of s w - amount) s \<and>
                    r = raw_result_default\<lparr>rer_messages := credit_message amount recipient\<rparr>
               else s' = set_balance w (balance_of s w) s \<and> r = raw_result_default\<lparr>rer_messages := []\<rparr>
          else s' = s \<and> r = raw_result_default\<lparr>rer_messages := []\<rparr>
      | None \<Rightarrow> s' = s \<and> r = raw_result_default\<lparr>rer_messages := []\<rparr>)"
  by (auto simp: message_withdraw_def Let_def try_sub_assign_def checked_sub_def split: option.splits)

section \<open>Funds\<close>

definition total_funds :: "SystemState \<Rightarrow> nat" where
  "total_funds s = unat (ss_balance s) + (\<Sum>(_, amount) \<leftarrow> ss_balances s. unat amount)"

fun credited :: "SystemMessage \<Rightarrow> nat" where
  "credited (Msg_Credit _ amount) = unat amount"
| "credited _ = 0"

definition credits :: "SystemMessage RawExecutionResult \<Rightarrow> nat" where
  "credits r = (\<Sum>m \<leftarrow> rer_messages r. credited (rom_message m))"

definition accounts_wf :: "SystemState \<Rightarrow> bool" where
  "accounts_wf s \<longleftrightarrow> distinct (map fst (ss_balances s))"

lemma sum_list_update:
  assumes "distinct (map fst m)"
  shows "(\<Sum>(_, a) \<leftarrow> AList.update k v m. unat a) + (case map_of m k of Some a \<Rightarrow> unat a | None \<Rightarrow> 0) =
    (\<Sum>(_, a) \<leftarrow> m. unat a) + unat v"
  using assms by (induction m) (auto simp: map_of_eq_None_iff split: option.splits)

lemma total_funds_set_balance:
  "accounts_wf s \<Longrightarrow> total_funds (set_balance w a s) + unat (balance_of s w) = total_funds s + unat a"
  using sum_list_update [of "ss_balances s" w a]
  by (cases "map_of (ss_balances s) w")
    (simp_all add: total_funds_def set_balance_def balance_of_def accounts_wf_def)

lemma total_funds_set_chain_balance:
  "total_funds (s\<lparr>ss_balance := b\<rparr>) + unat (ss_balance s) = total_funds s + unat b"
  "accounts_wf (s\<lparr>ss_balance := b\<rparr>) = accounts_wf s"
  by (simp_all add: total_funds_def accounts_wf_def)

lemma accounts_wf_set_balance [simp]: "accounts_wf s \<Longrightarrow> accounts_wf (set_balance w a s)"
  by (simp add: accounts_wf_def set_balance_def distinct_update)

lemma balance_of_set_balance [simp]: "balance_of (set_balance w a s) v = (if v = w then a else balance_of s v)"
  by (simp add: balance_of_def set_balance_def update_conv')

lemma credits_simps [simp]:
  "credits (r\<lparr>rer_messages := ms\<rparr>) = (\<Sum>m \<leftarrow> ms. credited (rom_message m))"
  "(\<Sum>m \<leftarrow> credit_message amount recipient. credited (rom_message m)) =
     (case recipient of Burn \<Rightarrow> 0 | Recipient_Account _ \<Rightarrow> unat amount)"
  by (simp_all add: credits_def credit_message_def plain_message_def split: Recipient.splits)

lemma operation_funds:
  assumes "accounts_wf s" "system_execute_operation env context operation s = Ok ((s', r), na)"
  shows "accounts_wf s' \<and> total_funds s' + credits r \<le> total_funds s"
proof (cases "\<exists>owner recipient amount user_data. operation = Op_Transfer owner recipient amount user_data")
  case True
  then obtain owner recipient amount user_data where op: "operation = Op_Transfer owner recipient amount user_data"
    by blast
  then have ok: "operation_transfer context owner recipient amount s = Ok (s', r)"
    using assms(2) by (simp add: system_execute_operation_def Let_def)
  show ?thesis
  proof (cases owner)
    case None
    then show ?thesis
      using ok assms(1) total_funds_set_chain_balance(1) [of "ss_balance s - amount" s]
      by (auto simp: operation_transfer_Ok_iff unat_minus_exact word_le_nat_alt total_funds_set_chain_balance(2)
          split: Recipient.splits)
  next
    case (Some w)
    then show ?thesis
      using ok assms(1) total_funds_set_balance [OF assms(1), of w "balance_of s w - amount"]
      by (auto simp: operation_transfer_Ok_iff unat_minus_exact word_le_nat_alt split: Recipient.splits)
  qed
next
  case False
  then have "accounts_wf s' \<and> total_funds s' = total_funds s \<and> credits r = 0"
    using assms
    by (cases operation) (auto simp: system_execute_operation_def Let_def accounts_wf_def total_funds_def plain_message_def
        operation_open_chain_def operation_close_chain_def operation_claim_def operation_admin_def
        operation_subscribe_def operation_unsubscribe_def operation_create_application_def comp_def
        simp del: try_add_one_Ok_iff split: AdminOperation.splits)
  then show ?thesis by simp
qed

lemma message_funds:
  assumes "accounts_wf s" "system_execute_message env context message s = Ok (s', r)"
  shows "accounts_wf s' \<and> total_funds s' + credits r \<le> total_funds s + credited message"
proof -
  consider (credit) account amount where "message = Msg_Credit account amount"
    | (withdraw) account amount recipient user_data where "message = Msg_Withdraw account amount recipient user_data"
    | (other) "\<And>account amount. message \<noteq> Msg_Credit account amount"
      "\<And>account amount recipient user_data. message \<noteq> Msg_Withdraw account amount recipient user_data"
    by blast
  then show ?thesis
  proof cases
    case credit
    have sat: "unat (saturating_add x amount) \<le> unat x + unat amount" for x :: Amount
      by (simp add: unat_saturating_add)
    have s': "s' = message_credit context account amount s" "credits r = 0"
      using assms(2) credit by (auto simp: system_execute_message_def)
    show ?thesis
    proof (cases "acc_owner account")
      case None
      then show ?thesis
        using assms(1) credit s' sat [of "ss_balance s"]
          total_funds_set_chain_balance [of "saturating_add (ss_balance s) amount" s]
        by (auto simp: message_credit_def)
    next
      case (Some w)
      then show ?thesis
        using assms(1) credit s' sat [of "balance_of s w"]
          total_funds_set_balance [OF assms(1), of w "saturating_add (balance_of s w) amount"]
        by (auto simp: message_credit_def)
    qed
  next
    case withdraw
    then have ok: "message_withdraw context account amount recipient s = (s', r)"
      using assms(2) by (simp add: system_execute_message_def)
    show ?thesis
    proof (cases "acc_owner account")
      case (Some w)
      have spent: "unat (balance_of s w - amount) + unat amount = unat (balance_of s w)"
        if "amount \<le> balance_of s w"
        using that by (simp add: unat_minus_exact word_le_nat_alt)
      show ?thesis
        using ok assms(1) withdraw Some total_funds_set_balance [OF assms(1), of w "balance_of s w"]
          total_funds_set_balance [OF assms(1), of w "balance_of s w - amount"] spent
        by (cases recipient) (simp_all add: message_withdraw_cases split: if_splits)
    qed (use ok assms(1) in \<open>simp add: message_withdraw_cases\<close>)
  next
    case other
    then have "accounts_wf s' \<and> total_funds s' = total_funds s \<and> credits r = 0"
      using assms
      by (cases message) (auto simp: system_execute_message_def accounts_wf_def total_funds_def plain_message_def
          message_set_committees_def message_bytecode_published_def message_register_applications_def
          message_request_application_def credits_def Let_def
          split: if_splits result.splits SystemExecutionError.splits)
    then show ?thesis by simp
  qed
qed

lemma step_funds:
  assumes "system_step env signer message s r s'" "accounts_wf s"
  shows "accounts_wf s' \<and> total_funds s' + credits r \<le>
    total_funds s + (case message of Some m \<Rightarrow> credited m | None \<Rightarrow> 0)"
  using assms(1)
proof cases
  case (step_operation oc operation na)
  then show ?thesis using operation_funds [OF assms(2) step_operation(3)] by simp
next
  case (step_message mc m)
  then show ?thesis using message_funds [OF assms(2) step_message(3)] by simp
qed

text \<open>A run of the system state, with the total credited to it and by it.\<close>

inductive system_run :: "SystemEnv \<Rightarrow> SystemState \<Rightarrow> nat \<Rightarrow> nat \<Rightarrow> SystemState \<Rightarrow> bool" for env s0 where
  run_none: "system_run env s0 0 0 s0"
| run_one: "system_run env s0 received sent s \<Longrightarrow> system_step env signer message s r s' \<Longrightarrow>
    system_run env s0 (received + (case message of Some m \<Rightarrow> credited m | None \<Rightarrow> 0)) (sent + credits r) s'"

section \<open>Signatures, epochs and activity\<close>

lemma balance_of_unchanged: "ss_balances s' = ss_balances s \<Longrightarrow> balance_of s' w = balance_of s w"
  by (simp add: balance_of_def)

lemma balance_of_chain_balance [simp]: "balance_of (s\<lparr>ss_balance := b\<rparr>) w = balance_of s w"
  by (simp add: balance_of_def)

lemma le_saturating_add: "x \<le> saturating_add x y" for x :: "'a::len word"
proof -
  have "unat x \<le> 2 ^ LENGTH('a) - 1" using unat_lt_pow [of x] by linarith
  then show ?thesis by (simp add: word_le_nat_alt unat_saturating_add)
qed

lemma operation_spends:
  assumes "system_execute_operation env context operation s = Ok ((s', r), na)"
    and less: "balance_of s' w < balance_of s w"
  shows "opc_authenticated_signer context = Some w"
proof (cases "\<exists>owner recipient amount user_data. operation = Op_Transfer owner recipient amount user_data")
  case True
  then obtain owner recipient amount user_data where "operation = Op_Transfer owner recipient amount user_data"
    by blast
  then have "operation_transfer context owner recipient amount s = Ok (s', r)"
    using assms(1) by (simp add: system_execute_operation_def Let_def)
  then show ?thesis using less by (cases owner) (simp_all add: operation_transfer_Ok_iff split: if_splits)
next
  case False
  then have "ss_balances s' = ss_balances s"
    using assms(1)
    by (cases operation) (auto simp: system_execute_operation_def Let_def
        operation_open_chain_def operation_close_chain_def operation_claim_def operation_admin_def
        operation_subscribe_def operation_unsubscribe_def operation_create_application_def
        simp del: try_add_one_Ok_iff split: AdminOperation.splits)
  then show ?thesis using less balance_of_unchanged [of s' s w] by simp
qed

lemma message_spends:
  assumes "system_execute_message env context message s = Ok (s', r)"
    and less: "balance_of s' w < balance_of s w"
  shows "msc_authenticated_signer context = Some w"
proof -
  consider (credit) account amount where "message = Msg_Credit account amount"
    | (withdraw) account amount recipient user_data where "message = Msg_Withdraw account amount recipient user_data"
    | (other) "\<And>account amount. message \<noteq> Msg_Credit account amount"
      "\<And>account amount recipient user_data. message \<noteq> Msg_Withdraw account amount recipient user_data"
    by blast
  then show ?thesis
  proof cases
    case credit
    then have "s' = message_credit context account amount s"
      using assms(1) by (simp add: system_execute_message_def)
    then show ?thesis using less leD [OF le_saturating_add [of "balance_of s w" amount]]
      by (cases "acc_owner account") (simp_all add: message_credit_def split: if_splits)
  next
    case withdraw
    then have "message_withdraw context account amount recipient s = (s', r)"
      using assms(1) by (simp add: system_execute_message_def)
    then show ?thesis using less
      by (cases "acc_owner account") (simp_all add: message_withdraw_cases split: if_splits)
  next
    case other
    then have "ss_balances s' = ss_balances s"
      using assms(1)
      by (cases message) (auto simp: system_execute_message_def
          message_set_committees_def message_bytecode_published_def message_register_applications_def
          message_request_application_def Let_def
          split: if_splits result.splits SystemExecutionError.splits)
    then show ?thesis using less balance_of_unchanged [of s' s w] by simp
  qed
qed

lemmas operation_defs = system_execute_operation_def operation_open_chain_def operation_close_chain_def
  operation_claim_def operation_admin_def operation_subscribe_def operation_unsubscribe_def
  operation_create_application_def

lemmas message_defs = system_execute_message_def message_set_committees_def message_bytecode_published_def
  message_register_applications_def message_request_application_def

lemma set_balance_simps [simp]:
  "ss_epoch (set_balance w a s) = ss_epoch s" "ss_committees (set_balance w a s) = ss_committees s"
  "ss_description (set_balance w a s) = ss_description s" "ss_admin_id (set_balance w a s) = ss_admin_id s"
  "ss_ownership (set_balance w a s) = ss_ownership s"
  by (simp_all add: set_balance_def)

text \<open>Transfers, credits and withdrawals change nothing but balances.\<close>

definition same_config :: "SystemState \<Rightarrow> SystemState \<Rightarrow> bool" where
  "same_config s s' \<longleftrightarrow> ss_description s' = ss_description s \<and> ss_epoch s' = ss_epoch s \<and>
     ss_admin_id s' = ss_admin_id s \<and> ss_committees s' = ss_committees s \<and> ss_ownership s' = ss_ownership s"

lemma transfer_config: "operation_transfer context owner recipient amount s = Ok (s', r) \<Longrightarrow> same_config s s'"
  by (auto simp: operation_transfer_Ok_iff same_config_def split: option.splits)

lemma credit_config: "same_config s (message_credit context account amount s)"
  by (auto simp: message_credit_def same_config_def split: option.splits)

lemma withdraw_config: "message_withdraw context account amount recipient s = (s', r) \<Longrightarrow> same_config s s'"
  by (auto simp: message_withdraw_cases same_config_def split: option.splits if_splits)

lemma same_config_active: "same_config s s' \<Longrightarrow> system_is_active s' = system_is_active s"
  unfolding same_config_def system_is_active_def current_committee_def by (elim conjE) (simp only:)

lemma operation_epoch:
  assumes "system_execute_operation env context operation s = Ok ((s', r), na)" "ss_epoch s = Some e"
  shows "\<exists>e'. ss_epoch s' = Some e' \<and> e \<le> e'"
proof (cases operation)
  case (Op_Transfer owner recipient amount user_data)
  then show ?thesis using assms transfer_config [of "context" owner recipient amount s s' r]
    by (auto simp: system_execute_operation_def Let_def same_config_def)
qed (use assms in \<open>auto simp: operation_defs Let_def word_le_nat_alt split: AdminOperation.splits\<close>)

lemma message_epoch:
  assumes "system_execute_message env context message s = Ok (s', r)" "ss_epoch s = Some e"
  shows "\<exists>e'. ss_epoch s' = Some e' \<and> e \<le> e'"
proof (cases message)
  case (Msg_Credit account amount)
  then show ?thesis using assms credit_config [of s "context" account amount]
    by (auto simp: system_execute_message_def same_config_def)
next
  case (Msg_Withdraw account amount recipient user_data)
  then show ?thesis using assms withdraw_config [of "context" account amount recipient s s' r]
    by (auto simp: system_execute_message_def same_config_def)
qed (use assms in \<open>auto simp: message_defs Let_def split: if_splits result.splits SystemExecutionError.splits\<close>)

lemma operation_activity:
  assumes "system_execute_operation env context operation s = Ok ((s', r), na)" "system_is_active s"
    "ss_epoch s = Some e" "btree_wf (ss_committees s)"
  shows "system_is_active s' \<longleftrightarrow> operation \<noteq> Op_CloseChain \<and> operation \<noteq> Op_Admin (RemoveCommittee e)"
proof (cases operation)
  case (Op_Transfer owner recipient amount user_data)
  then show ?thesis using assms transfer_config [of "context" owner recipient amount s s' r]
    by (auto simp: system_execute_operation_def Let_def dest: same_config_active)
next
  case (Op_Admin admin_operation)
  then show ?thesis using assms
    by (cases admin_operation) (auto simp: operation_defs Let_def system_is_active_def current_committee_def
        btree_get_remove simp del: try_add_one_Ok_iff)
qed (use assms in \<open>auto simp: operation_defs Let_def system_is_active_def current_committee_def
    ownership_is_active_def ownership_single_def ownership_multiple_def\<close>)

lemma register_no_panic:
  "register_application registry d \<noteq> Panic" "register_new_application registry i parameters required \<noteq> Panic"
  "check_required registry required \<noteq> Panic"
proof -
  show check: "check_required registry required \<noteq> Panic" for registry required
    unfolding check_required_def by (rule try_fold_no_panic [where P = "\<lambda>_. True"]) (simp_all add: describe_application_def)
  show "register_application registry d \<noteq> Panic" "register_new_application registry i parameters required \<noteq> Panic"
    using check by (auto simp: register_application_def register_new_application_def Let_def and_then_Panic_iff
        split: ApplicationId.splits)
qed

lemma describe_with_dependencies_no_panic: "describe_applications_with_dependencies registry is apps \<noteq> Panic"
proof -
  have "find_dependencies registry is apps \<noteq> Panic"
    by (simp add: find_dependencies_def find_dependencies_loop_no_panic)
  moreover have "try_fold (\<lambda>ds i. map_ok (\<lambda>d. ds @ [d]) (lookup_app registry apps i)) ds js \<noteq> Panic" for ds js
    by (rule try_fold_no_panic [where P = "\<lambda>_. True"]) (simp_all add: lookup_app_no_panic)
  ultimately show ?thesis by (auto simp: describe_applications_with_dependencies_def and_then_Panic_iff)
qed

lemma operation_no_panic:
  assumes "ss_epoch s = Some e"
  shows "system_execute_operation env context operation s \<noteq> Panic"
proof (cases operation)
  case (Op_Transfer owner recipient amount user_data)
  then show ?thesis
    by (auto simp: system_execute_operation_def operation_transfer_def Let_def and_then_Panic_iff try_sub_assign_def)
qed (use assms register_no_panic in \<open>auto simp: operation_defs Let_def and_then_Panic_iff try_add_one_not_Panic
    split: AdminOperation.splits\<close>)

lemma message_no_panic:
  assumes "ss_epoch s = Some e"
  shows "system_execute_message env context message s \<noteq> Panic"
proof (cases message)
  case (Msg_RegisterApplications applications)
  have "try_fold (\<lambda>registry d. map_ok fst (register_application registry d)) registry ds \<noteq> Panic" for registry ds
    by (rule try_fold_no_panic [where P = "\<lambda>_. True"]) (simp_all add: register_no_panic)
  with Msg_RegisterApplications show ?thesis by (simp add: message_defs)
qed (use assms describe_with_dependencies_no_panic in \<open>auto simp: message_defs and_then_Panic_iff
    split: result.splits SystemExecutionError.splits\<close>)

section \<open>Properties\<close>

text \<open>
  C12. Funds are never created: along any sequence of operations and messages executed by a
  chain, what the chain holds at the end (unattributed and in accounts) and what it has
  credited to other accounts does not exceed what it held at the start and was credited.
\<close>

theorem funds_never_created:
  assumes "system_run env s received sent s'" "distinct (map fst (ss_balances s))"
  shows "total_funds s' + sent \<le> total_funds s + received"
proof -
  have "accounts_wf s' \<and> total_funds s' + sent \<le> total_funds s + received"
    using assms
  proof (induction rule: system_run.induct)
    case run_none
    then show ?case by (simp add: accounts_wf_def)
  next
    case (run_one received sent s signer message r s')
    then show ?case using step_funds [OF run_one(2)] by simp
  qed
  then show ?thesis by simp
qed

text \<open>
  C13. An account's balance decreases only in an execution authenticated by its owner: a
  transfer or a withdrawal that the owner signed. Credits, also those that saturate, never
  decrease it.
\<close>

theorem only_signer_spends:
  assumes "system_step env signer message s r s'" "balance_of s' owner < balance_of s owner"
  shows "signer = Some owner"
  using assms(1)
proof cases
  case (step_operation oc operation na)
  then show ?thesis using operation_spends assms(2) by simp
next
  case (step_message mc m)
  then show ?thesis using message_spends assms(2) by simp
qed


text \<open>Instances: an owner moves 3 of 10 units to another chain.\<close>

definition ex_env :: SystemEnv where
  "ex_env = \<lparr>env_hash_key = (\<lambda>k. k), env_hash_description = (\<lambda>_. 0), env_channel_name = (\<lambda>_. []),
     env_subscription_key = (\<lambda>_. []), env_bytecode_id_key = (\<lambda>_. [])\<rparr>"

definition ex_system :: SystemState where
  "ex_system = system_default\<lparr>ss_description := Some (Root 0), ss_epoch := Some 0, ss_admin_id := Some 0,
     ss_committees := [(0, committee_new [] policy_default)], ss_ownership := Ownership_Single 5 5,
     ss_balances := [(5, 10)]\<rparr>"

definition ex_context :: OperationContext where
  "ex_context = \<lparr>opc_chain_id = 1, opc_authenticated_signer = Some 5, opc_height = 0, opc_index = 0,
     opc_next_message_index = 0\<rparr>"

definition ex_transfer :: SystemOperation where
  "ex_transfer = Op_Transfer (Some 5) (recipient_chain 2) 3 None"

definition ex_system1 :: SystemState where
  "ex_system1 = ex_system\<lparr>ss_balances := [(5, 7)]\<rparr>"

definition ex_transfer_result :: "SystemMessage RawExecutionResult" where
  "ex_transfer_result = raw_result_default\<lparr>rer_messages := credit_message 3 (recipient_chain 2)\<rparr>"

lemma ex_transfer_step:
  "system_execute_operation ex_env ex_context ex_transfer ex_system = Ok ((ex_system1, ex_transfer_result), None)"
  by (simp add: system_execute_operation_def ex_transfer_def operation_transfer_Ok_iff ex_context_def ex_system1_def
      ex_transfer_result_def ex_system_def system_default_def balance_of_def set_balance_def word_le_nat_alt)

lemma ex_system_step: "system_step ex_env (Some 5) None ex_system ex_transfer_result ex_system1"
  using step_operation [OF ex_transfer_step] by (simp add: ex_context_def)

theorem funds_never_created_witness:
  "system_run ex_env ex_system 0 3 ex_system1 \<and> total_funds ex_system1 + 3 \<le> total_funds ex_system + 0"
proof -
  have run: "system_run ex_env ex_system 0 3 ex_system1"
    using run_one [OF run_none ex_system_step]
    by (simp add: ex_transfer_result_def recipient_chain_def)
  have "distinct (map fst (ss_balances ex_system))" by (simp add: ex_system_def)
  from funds_never_created [OF run this] run show ?thesis by simp
qed

theorem only_signer_spends_witness:
  "system_step ex_env (Some 5) None ex_system ex_transfer_result ex_system1 \<and>
   balance_of ex_system1 5 < balance_of ex_system 5 \<and> Some 5 = Some (5 :: Owner)"
proof -
  have "balance_of ex_system1 5 < balance_of ex_system 5"
    by (simp add: ex_system1_def ex_system_def balance_of_def word_less_nat_alt)
  with only_signer_spends [OF ex_system_step this] ex_system_step show ?thesis by blast
qed


end
