(* ===== verification/Batches.thy ===== *)
theory Batches
  imports Identifiers "HOL-Library.List_Lexorder" "HOL-Library.Sublist" "HOL-Library.Multiset"
begin

text \<open>
  The key-value layer of \<open>linera-views\<close>: key intervals (\<open>common.rs\<close>), the in-memory store
  (\<open>memory.rs\<close>) and batches with their simplification (\<open>batch.rs\<close>). Keys and values are
  byte strings, compared lexicographically as \<open>Vec<u8>\<close> is; a store is an ordered map.

  Results: the interval of a prefix contains exactly the keys with that prefix, the search
  for a matching prefix is exact on minimal sets, and simplifying a batch and expanding its
  prefix deletions do not change its effect on a store, in whatever order the result is
  written.
\<close>

type_synonym kv_store = "(bytes, bytes) BTreeMap"
type_synonym 'k BTreeSet = "('k, unit) BTreeMap"

section \<open>Intervals of keys\<close>

datatype Bound = Included bytes | Excluded bytes | Unbounded

fun upper_bound_loop :: "bytes \<Rightarrow> nat \<Rightarrow> bytes option" where
  "upper_bound_loop key_prefix 0 = None"
| "upper_bound_loop key_prefix (Suc i) =
     (if key_prefix ! i < max_value
      then Some ((take (Suc i) key_prefix)[i := key_prefix ! i + 1])
      else upper_bound_loop key_prefix i)"

definition get_upper_bound_option :: "bytes \<Rightarrow> bytes option" where
  "get_upper_bound_option key_prefix = upper_bound_loop key_prefix (length key_prefix)"

definition get_upper_bound :: "bytes \<Rightarrow> Bound" where
  "get_upper_bound key_prefix =
     (case get_upper_bound_option key_prefix of None \<Rightarrow> Unbounded | Some upper_bound \<Rightarrow> Excluded upper_bound)"

definition get_interval :: "bytes \<Rightarrow> Bound \<times> Bound" where
  "get_interval key_prefix = (Included key_prefix, get_upper_bound key_prefix)"

text \<open>\<open>range\<close> of the standard maps.\<close>

fun above :: "Bound \<Rightarrow> bytes \<Rightarrow> bool" where
  "above (Included b) key \<longleftrightarrow> b \<le> key"
| "above (Excluded b) key \<longleftrightarrow> b < key"
| "above Unbounded key \<longleftrightarrow> True"

fun below :: "Bound \<Rightarrow> bytes \<Rightarrow> bool" where
  "below (Included b) key \<longleftrightarrow> key \<le> b"
| "below (Excluded b) key \<longleftrightarrow> key < b"
| "below Unbounded key \<longleftrightarrow> True"

definition in_range :: "Bound \<times> Bound \<Rightarrow> bytes \<Rightarrow> bool" where
  "in_range interval key \<longleftrightarrow> above (fst interval) key \<and> below (snd interval) key"

definition btree_range :: "Bound \<times> Bound \<Rightarrow> (bytes, 'v) BTreeMap \<Rightarrow> (bytes \<times> 'v) list" where
  "btree_range interval m = filter (\<lambda>(key, _). in_range interval key) m"

section \<open>Batches and the in-memory store\<close>

datatype WriteOperation = Delete bytes | DeletePrefix bytes | Put bytes bytes

type_synonym Batch = "WriteOperation list"

definition batch_size :: "Batch \<Rightarrow> nat" where
  "batch_size operations =
     fold (\<lambda>operation size. case operation of
         Delete key \<Rightarrow> size + length key
       | Put key v \<Rightarrow> size + (length key + length v)
       | DeletePrefix key_prefix \<Rightarrow> size + length key_prefix) operations 0"

definition check_value_size :: "nat \<Rightarrow> Batch \<Rightarrow> bool" where
  "check_value_size max_value_size operations \<longleftrightarrow>
     list_all (\<lambda>operation. case operation of Put _ v \<Rightarrow> length v \<le> max_value_size | _ \<Rightarrow> True) operations"

definition read_key_bytes :: "kv_store \<Rightarrow> bytes \<Rightarrow> bytes option" where
  "read_key_bytes store key = btree_get store key"

definition read_multi_key_bytes :: "kv_store \<Rightarrow> bytes list \<Rightarrow> bytes option list" where
  "read_multi_key_bytes store keys = map (btree_get store) keys"

definition find_keys_by_prefix :: "kv_store \<Rightarrow> bytes \<Rightarrow> bytes list" where
  "find_keys_by_prefix store key_prefix =
     map (\<lambda>(key, _). drop (length key_prefix) key) (btree_range (get_interval key_prefix) store)"

definition find_key_values_by_prefix :: "kv_store \<Rightarrow> bytes \<Rightarrow> (bytes \<times> bytes) list" where
  "find_key_values_by_prefix store key_prefix =
     map (\<lambda>(key, v). (drop (length key_prefix) key, v)) (btree_range (get_interval key_prefix) store)"

definition remove_interval :: "bytes \<Rightarrow> (bytes, 'v) BTreeMap \<Rightarrow> (bytes, 'v) BTreeMap" where
  "remove_interval key_prefix store =
     (let key_list = map fst (btree_range (get_interval key_prefix) store)
      in fold btree_remove key_list store)"

definition write_operation :: "WriteOperation \<Rightarrow> kv_store \<Rightarrow> kv_store" where
  "write_operation ent store =
     (case ent of
        Put key v \<Rightarrow> btree_insert key v store
      | Delete key \<Rightarrow> btree_remove key store
      | DeletePrefix key_prefix \<Rightarrow> remove_interval key_prefix store)"

definition write_batch :: "Batch \<Rightarrow> kv_store \<Rightarrow> kv_store" where
  "write_batch batch store = fold write_operation batch store"

section \<open>Simplification\<close>

record SimpleUnorderedBatch =
  sub_deletions :: "bytes list"
  sub_insertions :: "(bytes \<times> bytes) list"

record UnorderedBatch =
  ub_key_prefix_deletions :: "bytes list"
  ub_simple_unordered_batch :: SimpleUnorderedBatch

definition is_prefix_matched :: "bytes BTreeSet \<Rightarrow> bytes \<Rightarrow> bool" where
  "is_prefix_matched key_prefix_set key =
     (let range = btree_range (Unbounded, Included key) key_prefix_set
      in if range = [] then False
         else let v = fst (last range)
              in if length v > length key then False else v = take (length v) key)"

type_synonym simplify_state = "(bytes, bytes option) BTreeMap \<times> bytes BTreeSet"

definition simplify_step :: "WriteOperation \<Rightarrow> simplify_state \<Rightarrow> simplify_state" where
  "simplify_step operation state =
     (let (delete_and_insert_map, delete_prefix_set) = state
      in case operation of
           Delete key \<Rightarrow>
             if \<not> is_prefix_matched delete_prefix_set key
             then (btree_insert key None delete_and_insert_map, delete_prefix_set)
             else (btree_remove key delete_and_insert_map, delete_prefix_set)
         | Put key v \<Rightarrow> (btree_insert key (Some v) delete_and_insert_map, delete_prefix_set)
         | DeletePrefix key_prefix \<Rightarrow>
             (remove_interval key_prefix delete_and_insert_map,
              if \<not> is_prefix_matched delete_prefix_set key_prefix
              then btree_insert key_prefix () (remove_interval key_prefix delete_prefix_set)
              else delete_prefix_set))"

definition simplify :: "Batch \<Rightarrow> UnorderedBatch" where
  "simplify operations =
     (let (delete_and_insert_map, delete_prefix_set) = fold simplify_step operations ([], [])
      in \<lparr>ub_key_prefix_deletions = map fst delete_prefix_set,
          ub_simple_unordered_batch =
            \<lparr>sub_deletions = map fst (filter (\<lambda>(_, val). val = None) delete_and_insert_map),
             sub_insertions = List.map_filter (\<lambda>(key, val). map_option (Pair key) val) delete_and_insert_map\<rparr>\<rparr>)"

text \<open>\<open>expand_delete_prefix\<close> of the in-memory store is its search by prefix.\<close>

definition expand_prefix :: "kv_store \<Rightarrow> bytes list \<Rightarrow> bytes \<Rightarrow> bytes list \<Rightarrow> bytes list" where
  "expand_prefix db inserted key_prefix deletions =
     fold (\<lambda>short_key deletions.
         let key = key_prefix @ short_key in if key \<notin> set inserted then deletions @ [key] else deletions)
       (find_keys_by_prefix db key_prefix) deletions"

definition expand_delete_prefixes :: "UnorderedBatch \<Rightarrow> kv_store \<Rightarrow> SimpleUnorderedBatch" where
  "expand_delete_prefixes self db =
     (let simple = ub_simple_unordered_batch self;
          insert_set = map fst (sub_insertions simple)
      in \<lparr>sub_deletions = fold (expand_prefix db insert_set) (ub_key_prefix_deletions self) (sub_deletions simple),
          sub_insertions = sub_insertions simple\<rparr>)"

definition expand_colliding_prefix_deletions :: "UnorderedBatch \<Rightarrow> kv_store \<Rightarrow> UnorderedBatch" where
  "expand_colliding_prefix_deletions self db =
     (let simple = ub_simple_unordered_batch self;
          inserted_keys = btree_from_list (map (\<lambda>x. (fst x, ())) (sub_insertions simple));
          (key_prefix_deletions, deletions) =
            fold (\<lambda>key_prefix (key_prefix_deletions, deletions).
                if btree_range (get_interval key_prefix) inserted_keys \<noteq> []
                then (key_prefix_deletions, expand_prefix db (map fst inserted_keys) key_prefix deletions)
                else (key_prefix_deletions @ [key_prefix], deletions))
              (ub_key_prefix_deletions self) ([], sub_deletions simple)
      in \<lparr>ub_key_prefix_deletions = key_prefix_deletions,
          ub_simple_unordered_batch = simple\<lparr>sub_deletions := deletions\<rparr>\<rparr>)"

section \<open>The interval of a prefix\<close>

text \<open>The same bound, by recursion from the front.\<close>

fun prefix_bound :: "bytes \<Rightarrow> bytes option" where
  "prefix_bound [] = None"
| "prefix_bound (b # bs) =
     (case prefix_bound bs of
        Some u \<Rightarrow> Some (b # u)
      | None \<Rightarrow> if b < max_value then Some [b + 1] else None)"

lemma upper_bound_loop_Cons:
  "i \<le> length bs \<Longrightarrow> upper_bound_loop (b # bs) (Suc i) =
     (case upper_bound_loop bs i of Some u \<Rightarrow> Some (b # u) | None \<Rightarrow> upper_bound_loop (b # bs) (Suc 0))"
  by (induction i) auto

lemma get_upper_bound_option_eq: "get_upper_bound_option key_prefix = prefix_bound key_prefix"
proof (induction key_prefix)
  case (Cons b bs)
  then show ?case using upper_bound_loop_Cons [of "length bs" bs b]
    by (auto simp: get_upper_bound_option_def split: option.splits)
qed (simp add: get_upper_bound_option_def)

lemma byte_less_succ: "b < max_value \<Longrightarrow> d < b + 1 \<longleftrightarrow> d \<le> (b :: u8)"
proof -
  assume "b < max_value"
  then have "unat (b + 1) = Suc (unat b)"
    using unat_plus_exact [of b 1] by (simp add: word_less_nat_alt unat_MAX)
  then show ?thesis by (rule word_less_succ)
qed

lemma between_iff_prefix:
  "p \<le> v \<and> (case prefix_bound p of Some u \<Rightarrow> v < u | None \<Rightarrow> True) \<longleftrightarrow> prefix p v"
proof (induction p arbitrary: v)
  case (Cons b bs)
  show ?case
  proof (cases v)
    case (Cons d ds)
    have "b < max_value" if "b < d"
      using that unat_lt_pow [of d] by (simp add: word_less_nat_alt unat_MAX)
    then show ?thesis using Cons.IH [of ds] Cons
      by (auto split: option.splits simp: byte_less_succ)
  qed simp
qed simp

lemma in_interval_iff: "in_range (get_interval key_prefix) key \<longleftrightarrow> prefix key_prefix key"
  using between_iff_prefix [of key_prefix key]
  by (auto simp: in_range_def get_interval_def get_upper_bound_def get_upper_bound_option_eq split: option.splits)

section \<open>Stores as functions\<close>

lemma btree_range_interval:
  "btree_range (get_interval key_prefix) m = filter (\<lambda>(k, _). prefix key_prefix k) m"
  by (simp add: btree_range_def in_interval_iff)

lemma fold_btree_remove:
  "btree_wf m \<Longrightarrow> btree_wf (fold btree_remove ks m) \<and>
     btree_get (fold btree_remove ks m) = (\<lambda>k. if k \<in> set ks then None else btree_get m k)"
  by (induction ks arbitrary: m) (auto simp: btree_simps fun_eq_iff)

lemma remove_interval_wf [simp]: "btree_wf m \<Longrightarrow> btree_wf (remove_interval p m)"
  by (simp add: remove_interval_def Let_def fold_btree_remove)

lemma remove_interval_get:
  "btree_wf m \<Longrightarrow> btree_get (remove_interval p m) k = (if prefix p k then None else btree_get m k)"
  by (auto simp: remove_interval_def Let_def fold_btree_remove btree_range_interval map_of_eq_None_iff dest!: map_of_SomeD)

definition effect :: "WriteOperation \<Rightarrow> (bytes \<rightharpoonup> bytes) \<Rightarrow> (bytes \<rightharpoonup> bytes)" where
  "effect operation f =
     (case operation of
        Put key v \<Rightarrow> f(key \<mapsto> v)
      | Delete key \<Rightarrow> f(key := None)
      | DeletePrefix p \<Rightarrow> (\<lambda>k. if prefix p k then None else f k))"

lemma write_operation_wf [simp]: "btree_wf m \<Longrightarrow> btree_wf (write_operation ent m)"
  by (simp add: write_operation_def split: WriteOperation.splits)

lemma write_operation_get: "btree_wf m \<Longrightarrow> btree_get (write_operation ent m) = effect ent (btree_get m)"
  by (auto simp: write_operation_def effect_def btree_simps remove_interval_get fun_eq_iff split: WriteOperation.splits)

lemma write_batch_get:
  "btree_wf m \<Longrightarrow> btree_wf (write_batch batch m) \<and> btree_get (write_batch batch m) = fold effect batch (btree_get m)"
  by (induction batch arbitrary: m) (simp_all add: write_batch_def write_operation_get)

lemma write_batch_eqI:
  "btree_wf m \<Longrightarrow> fold effect b (btree_get m) = fold effect b' (btree_get m) \<Longrightarrow> write_batch b m = write_batch b' m"
  using write_batch_get [of m b] write_batch_get [of m b'] by (intro btree_ext) auto

section \<open>Matching a set of prefixes\<close>

definition btree_keys :: "('k, 'v) BTreeMap \<Rightarrow> 'k set" where
  "btree_keys m = fst ` set m"

lemma btree_keys_insert: "btree_keys (btree_insert k v m) = insert k (btree_keys m)"
  by (simp add: btree_keys_def fst_set_btree_insert)

text \<open>No prefix of the set is a proper prefix of another one.\<close>

definition minimal_prefixes :: "bytes BTreeSet \<Rightarrow> bool" where
  "minimal_prefixes ps \<longleftrightarrow> btree_wf ps \<and> (\<forall>p \<in> btree_keys ps. \<forall>q \<in> btree_keys ps. prefix p q \<longrightarrow> p = q)"

lemma prefix_le: "prefix p v \<Longrightarrow> p \<le> (v :: bytes)"
  using between_iff_prefix [of p v] by simp

lemma prefix_between: "prefix p key \<Longrightarrow> p \<le> v \<Longrightarrow> v \<le> key \<Longrightarrow> prefix p (v :: bytes)"
  using between_iff_prefix [of p key] between_iff_prefix [of p v]
  by (auto split: option.splits dest: le_less_trans)

lemma last_greatest: "btree_wf m \<Longrightarrow> x \<in> set m \<Longrightarrow> fst x \<le> fst (last m)"
  by (cases m rule: rev_cases) (auto simp: btree_wf_def sorted_wrt_append intro: less_imp_le)

lemma btree_wf_filter: "btree_wf m \<Longrightarrow> btree_wf (filter P m)"
  by (simp add: btree_wf_def sorted_wrt_map sorted_wrt_filter)

lemma prefix_iff_take: "prefix v key \<longleftrightarrow> length v \<le> length key \<and> v = take (length v) key"
  by (auto simp: prefix_def) (metis append_take_drop_id)

lemma is_prefix_matched_iff:
  assumes min: "minimal_prefixes ps"
  shows "is_prefix_matched ps key \<longleftrightarrow> (\<exists>p \<in> btree_keys ps. prefix p key)"
proof -
  let ?range = "btree_range (Unbounded, Included key) ps"
  have range: "?range = filter (\<lambda>(k, _). k \<le> key) ps"
    by (simp add: btree_range_def in_range_def)
  have wf: "btree_wf ?range" unfolding range using min by (simp add: minimal_prefixes_def btree_wf_filter)
  have matched: "is_prefix_matched ps key \<longleftrightarrow> ?range \<noteq> [] \<and> prefix (fst (last ?range)) key"
    by (auto simp: is_prefix_matched_def Let_def prefix_iff_take)
  show ?thesis
  proof
    assume "is_prefix_matched ps key"
    then show "\<exists>p \<in> btree_keys ps. prefix p key"
      using matched last_in_set [of ?range] by (force simp: range btree_keys_def)
  next
    assume "\<exists>p \<in> btree_keys ps. prefix p key"
    then obtain p where p: "(p, ()) \<in> set ps" "prefix p key" by (auto simp: btree_keys_def)
    then have pr: "(p, ()) \<in> set ?range" by (auto simp: range prefix_le)
    then have l: "last ?range \<in> set ?range" by (intro last_in_set) auto
    then have "fst (last ?range) \<in> btree_keys ps" "fst (last ?range) \<le> key" by (auto simp: range btree_keys_def)
    moreover have "p \<le> fst (last ?range)" using last_greatest [OF wf pr] by simp
    ultimately have "p = fst (last ?range)"
      using prefix_between [OF p(2)] min p(1) by (force simp: minimal_prefixes_def btree_keys_def)
    then show "is_prefix_matched ps key" using matched p(2) pr by auto
  qed
qed

section \<open>Simplified batches\<close>

text \<open>What the state of the simplification stands for.\<close>

definition hit :: "bytes BTreeSet \<Rightarrow> bytes \<Rightarrow> bool" where
  "hit ps k \<longleftrightarrow> (\<exists>p \<in> btree_keys ps. prefix p k)"

definition meaning :: "simplify_state \<Rightarrow> (bytes \<rightharpoonup> bytes) \<Rightarrow> (bytes \<rightharpoonup> bytes)" where
  "meaning state f k =
     (case btree_get (fst state) k of
        Some val \<Rightarrow> val
      | None \<Rightarrow> if hit (snd state) k then None else f k)"

definition simplify_inv :: "simplify_state \<Rightarrow> bool" where
  "simplify_inv state \<longleftrightarrow> btree_wf (fst state) \<and> minimal_prefixes (snd state)"

lemma remove_interval_keys:
  "btree_wf m \<Longrightarrow> btree_keys (remove_interval p m) = {k \<in> btree_keys m. \<not> prefix p k}"
proof -
  assume wf: "btree_wf m"
  have "btree_keys m' = dom (btree_get m')" for m' :: "(bytes, 'a) BTreeMap" by (simp add: btree_keys_def dom_map_of_conv_image_fst)
  then show ?thesis using remove_interval_get [OF wf, of p] by (auto simp: dom_def split: if_splits)
qed

lemma minimal_prefixes_insert:
  assumes min: "minimal_prefixes ps" and new: "\<not> is_prefix_matched ps p"
  shows "minimal_prefixes (btree_insert p () (remove_interval p ps))"
proof -
  have "\<not> prefix q p" if "q \<in> btree_keys ps" for q
    using that new by (auto simp: is_prefix_matched_iff [OF min])
  with min show ?thesis
    by (auto simp: minimal_prefixes_def btree_keys_insert remove_interval_keys)
qed

lemma simplify_step_inv: "simplify_inv state \<Longrightarrow> simplify_inv (simplify_step operation state)"
  by (cases state) (auto simp: simplify_inv_def simplify_step_def minimal_prefixes_insert split: WriteOperation.splits)

lemma simplify_step_meaning:
  assumes inv: "simplify_inv state"
  shows "meaning (simplify_step operation state) f = effect operation (meaning state f)"
proof -
  obtain dim ps where state: "state = (dim, ps)" by force
  have wf: "btree_wf dim" "btree_wf ps" and min: "minimal_prefixes ps"
    using inv by (auto simp: state simplify_inv_def minimal_prefixes_def)
  show ?thesis
  proof (cases operation)
    case (DeletePrefix p)
    define ps' where
      "ps' = (if \<not> is_prefix_matched ps p then btree_insert p () (remove_interval p ps) else ps)"
    have "hit ps' k \<longleftrightarrow> prefix p k \<or> hit ps k" for k
      using wf by (auto simp: ps'_def hit_def btree_keys_insert remove_interval_keys is_prefix_matched_iff [OF min]
          intro: prefix_order.trans)
    moreover have "simplify_step operation state = (remove_interval p dim, ps')"
      by (simp add: DeletePrefix state simplify_step_def ps'_def)
    ultimately show ?thesis
      using wf by (simp add: fun_eq_iff DeletePrefix state meaning_def effect_def remove_interval_get)
  qed (use wf in \<open>auto simp: fun_eq_iff state simplify_step_def meaning_def effect_def btree_simps
      is_prefix_matched_iff [OF min] hit_def\<close>)
qed

lemma simplify_fold:
  "simplify_inv state \<Longrightarrow> simplify_inv (fold simplify_step ops state) \<and>
     meaning (fold simplify_step ops state) f = fold effect ops (meaning state f)"
  by (induction ops arbitrary: state) (simp_all add: simplify_step_inv simplify_step_meaning)

section \<open>Writing in any order\<close>

fun touches :: "WriteOperation \<Rightarrow> bytes \<Rightarrow> bool" where
  "touches (Put key _) k \<longleftrightarrow> k = key"
| "touches (Delete key) k \<longleftrightarrow> k = key"
| "touches (DeletePrefix p) k \<longleftrightarrow> prefix p k"

lemma effect_untouched: "\<not> touches operation k \<Longrightarrow> effect operation f k = f k"
  by (cases operation) (auto simp: effect_def)

lemma fold_effect_untouched: "\<forall>op \<in> set ops. \<not> touches op k \<Longrightarrow> fold effect ops f k = f k"
  by (induction ops arbitrary: f) (simp_all add: effect_untouched)

lemma fold_effect_put:
  "Put k v \<in> set ops \<Longrightarrow> \<forall>op \<in> set ops. touches op k \<longrightarrow> op = Put k v \<Longrightarrow> fold effect ops f k = Some v"
proof (induction ops rule: rev_induct)
  case (snoc op ops)
  show ?case
  proof (cases "touches op k")
    case True
    then have "op = Put k v" using snoc(3) by simp
    then show ?thesis by (simp add: effect_def)
  next
    case False
    then have "op \<noteq> Put k v" by auto
    then have "Put k v \<in> set ops" using snoc(2) by simp
    then have "fold effect ops f k = Some v" using snoc(1,3) by (metis UnCI set_append)
    with False show ?thesis by (simp add: effect_untouched)
  qed
qed simp

lemma fold_effect_delete:
  "\<exists>op \<in> set ops. touches op k \<Longrightarrow> \<forall>op \<in> set ops. touches op k \<longrightarrow> (\<nexists>v. op = Put k v) \<Longrightarrow>
   fold effect ops f k = None"
proof (induction ops rule: rev_induct)
  case (snoc op ops)
  have "effect op g k = None" if "touches op k" for g
    using snoc(3) that by (cases op) (auto simp: effect_def)
  moreover have "fold effect ops f k = None" if "\<not> touches op k"
  proof -
    have "\<exists>op \<in> set ops. touches op k" using snoc(2) that by auto
    then show ?thesis using snoc(1,3) by (metis UnCI set_append)
  qed
  ultimately show ?case by (cases "touches op k") (simp_all add: effect_untouched)
qed simp

lemma fold_delete_prefixes:
  "fold effect (map DeletePrefix ps) f = (\<lambda>k. if \<exists>p \<in> set ps. prefix p k then None else f k)"
  by (induction ps arbitrary: f) (auto simp: effect_def fun_eq_iff)

definition simple_operations :: "SimpleUnorderedBatch \<Rightarrow> WriteOperation list" where
  "simple_operations b = map Delete (sub_deletions b) @ map (\<lambda>(k, v). Put k v) (sub_insertions b)"

lemma simple_operations_iff [simp]:
  "Delete k \<in> set (simple_operations b) \<longleftrightarrow> k \<in> set (sub_deletions b)"
  "Put k v \<in> set (simple_operations b) \<longleftrightarrow> (k, v) \<in> set (sub_insertions b)"
  "DeletePrefix p \<notin> set (simple_operations b)"
  by (auto simp: simple_operations_def)

text \<open>The output of the simplification, as a set of operations.\<close>

lemma set_insertions:
  "set (List.map_filter (\<lambda>(k, val). map_option (Pair k) val) m) = {(k, v). (k, Some v) \<in> set m}"
  by (induction m) (auto simp: List.map_filter_simps split: option.splits)

lemma simplify_output:
  obtains dim ps where "simplify_inv (dim, ps)" "\<And>f. meaning (dim, ps) f = fold effect ops f"
    "set (ub_key_prefix_deletions (simplify ops)) = btree_keys ps"
    "\<And>k. Delete k \<in> set (simple_operations (ub_simple_unordered_batch (simplify ops))) \<longleftrightarrow> btree_get dim k = Some None"
    "\<And>k v. Put k v \<in> set (simple_operations (ub_simple_unordered_batch (simplify ops))) \<longleftrightarrow> btree_get dim k = Some (Some v)"
    "\<And>p. DeletePrefix p \<notin> set (simple_operations (ub_simple_unordered_batch (simplify ops)))"
proof -
  obtain dim ps where st: "fold simplify_step ops ([], []) = (dim, ps)" by force
  have inv: "simplify_inv ([], [])" by (simp add: simplify_inv_def minimal_prefixes_def btree_keys_def)
  have "meaning ([], []) f = f" for f by (simp add: meaning_def fun_eq_iff hit_def btree_keys_def)
  with simplify_fold [OF inv, of ops] st
  have inv': "simplify_inv (dim, ps)" and m: "\<And>f. meaning (dim, ps) f = fold effect ops f" by auto
  have d: "distinct (map fst dim)" using inv' by (simp add: simplify_inv_def btree_wf_distinct)
  show ?thesis
  proof (rule that [OF inv' m])
    show "set (ub_key_prefix_deletions (simplify ops)) = btree_keys ps"
      by (simp add: simplify_def st btree_keys_def)
    let ?ops = "simple_operations (ub_simple_unordered_batch (simplify ops))"
    have ops: "set ?ops = Delete ` {k. (k, None) \<in> set dim} \<union> (\<lambda>(k, v). Put k v) ` {(k, v). (k, Some v) \<in> set dim}"
      by (force simp: simplify_def simple_operations_def st set_insertions)
    show "DeletePrefix p \<notin> set ?ops" for p by (auto simp: ops)
    show "Delete k \<in> set ?ops \<longleftrightarrow> btree_get dim k = Some None" for k using d by (auto simp: ops)
    show "Put k v \<in> set ?ops \<longleftrightarrow> btree_get dim k = Some (Some v)" for k v using d by (auto simp: ops)
  qed
qed

section \<open>Expanded prefix deletions\<close>

lemma set_fold_append_if:
  "set (fold (\<lambda>x acc. if P x then acc @ [g x] else acc) xs acc) = set acc \<union> g ` {x \<in> set xs. P x}"
  by (induction xs arbitrary: acc) auto

lemma prefix_drop: "prefix p k \<Longrightarrow> p @ drop (length p) k = k"
  by (auto simp: prefix_def)

lemma set_find_keys: "set (find_keys_by_prefix db p) = drop (length p) ` {k \<in> btree_keys db. prefix p k}"
  by (force simp: find_keys_by_prefix_def btree_keys_def btree_range_interval)

lemma set_expand_prefix:
  "set (expand_prefix db inserted p deletions) = set deletions \<union> {k \<in> btree_keys db. prefix p k \<and> k \<notin> set inserted}"
proof -
  have "set (expand_prefix db inserted p deletions) =
      set deletions \<union> (@) p ` {s \<in> set (find_keys_by_prefix db p). p @ s \<notin> set inserted}"
    by (simp add: expand_prefix_def Let_def set_fold_append_if)
  also have "(@) p ` {s \<in> set (find_keys_by_prefix db p). p @ s \<notin> set inserted} =
      {k \<in> btree_keys db. prefix p k \<and> k \<notin> set inserted}"
    by (force simp: set_find_keys prefix_drop image_iff)
  finally show ?thesis .
qed

lemma set_expand_prefixes:
  "set (fold (expand_prefix db inserted) ps deletions) =
     set deletions \<union> {k \<in> btree_keys db. (\<exists>p \<in> set ps. prefix p k) \<and> k \<notin> set inserted}"
  by (induction ps arbitrary: deletions) (auto simp: set_expand_prefix)

text \<open>Any sequence of writes that puts, deletes and keeps what the batch does has its effect.\<close>

lemma write_batch_unordered:
  assumes wf: "btree_wf store"
    and put: "\<And>k v. fold effect ops (btree_get store) k = Some v \<Longrightarrow> \<exists>op \<in> set writes. touches op k \<Longrightarrow>
      Put k v \<in> set writes \<and> (\<forall>op \<in> set writes. touches op k \<longrightarrow> op = Put k v)"
    and del: "\<And>k v. fold effect ops (btree_get store) k = None \<Longrightarrow> Put k v \<notin> set writes"
    and keep: "\<And>k. \<forall>op \<in> set writes. \<not> touches op k \<Longrightarrow> fold effect ops (btree_get store) k = btree_get store k"
  shows "write_batch writes store = write_batch ops store"
proof (rule write_batch_eqI [OF wf], rule ext)
  fix k
  show "fold effect writes (btree_get store) k = fold effect ops (btree_get store) k"
  proof (cases "\<exists>op \<in> set writes. touches op k")
    case False
    then show ?thesis using keep [of k] fold_effect_untouched [of writes k] by simp
  next
    case True
    show ?thesis
    proof (cases "fold effect ops (btree_get store) k")
      case None
      then show ?thesis using fold_effect_delete [OF True] del by metis
    next
      case (Some v)
      then show ?thesis using fold_effect_put put [OF Some True] by metis
    qed
  qed
qed

lemma write_batch_simplified:
  assumes wf: "btree_wf store" and m: "\<And>f. meaning (dim, ps) f = fold effect ops f"
    and put: "\<And>k v. Put k v \<in> set writes \<longleftrightarrow> btree_get dim k = Some (Some v)"
    and dels: "\<And>op k. op \<in> set writes \<Longrightarrow> touches op k \<Longrightarrow> (\<nexists>v. op = Put k v) \<Longrightarrow>
      btree_get dim k = Some None \<or> btree_get dim k = None \<and> hit ps k"
    and enough: "\<And>k. btree_get dim k = Some None \<or> btree_get dim k = None \<and> hit ps k \<and> btree_get store k \<noteq> None \<Longrightarrow>
      \<exists>op \<in> set writes. touches op k"
  shows "write_batch writes store = write_batch ops store"
proof (rule write_batch_unordered [OF wf])
  have F: "fold effect ops (btree_get store) k = meaning (dim, ps) (btree_get store) k" for k by (simp add: m)
  {
    fix k v
    assume v: "fold effect ops (btree_get store) k = Some v" and "\<exists>op \<in> set writes. touches op k"
    then obtain op where op: "op \<in> set writes" "touches op k" by blast
    have d: "btree_get dim k = Some (Some v)"
    proof (cases "\<exists>v. op = Put k v")
      case True
      with op put v show ?thesis by (auto simp: F meaning_def)
    next
      case False
      with dels [OF op] v show ?thesis by (auto simp: F meaning_def)
    qed
    have "op = Put k v" if "op \<in> set writes" "touches op k" for op
    proof (cases "\<exists>v. op = Put k v")
      case True
      then obtain v' where "op = Put k v'" by blast
      then show ?thesis using put [of k v'] that(1) d by simp
    next
      case False
      then show ?thesis using dels [OF that] d by simp
    qed
    with d put show "Put k v \<in> set writes \<and> (\<forall>op \<in> set writes. touches op k \<longrightarrow> op = Put k v)" by blast
  next
    fix k v
    assume "fold effect ops (btree_get store) k = None"
    then show "Put k v \<notin> set writes" by (auto simp: put F meaning_def)
  next
    fix k
    assume no: "\<forall>op \<in> set writes. \<not> touches op k"
    have "btree_get dim k \<noteq> Some (Some v)" for v using no put [of k v] by force
    then show "fold effect ops (btree_get store) k = btree_get store k"
      using no enough [of k]
      by (cases "btree_get dim k"; cases "btree_get store k") (auto simp: F meaning_def)
  }
qed

lemma inserted_iff:
  assumes "\<And>k v. Put k v \<in> set (simple_operations b) \<longleftrightarrow> btree_get dim k = Some (Some v)"
  shows "k \<in> fst ` set (sub_insertions b) \<longleftrightarrow> (\<exists>v. btree_get dim k = Some (Some v))"
  unfolding assms [symmetric] by (force simp: simple_operations_def)

section \<open>Properties\<close>

text \<open>
  C15. The interval computed for a prefix contains exactly the keys with that prefix, also
  for the empty prefix and for prefixes that end in bytes 255.
\<close>

theorem interval_is_prefix: "in_range (get_interval key_prefix) key \<longleftrightarrow> take (length key_prefix) key = key_prefix"
  by (simp add: in_interval_iff) (metis prefix_def append_eq_conv_conj append_take_drop_id)

text \<open>
  C16. Simplifying a batch does not change what it does to a store: deleting the prefixes of
  the result and then writing its deletions and insertions, in any order, gives the same
  store as writing the operations of the batch one after the other.
\<close>

theorem simplify_preserves_effect:
  assumes "btree_wf store"
    and "set writes = set (simple_operations (ub_simple_unordered_batch (simplify ops)))"
  shows "write_batch (map DeletePrefix (ub_key_prefix_deletions (simplify ops)) @ writes) store = write_batch ops store"
proof (rule write_batch_eqI [OF assms(1)], rule ext)
  fix k
  obtain dim ps where s: "\<And>f. meaning (dim, ps) f = fold effect ops f"
    "set (ub_key_prefix_deletions (simplify ops)) = btree_keys ps"
    "\<And>k. Delete k \<in> set writes \<longleftrightarrow> btree_get dim k = Some None"
    "\<And>k v. Put k v \<in> set writes \<longleftrightarrow> btree_get dim k = Some (Some v)" "\<And>p. DeletePrefix p \<notin> set writes"
    using simplify_output [of ops] assms(2) by metis
  have touch: "touches op k \<longleftrightarrow> op = Delete k \<or> (\<exists>v. op = Put k v)" if "op \<in> set writes" for op
    by (cases op) (use that s(5) in auto)
  let ?f = "fold effect (map DeletePrefix (ub_key_prefix_deletions (simplify ops))) (btree_get store)"
  have f: "?f k = (if hit ps k then None else btree_get store k)" by (simp add: fold_delete_prefixes s(2) hit_def)
  have "fold effect writes ?f k = meaning (dim, ps) (btree_get store) k"
  proof (cases "btree_get dim k")
    case None
    then have "\<forall>op \<in> set writes. \<not> touches op k" using touch s(3,4) by auto
    then show ?thesis using None f fold_effect_untouched by (simp add: meaning_def)
  next
    case (Some val)
    show ?thesis
    proof (cases val)
      case None
      have "\<exists>op \<in> set writes. touches op k" using Some None s(3) [of k] by force
      moreover have "Put k v \<notin> set writes" for v using Some None s(4) by simp
      ultimately show ?thesis using fold_effect_delete [of writes k ?f] Some None by (auto simp: meaning_def)
    next
      case (Some v)
      then have v: "Put k v \<in> set writes" using \<open>btree_get dim k = _\<close> s(4) by simp
      moreover have "\<forall>op \<in> set writes. touches op k \<longrightarrow> op = Put k v"
        using touch s(3,4) Some \<open>btree_get dim k = _\<close> by auto
      ultimately have "fold effect writes ?f k = Some v" by (rule fold_effect_put)
      then show ?thesis using Some \<open>btree_get dim k = _\<close> by (simp add: meaning_def)
    qed
  qed
  then show "fold effect (map DeletePrefix (ub_key_prefix_deletions (simplify ops)) @ writes) (btree_get store) k =
      fold effect ops (btree_get store) k"
    by (simp add: s(1))
qed

text \<open>
  C17. Expanding every prefix deletion of a simplified batch against the store it is written to
  gives deletions and insertions that, written in any order, have the effect of the batch.
\<close>

theorem expand_delete_prefixes_preserves_effect:
  assumes wf: "btree_wf store"
    and writes: "set writes = set (simple_operations (expand_delete_prefixes (simplify ops) store))"
  shows "write_batch writes store = write_batch ops store"
proof -
  let ?simple = "ub_simple_unordered_batch (simplify ops)"
  obtain dim ps where s: "\<And>f. meaning (dim, ps) f = fold effect ops f"
    "set (ub_key_prefix_deletions (simplify ops)) = btree_keys ps"
    "\<And>k. Delete k \<in> set (simple_operations ?simple) \<longleftrightarrow> btree_get dim k = Some None"
    "\<And>k v. Put k v \<in> set (simple_operations ?simple) \<longleftrightarrow> btree_get dim k = Some (Some v)"
    using simplify_output [of ops] by metis
  note ins = inserted_iff [of ?simple dim, OF s(4)]
  have w: "Put k v \<in> set writes \<longleftrightarrow> btree_get dim k = Some (Some v)"
    "Delete k \<in> set writes \<longleftrightarrow> btree_get dim k = Some None \<or>
       btree_get store k \<noteq> None \<and> hit ps k \<and> (\<nexists>v. btree_get dim k = Some (Some v))"
    "DeletePrefix p \<notin> set writes" for k v p
    using s(3) [of k] s(4) [of k v] ins [of k] unfolding writes
    by (auto simp: simple_operations_def expand_delete_prefixes_def Let_def set_expand_prefixes s(2) hit_def
        btree_keys_def map_of_eq_None_iff)
  show ?thesis
  proof (rule write_batch_simplified [OF wf s(1) w(1)])
    fix op k
    assume op: "op \<in> set writes" "touches op k" "\<nexists>v. op = Put k v"
    have "Delete k \<in> set writes" by (cases op) (use op w(3) in auto)
    then show "btree_get dim k = Some None \<or> btree_get dim k = None \<and> hit ps k"
      by (cases "btree_get dim k") (auto simp: w)
  next
    fix k
    assume "btree_get dim k = Some None \<or> btree_get dim k = None \<and> hit ps k \<and> btree_get store k \<noteq> None"
    then have "Delete k \<in> set writes" by (auto simp: w)
    then show "\<exists>op \<in> set writes. touches op k" by force
  qed
qed

lemma fst_set_btree_from_list: "fst ` set (btree_from_list xs) = fst ` set xs"
proof -
  have "fst ` set (foldl (\<lambda>m (k, v). btree_insert k v m) m xs) = fst ` set xs \<union> fst ` set m" for m
    by (induction xs arbitrary: m) (simp_all add: fst_set_btree_insert split_beta)
  from this [of "[]"] show ?thesis by (simp add: btree_from_list_def)
qed

lemma range_nonempty_iff: "btree_range (get_interval p) m \<noteq> [] \<longleftrightarrow> (\<exists>k. k \<in> fst ` set m \<and> prefix p k)"
  by (force simp: btree_range_interval filter_empty_conv)

lemma colliding_output:
  assumes "\<And>p. coll p \<longleftrightarrow> btree_range (get_interval p) inserted \<noteq> []"
  shows "fold (\<lambda>p (kept, dels). if btree_range (get_interval p) inserted \<noteq> []
      then (kept, expand_prefix db ks p dels) else (kept @ [p], dels)) ps (kept, dels) = (kept', dels') \<Longrightarrow>
    set kept' = set kept \<union> {p \<in> set ps. \<not> coll p} \<and>
    set dels' = set dels \<union> {k \<in> btree_keys db. (\<exists>p \<in> set ps. coll p \<and> prefix p k) \<and> k \<notin> set ks}"
  unfolding assms [symmetric]
proof (induction ps arbitrary: kept dels)
  case (Cons p ps)
  then show ?case by (cases "coll p") (fastforce simp: set_expand_prefix)+
qed auto

text \<open>
  C18. Expanding only the prefix deletions that cover an inserted key leaves a batch whose prefix
  deletions, deletions and insertions no longer conflict: written in any order, they have the
  effect of the original batch.
\<close>

theorem expand_colliding_preserves_effect:
  assumes wf: "btree_wf store"
    and u: "u = expand_colliding_prefix_deletions (simplify ops) store"
    and writes: "set writes =
      set (map DeletePrefix (ub_key_prefix_deletions u) @ simple_operations (ub_simple_unordered_batch u))"
  shows "write_batch writes store = write_batch ops store"
proof -
  let ?simple = "ub_simple_unordered_batch (simplify ops)"
  obtain dim ps where s: "\<And>f. meaning (dim, ps) f = fold effect ops f"
    "set (ub_key_prefix_deletions (simplify ops)) = btree_keys ps"
    "\<And>k. Delete k \<in> set (simple_operations ?simple) \<longleftrightarrow> btree_get dim k = Some None"
    "\<And>k v. Put k v \<in> set (simple_operations ?simple) \<longleftrightarrow> btree_get dim k = Some (Some v)"
    "\<And>p. DeletePrefix p \<notin> set (simple_operations ?simple)"
    using simplify_output [of ops] by metis
  note ins = inserted_iff [of ?simple dim, OF s(4)]
  let ?inserted = "btree_from_list (map (\<lambda>x. (fst x, ())) (sub_insertions ?simple))"
  define coll where "coll p \<longleftrightarrow> (\<exists>k v. btree_get dim k = Some (Some v) \<and> prefix p k)" for p
  have keys: "fst ` set ?inserted = fst ` set (sub_insertions ?simple)"
    by (simp add: fst_set_btree_from_list image_image)
  have coll: "coll p \<longleftrightarrow> btree_range (get_interval p) ?inserted \<noteq> []" for p
    unfolding range_nonempty_iff keys ins coll_def by blast
  define r where "r = fold (\<lambda>p (kept, dels). if btree_range (get_interval p) ?inserted \<noteq> []
      then (kept, expand_prefix store (map fst ?inserted) p dels) else (kept @ [p], dels))
      (ub_key_prefix_deletions (simplify ops)) ([], sub_deletions ?simple)"
  have uf: "ub_key_prefix_deletions u = fst r" "ub_simple_unordered_batch u = ?simple\<lparr>sub_deletions := snd r\<rparr>"
    by (simp_all add: u expand_colliding_prefix_deletions_def Let_def r_def split_beta)
  have sets: "set (fst r) = {p \<in> btree_keys ps. \<not> coll p}"
    "set (snd r) = set (sub_deletions ?simple) \<union>
       {k \<in> btree_keys store. (\<exists>p \<in> btree_keys ps. coll p \<and> prefix p k) \<and> (\<nexists>v. btree_get dim k = Some (Some v))}"
    using colliding_output [OF coll, of store "map fst ?inserted" "ub_key_prefix_deletions (simplify ops)" "[]"
        "sub_deletions ?simple" "fst r" "snd r"]
    by (simp_all only: r_def [symmetric] prod.collapse s(2) keys ins set_map list.set Un_empty_left)
  have w: "Put k v \<in> set writes \<longleftrightarrow> btree_get dim k = Some (Some v)"
    "Delete k \<in> set writes \<longleftrightarrow> btree_get dim k = Some None \<or>
       btree_get store k \<noteq> None \<and> (\<exists>p \<in> btree_keys ps. coll p \<and> prefix p k) \<and> (\<nexists>v. btree_get dim k = Some (Some v))"
    "DeletePrefix p \<in> set writes \<longleftrightarrow> p \<in> btree_keys ps \<and> \<not> coll p" for k v p
    using s(3) [of k] s(4) [of k v] unfolding writes uf
    by (auto simp: sets btree_keys_def map_of_eq_None_iff)
  show ?thesis
  proof (rule write_batch_simplified [OF wf s(1) w(1)])
    fix op k
    assume op: "op \<in> set writes" "touches op k" "\<nexists>v. op = Put k v"
    then have "Delete k \<in> set writes \<or> (\<exists>p. DeletePrefix p \<in> set writes \<and> prefix p k)"
      by (metis touches.elims(2))
    then show "btree_get dim k = Some None \<or> btree_get dim k = None \<and> hit ps k"
      unfolding w hit_def coll_def by (cases "btree_get dim k"; cases "the (btree_get dim k)") auto
  next
    fix k
    assume a: "btree_get dim k = Some None \<or> btree_get dim k = None \<and> hit ps k \<and> btree_get store k \<noteq> None"
    have "Delete k \<in> set writes \<or> (\<exists>p. DeletePrefix p \<in> set writes \<and> prefix p k)"
      using a unfolding w hit_def by auto
    then show "\<exists>op \<in> set writes. touches op k" by force
  qed
qed

text \<open>Instances: a batch that inserts under a prefix it has deleted.\<close>

definition ex_store :: kv_store where
  "ex_store = [([1, 2], [7]), ([1, 2, 3], [8]), ([2], [9])]"

definition ex_batch :: Batch where
  "ex_batch = [DeletePrefix [1, 2], Put [1, 2, 3] [5], Delete [2]]"

lemmas ex_batch_defs = ex_store_def ex_batch_def simplify_def simplify_step_def is_prefix_matched_def btree_range_def
  in_range_def remove_interval_def get_interval_def get_upper_bound_def get_upper_bound_option_def

lemma ex_simplify:
  "simplify ex_batch = \<lparr>ub_key_prefix_deletions = [[1, 2]],
     ub_simple_unordered_batch = \<lparr>sub_deletions = [[2]], sub_insertions = [([1, 2, 3], [5])]\<rparr>\<rparr>"
  by (simp add: ex_batch_defs List.map_filter_simps word_less_nat_alt unat_MAX)

lemma ex_store_wf: "btree_wf ex_store"
  by (simp add: ex_store_def btree_wf_def word_less_nat_alt unat_MAX)

theorem simplify_preserves_effect_witness:
  "btree_wf ex_store \<and>
   write_batch [DeletePrefix [1, 2], Put [1, 2, 3] [5], Delete [2]] ex_store = write_batch ex_batch ex_store"
  using simplify_preserves_effect [OF ex_store_wf, of "[Put [1, 2, 3] [5], Delete [2]]" ex_batch] ex_store_wf
  by (simp add: ex_simplify simple_operations_def insert_commute)

lemma ex_find_keys: "find_keys_by_prefix ex_store [1, 2] = [[], [3]]"
  by (simp add: find_keys_by_prefix_def ex_batch_defs word_less_nat_alt unat_MAX)

theorem expand_delete_prefixes_preserves_effect_witness:
  "write_batch [Put [1, 2, 3] [5], Delete [1, 2], Delete [2]] ex_store = write_batch ex_batch ex_store"
proof (rule expand_delete_prefixes_preserves_effect [OF ex_store_wf])
  show "set [Put [1, 2, 3] [5], Delete [1, 2], Delete [2]] =
      set (simple_operations (expand_delete_prefixes (simplify ex_batch) ex_store))"
    by (simp add: ex_simplify expand_delete_prefixes_def expand_prefix_def ex_find_keys simple_operations_def
        insert_commute)
qed

theorem expand_colliding_preserves_effect_witness:
  "write_batch [Put [1, 2, 3] [5], Delete [1, 2], Delete [2]] ex_store = write_batch ex_batch ex_store"
proof (rule expand_colliding_preserves_effect [OF ex_store_wf refl])
  show "set [Put [1, 2, 3] [5], Delete [1, 2], Delete [2]] =
      set (map DeletePrefix (ub_key_prefix_deletions (expand_colliding_prefix_deletions (simplify ex_batch) ex_store)) @
        simple_operations (ub_simple_unordered_batch (expand_colliding_prefix_deletions (simplify ex_batch) ex_store)))"
    by (simp add: ex_simplify expand_colliding_prefix_deletions_def expand_prefix_def ex_find_keys simple_operations_def
        btree_from_list_def range_nonempty_iff insert_commute)
qed

end
