(* ===== verification/Runtime.thy ===== *)
theory Runtime
  imports System Policy Batches
begin

text \<open>
  \<open>linera-execution/src/runtime.rs\<close> with the request handlers of
  \<open>linera-execution/src/wasm/runtime_actor/handlers.rs\<close>: what a user contract can ask of the
  host while it runs.

  The code of a user application is not part of the repository: it is a tree of requests,
  where each answer selects the rest of the run, and applications are given by a parameter.
  A failed request ends the run of the contract with that error, as the runtime actor does
  (\<open>runtime_result?\<close> in \<open>wasm/mod.rs\<close>). Requests are handled one at a time. The state of the
  runtime is threaded through errors as well, because \<open>run_user_action\<close> goes on after a user
  error. Calls between applications run on the stack of the host: a run that nests deeper
  than its capacity aborts.

  A write lock on an entry of a collection is the entry's index in the list of active
  entries; the entry itself stays in the collection.
\<close>

section \<open>Data\<close>

record CalleeContext =
  cc_chain_id :: ChainId
  cc_authenticated_signer :: "Owner option"
  cc_authenticated_caller_id :: "UserApplicationId option"

record CallResult =
  cr_value :: bytes
  cr_sessions :: "SessionId list"

record ApplicationCallResult =
  acr_value :: bytes
  acr_execution_result :: "bytes RawExecutionResult"
  acr_create_sessions :: "bytes list"

record SessionCallResult =
  scr_inner :: ApplicationCallResult
  scr_close_session :: bool

datatype BaseRequest =
    Req_ChainId
  | Req_ApplicationId
  | Req_ApplicationParameters
  | Req_ReadSystemBalance
  | Req_ReadSystemTimestamp
  | Req_TryReadMyState
  | Req_LockViewUserState
  | Req_UnlockViewUserState
  | Req_ReadKeyBytes bytes
  | Req_FindKeysByPrefix bytes
  | Req_FindKeyValuesByPrefix bytes

datatype ContractRequest =
    Base BaseRequest
  | Req_RemainingFuel
  | Req_SetRemainingFuel u64
  | Req_TryReadAndLockMyState
  | Req_SaveAndUnlockMyState bytes
  | Req_UnlockMyState
  | Req_WriteBatchAndUnlock Batch
  | Req_TryCallApplication bool UserApplicationId bytes "SessionId list"
  | Req_TryCallSession bool SessionId bytes "SessionId list"

datatype ServiceRequest =
    Service_Base BaseRequest
  | Req_TryQueryApplication UserApplicationId bytes

datatype RuntimeResponse =
    Resp_Unit
  | Resp_Chain ChainId
  | Resp_Application UserApplicationId
  | Resp_Bytes bytes
  | Resp_Amount Amount
  | Resp_Timestamp Timestamp
  | Resp_Option "bytes option"
  | Resp_Keys "bytes list"
  | Resp_KeyValues "(bytes \<times> bytes) list"
  | Resp_Fuel u64
  | Resp_Bool bool
  | Resp_Call CallResult

text \<open>
  A run of user code: it returns, reports an error of its own, traps, or sends a request and
  goes on with the answer.
\<close>

datatype ('q, 'r) UserCode =
    Return 'r
  | Fail string
  | Trap ExecutionError
  | Request 'q "RuntimeResponse \<Rightarrow> ('q, 'r) UserCode"

type_synonym 'r ContractCode = "(ContractRequest, 'r) UserCode"

record UserApplication =
  ua_initialize :: "OperationContext \<Rightarrow> bytes \<Rightarrow> bytes RawExecutionResult ContractCode"
  ua_execute_operation :: "OperationContext \<Rightarrow> bytes \<Rightarrow> bytes RawExecutionResult ContractCode"
  ua_execute_message :: "MessageContext \<Rightarrow> bytes \<Rightarrow> bytes RawExecutionResult ContractCode"
  ua_handle_application_call :: "CalleeContext \<Rightarrow> bytes \<Rightarrow> SessionId list \<Rightarrow> ApplicationCallResult ContractCode"
  ua_handle_session_call ::
    "CalleeContext \<Rightarrow> bytes \<Rightarrow> bytes \<Rightarrow> SessionId list \<Rightarrow> (SessionCallResult \<times> bytes) ContractCode"
  ua_handle_query :: "QueryContext \<Rightarrow> bytes \<Rightarrow> (ServiceRequest, bytes) UserCode"

record RuntimeEnv =
  re_system :: SystemEnv
  re_get_user_application :: "UserApplicationDescription \<Rightarrow> (ExecutionError, UserApplication) result"
  re_application_key :: "UserApplicationId \<Rightarrow> bytes"
  re_chain_id :: ChainId
  re_max_depth :: nat

record ExecutionState =
  es_system :: SystemState
  es_simple_users :: "(UserApplicationId \<times> bytes) list"
  es_view_users :: "(UserApplicationId \<times> kv_store) list"

record ApplicationStatus =
  as_id :: UserApplicationId
  as_parameters :: bytes
  as_signer :: "Owner option"

record SessionState =
  ses_owner :: UserApplicationId
  ses_data :: bytes

record SessionManager =
  smg_counters :: "(UserApplicationId \<times> u64) list"
  smg_states :: "(SessionId \<times> SessionState) list"

definition session_manager_default :: SessionManager where
  "session_manager_default = \<lparr>smg_counters = [], smg_states = []\<rparr>"

record RuntimeState =
  rt_remaining_fuel :: u64
  rt_num_reads :: u64
  rt_bytes_read :: u64
  rt_bytes_written :: u64
  rt_runtime_limits :: RuntimeLimits
  rt_chain_id :: ChainId
  rt_applications :: "ApplicationStatus list"
  rt_execution_state :: ExecutionState
  rt_session_manager :: SessionManager
  rt_active_simple_user_states :: "UserApplicationId list"
  rt_active_view_user_states :: "UserApplicationId list"
  rt_active_sessions :: "SessionId list"
  rt_execution_results :: "ExecutionResult list"

definition runtime_new ::
    "ChainId \<Rightarrow> ApplicationStatus list \<Rightarrow> ExecutionState \<Rightarrow> SessionManager \<Rightarrow> ExecutionResult list \<Rightarrow> u64 \<Rightarrow>
     RuntimeLimits \<Rightarrow> RuntimeState" where
  "runtime_new chain_id applications execution_state session_manager execution_results fuel runtime_limits =
     \<lparr>rt_remaining_fuel = fuel, rt_num_reads = 0, rt_bytes_read = 0, rt_bytes_written = 0,
      rt_runtime_limits = runtime_limits, rt_chain_id = chain_id, rt_applications = applications,
      rt_execution_state = execution_state, rt_session_manager = session_manager,
      rt_active_simple_user_states = [], rt_active_view_user_states = [], rt_active_sessions = [],
      rt_execution_results = execution_results\<rparr>"

definition runtime_counts :: "RuntimeState \<Rightarrow> RuntimeCounts" where
  "runtime_counts self =
     \<lparr>cnt_remaining_fuel = rt_remaining_fuel self, cnt_num_reads = rt_num_reads self,
      cnt_bytes_read = rt_bytes_read self, cnt_bytes_written = rt_bytes_written self\<rparr>"

section \<open>Computations with a state that survives errors\<close>

type_synonym 'a rt = "RuntimeState \<Rightarrow> RuntimeState \<times> (ExecutionError, 'a) result"

definition rt_return :: "'a \<Rightarrow> 'a rt" where
  "rt_return a s = (s, Ok a)"

definition rt_lift :: "(ExecutionError, 'a) result \<Rightarrow> 'a rt" where
  "rt_lift r s = (s, r)"

definition rt_bind :: "'a rt \<Rightarrow> ('a \<Rightarrow> 'b rt) \<Rightarrow> 'b rt" where
  "rt_bind m f s =
     (case m s of (s', Ok a) \<Rightarrow> f a s' | (s', Err e) \<Rightarrow> (s', Err e) | (s', Panic) \<Rightarrow> (s', Panic))"

definition rt_get :: "(RuntimeState \<Rightarrow> 'a) \<Rightarrow> 'a rt" where
  "rt_get f s = (s, Ok (f s))"

definition rt_modify :: "(RuntimeState \<Rightarrow> RuntimeState) \<Rightarrow> unit rt" where
  "rt_modify f s = (f s, Ok ())"

definition rt_ensure :: "bool \<Rightarrow> ExecutionError \<Rightarrow> unit rt" where
  "rt_ensure b e s = (s, if b then Ok () else Err e)"

definition rt_then :: "unit rt \<Rightarrow> 'b rt \<Rightarrow> 'b rt" where
  "rt_then m k = rt_bind m (\<lambda>_. k)"

section \<open>Applications and sessions\<close>

definition current_application :: "ApplicationStatus rt" where
  "current_application =
     rt_bind (rt_get rt_applications) (\<lambda>applications.
       rt_lift (if applications = [] then Panic else Ok (last applications)))"

definition application_id :: "UserApplicationId rt" where
  "application_id = rt_bind current_application (\<lambda>application. rt_return (as_id application))"

definition application_parameters :: "bytes rt" where
  "application_parameters = rt_bind current_application (\<lambda>application. rt_return (as_parameters application))"

definition push_application :: "ApplicationStatus \<Rightarrow> unit rt" where
  "push_application status = rt_modify (\<lambda>s. s\<lparr>rt_applications := rt_applications s @ [status]\<rparr>)"

definition pop_application :: "unit rt" where
  "pop_application = rt_modify (\<lambda>s. s\<lparr>rt_applications := butlast (rt_applications s)\<rparr>)"

definition load_application :: "RuntimeEnv \<Rightarrow> UserApplicationId \<Rightarrow> (UserApplication \<times> UserApplicationDescription) rt" where
  "load_application env app_id =
     rt_bind (rt_get (\<lambda>s. ss_registry (es_system (rt_execution_state s)))) (\<lambda>registry.
     rt_bind (rt_lift (map_err Exec_SystemError (describe_application registry app_id))) (\<lambda>description.
     rt_bind (rt_lift (re_get_user_application env description)) (\<lambda>code.
     rt_return (code, description))))"

definition set_session :: "SessionId \<Rightarrow> SessionState \<Rightarrow> unit rt" where
  "set_session session_id state = rt_modify (\<lambda>s. s\<lparr>rt_session_manager :=
     (rt_session_manager s)\<lparr>smg_states := AList.update session_id state (smg_states (rt_session_manager s))\<rparr>\<rparr>)"

text \<open>\<open>try_lock_arc\<close> of a session: the session must exist and not be active.\<close>

definition lock_session :: "SessionId \<Rightarrow> SessionState rt" where
  "lock_session session_id =
     rt_bind (rt_get (\<lambda>s. map_of (smg_states (rt_session_manager s)) session_id)) (\<lambda>state.
     rt_bind (rt_lift (ok_or InvalidSession state)) (\<lambda>state.
     rt_bind (rt_get (\<lambda>s. session_id \<notin> set (rt_active_sessions s))) (\<lambda>free.
     rt_then (rt_ensure free SessionIsInUse) (rt_return state))))"

fun forward_sessions :: "SessionId list \<Rightarrow> UserApplicationId \<Rightarrow> UserApplicationId \<Rightarrow> unit rt" where
  "forward_sessions [] from_id to_id = rt_return ()"
| "forward_sessions (session_id # session_ids) from_id to_id =
     rt_bind (lock_session session_id) (\<lambda>state.
     rt_then (rt_ensure (ses_owner state = from_id) InvalidSessionOwner)
    (rt_then (set_session session_id (state\<lparr>ses_owner := to_id\<rparr>))
             (forward_sessions session_ids from_id to_id)))"

fun make_sessions_loop ::
    "bytes list \<Rightarrow> UserApplicationId \<Rightarrow> UserApplicationId \<Rightarrow> u64 \<Rightarrow> SessionId list \<Rightarrow> (u64 \<times> SessionId list) rt" where
  "make_sessions_loop [] creator_id receiver_id counter session_ids = rt_return (counter, session_ids)"
| "make_sessions_loop (data # new_sessions) creator_id receiver_id counter session_ids =
     (let session_id = SessionId creator_id counter
      in rt_then (set_session session_id \<lparr>ses_owner = receiver_id, ses_data = data\<rparr>)
           (make_sessions_loop new_sessions creator_id receiver_id (counter + 1) (session_ids @ [session_id])))"

definition make_sessions :: "bytes list \<Rightarrow> UserApplicationId \<Rightarrow> UserApplicationId \<Rightarrow> SessionId list rt" where
  "make_sessions new_sessions creator_id receiver_id =
     rt_bind (rt_get (\<lambda>s. case map_of (smg_counters (rt_session_manager s)) creator_id of Some n \<Rightarrow> n | None \<Rightarrow> 0))
       (\<lambda>counter.
     rt_bind (make_sessions_loop new_sessions creator_id receiver_id counter []) (\<lambda>(counter, session_ids).
     rt_then (rt_modify (\<lambda>s. s\<lparr>rt_session_manager :=
        (rt_session_manager s)\<lparr>smg_counters := AList.update creator_id counter (smg_counters (rt_session_manager s))\<rparr>\<rparr>))
      (rt_return session_ids)))"

definition try_load_session :: "SessionId \<Rightarrow> UserApplicationId \<Rightarrow> bytes rt" where
  "try_load_session session_id app_id =
     rt_bind (lock_session session_id) (\<lambda>guard.
     rt_then (rt_ensure (ses_owner guard = app_id) InvalidSessionOwner)
    (rt_then (rt_modify (\<lambda>s. s\<lparr>rt_active_sessions := List.insert session_id (rt_active_sessions s)\<rparr>))
             (rt_return (ses_data guard))))"

text \<open>The state of an active session; its entry exists as long as the session is active.\<close>

definition active_session :: "SessionId \<Rightarrow> SessionState option rt" where
  "active_session session_id =
     rt_get (\<lambda>s. if session_id \<in> set (rt_active_sessions s)
                 then map_of (smg_states (rt_session_manager s)) session_id else None)"

definition release_session :: "SessionId \<Rightarrow> unit rt" where
  "release_session session_id =
     rt_modify (\<lambda>s. s\<lparr>rt_active_sessions := removeAll session_id (rt_active_sessions s)\<rparr>)"

definition try_save_session :: "SessionId \<Rightarrow> UserApplicationId \<Rightarrow> bytes \<Rightarrow> unit rt" where
  "try_save_session session_id app_id data =
     rt_bind (active_session session_id) (\<lambda>guard.
       case guard of
         None \<Rightarrow> rt_return ()
       | Some state \<Rightarrow>
           rt_then (rt_ensure (ses_owner state = app_id) InvalidSessionOwner)
          (rt_then (set_session session_id (state\<lparr>ses_data := data\<rparr>)) (release_session session_id)))"

definition try_close_session :: "SessionId \<Rightarrow> UserApplicationId \<Rightarrow> unit rt" where
  "try_close_session session_id app_id =
     rt_bind (active_session session_id) (\<lambda>guard.
       case guard of
         None \<Rightarrow> rt_return ()
       | Some state \<Rightarrow>
           rt_then (rt_ensure (ses_owner state = app_id) InvalidSessionOwner)
          (rt_then (release_session session_id)
          (rt_bind (rt_get (\<lambda>s. map_of (smg_states (rt_session_manager s)) session_id)) (\<lambda>entry.
           rt_then (rt_modify (\<lambda>s. s\<lparr>rt_session_manager := (rt_session_manager s)
               \<lparr>smg_states := AList.delete session_id (smg_states (rt_session_manager s))\<rparr>\<rparr>))
             (rt_ensure (entry \<noteq> None) InvalidSession)))))"

section \<open>Counting reads and writes\<close>

definition increment_num_reads :: "unit rt" where
  "increment_num_reads =
     rt_then (rt_modify (\<lambda>s. s\<lparr>rt_num_reads := rt_num_reads s + 1\<rparr>))
       (\<lambda>s. (s, if rt_num_reads s \<ge> lim_max_budget_num_reads (rt_runtime_limits s)
                then Err (Exec_ArithmeticError Overflow) else Ok ()))"

definition increment_bytes_read :: "u64 \<Rightarrow> unit rt" where
  "increment_bytes_read increment =
     rt_then (rt_ensure (\<not> increment \<ge> max_value div 2) ExcessiveRead)
    (rt_then (rt_modify (\<lambda>s. s\<lparr>rt_bytes_read := rt_bytes_read s + increment\<rparr>))
       (\<lambda>s. (s, if rt_bytes_read s \<ge> lim_max_budget_bytes_read (rt_runtime_limits s)
                then Err (Exec_ArithmeticError Overflow)
                else if rt_bytes_read s \<ge> lim_maximum_bytes_left_to_read (rt_runtime_limits s)
                then Err ExcessiveRead else Ok ())))"

definition increment_bytes_written :: "u64 \<Rightarrow> unit rt" where
  "increment_bytes_written increment =
     rt_then (rt_ensure (\<not> increment \<ge> max_value div 2) ExcessiveWrite)
    (rt_then (rt_modify (\<lambda>s. s\<lparr>rt_bytes_written := rt_bytes_written s + increment\<rparr>))
       (\<lambda>s. (s, if rt_bytes_written s \<ge> lim_max_budget_bytes_written (rt_runtime_limits s)
                then Err (Exec_ArithmeticError Overflow)
                else if rt_bytes_written s \<ge> lim_maximum_bytes_left_to_write (rt_runtime_limits s)
                then Err ExcessiveWrite else Ok ())))"

section \<open>The state of the current application\<close>

text \<open>\<open>try_load_entry_mut\<close>: fails on a locked entry and creates a missing one.\<close>

definition load_simple_state :: "RuntimeEnv \<Rightarrow> bytes rt" where
  "load_simple_state env =
     rt_bind application_id (\<lambda>app_id.
     rt_bind (rt_get (\<lambda>s. app_id \<notin> set (rt_active_simple_user_states s))) (\<lambda>free.
     rt_then (rt_ensure free (execution_error_from_view (TryLockError (re_application_key env app_id))))
    (rt_bind (rt_get (\<lambda>s. case map_of (es_simple_users (rt_execution_state s)) app_id of Some b \<Rightarrow> b | None \<Rightarrow> []))
       (\<lambda>state.
     rt_then (rt_modify (\<lambda>s. s\<lparr>rt_execution_state := (rt_execution_state s)
        \<lparr>es_simple_users := AList.update app_id state (es_simple_users (rt_execution_state s))\<rparr>\<rparr>))
      (rt_return state)))))"

definition try_read_my_state :: "RuntimeEnv \<Rightarrow> bytes rt" where
  "try_read_my_state env = load_simple_state env"

definition try_read_and_lock_my_state :: "RuntimeEnv \<Rightarrow> bytes rt" where
  "try_read_and_lock_my_state env =
     rt_bind (load_simple_state env) (\<lambda>state.
     rt_bind application_id (\<lambda>app_id.
     rt_then (rt_modify (\<lambda>s. s\<lparr>rt_active_simple_user_states := List.insert app_id (rt_active_simple_user_states s)\<rparr>))
      (rt_return state)))"

definition save_and_unlock_my_state :: "bytes \<Rightarrow> unit rt" where
  "save_and_unlock_my_state state =
     rt_bind application_id (\<lambda>app_id.
     rt_bind (rt_get (\<lambda>s. app_id \<in> set (rt_active_simple_user_states s))) (\<lambda>locked.
     rt_then (rt_ensure locked ApplicationStateNotLocked)
       (rt_modify (\<lambda>s. s\<lparr>rt_active_simple_user_states := removeAll app_id (rt_active_simple_user_states s),
          rt_execution_state := (rt_execution_state s)
            \<lparr>es_simple_users := AList.update app_id state (es_simple_users (rt_execution_state s))\<rparr>\<rparr>))))"

definition unlock_my_state :: "unit rt" where
  "unlock_my_state =
     rt_bind application_id (\<lambda>app_id.
       rt_modify (\<lambda>s. s\<lparr>rt_active_simple_user_states := removeAll app_id (rt_active_simple_user_states s)\<rparr>))"

definition view_state :: "UserApplicationId \<Rightarrow> RuntimeState \<Rightarrow> kv_store" where
  "view_state app_id s = (case map_of (es_view_users (rt_execution_state s)) app_id of Some v \<Rightarrow> v | None \<Rightarrow> [])"

definition set_view_state :: "UserApplicationId \<Rightarrow> kv_store \<Rightarrow> RuntimeState \<Rightarrow> RuntimeState" where
  "set_view_state app_id v s = s\<lparr>rt_execution_state := (rt_execution_state s)
     \<lparr>es_view_users := AList.update app_id v (es_view_users (rt_execution_state s))\<rparr>\<rparr>"

definition lock_view_user_state :: "RuntimeEnv \<Rightarrow> unit rt" where
  "lock_view_user_state env =
     rt_bind application_id (\<lambda>app_id.
     rt_bind (rt_get (\<lambda>s. app_id \<notin> set (rt_active_view_user_states s))) (\<lambda>free.
     rt_then (rt_ensure free (execution_error_from_view (TryLockError (re_application_key env app_id))))
    (rt_then (rt_modify (\<lambda>s. set_view_state app_id (view_state app_id s) s))
       (rt_modify (\<lambda>s. s\<lparr>rt_active_view_user_states := List.insert app_id (rt_active_view_user_states s)\<rparr>)))))"

definition locked_view :: "UserApplicationId rt" where
  "locked_view =
     rt_bind application_id (\<lambda>app_id.
     rt_bind (rt_get (\<lambda>s. app_id \<in> set (rt_active_view_user_states s))) (\<lambda>locked.
     rt_then (rt_ensure locked ApplicationStateNotLocked) (rt_return app_id)))"

definition unlock_view_user_state :: "unit rt" where
  "unlock_view_user_state =
     rt_bind locked_view (\<lambda>app_id.
       rt_modify (\<lambda>s. s\<lparr>rt_active_view_user_states := removeAll app_id (rt_active_view_user_states s)\<rparr>))"

definition rt_read_key_bytes :: "bytes \<Rightarrow> bytes option rt" where
  "rt_read_key_bytes key =
     rt_bind locked_view (\<lambda>app_id.
     rt_bind (rt_get (\<lambda>s. read_key_bytes (view_state app_id s) key)) (\<lambda>result.
     rt_then increment_num_reads
    (rt_then (case result of Some v \<Rightarrow> increment_bytes_read (of_nat (length v)) | None \<Rightarrow> rt_return ())
      (rt_return result))))"

definition rt_find_keys_by_prefix :: "bytes \<Rightarrow> bytes list rt" where
  "rt_find_keys_by_prefix key_prefix =
     rt_bind locked_view (\<lambda>app_id.
     rt_bind (rt_get (\<lambda>s. find_keys_by_prefix (view_state app_id s) key_prefix)) (\<lambda>keys.
     rt_then increment_num_reads
    (rt_then (increment_bytes_read (of_nat (fold (\<lambda>key read_size. read_size + length key) keys 0)))
      (rt_return keys))))"

definition rt_find_key_values_by_prefix :: "bytes \<Rightarrow> (bytes \<times> bytes) list rt" where
  "rt_find_key_values_by_prefix key_prefix =
     rt_bind locked_view (\<lambda>app_id.
     rt_bind (rt_get (\<lambda>s. find_key_values_by_prefix (view_state app_id s) key_prefix)) (\<lambda>key_values.
     rt_then increment_num_reads
    (rt_then (increment_bytes_read
         (of_nat (fold (\<lambda>(key, v) read_size. read_size + (length key + length v)) key_values 0)))
      (rt_return key_values))))"

definition write_batch_and_unlock :: "Batch \<Rightarrow> unit rt" where
  "write_batch_and_unlock batch =
     rt_then (increment_bytes_written (of_nat (batch_size batch)))
    (rt_bind locked_view (\<lambda>app_id.
       rt_modify (\<lambda>s. (set_view_state app_id (write_batch batch (view_state app_id s)) s)
         \<lparr>rt_active_view_user_states := removeAll app_id (rt_active_view_user_states s)\<rparr>)))"

section \<open>Requests\<close>

definition respond :: "('a \<Rightarrow> RuntimeResponse) \<Rightarrow> 'a rt \<Rightarrow> RuntimeResponse rt" where
  "respond f m = rt_bind m (\<lambda>a. rt_return (f a))"

definition handle_base_request :: "RuntimeEnv \<Rightarrow> BaseRequest \<Rightarrow> RuntimeResponse rt" where
  "handle_base_request env request =
     (case request of
        Req_ChainId \<Rightarrow> respond Resp_Chain (rt_get rt_chain_id)
      | Req_ApplicationId \<Rightarrow> respond Resp_Application application_id
      | Req_ApplicationParameters \<Rightarrow> respond Resp_Bytes application_parameters
      | Req_ReadSystemBalance \<Rightarrow> respond Resp_Amount (rt_get (\<lambda>s. ss_balance (es_system (rt_execution_state s))))
      | Req_ReadSystemTimestamp \<Rightarrow> respond Resp_Timestamp (rt_get (\<lambda>s. ss_timestamp (es_system (rt_execution_state s))))
      | Req_TryReadMyState \<Rightarrow> respond Resp_Bytes (try_read_my_state env)
      | Req_LockViewUserState \<Rightarrow> respond (\<lambda>_. Resp_Unit) (lock_view_user_state env)
      | Req_UnlockViewUserState \<Rightarrow> respond (\<lambda>_. Resp_Unit) unlock_view_user_state
      | Req_ReadKeyBytes key \<Rightarrow> respond Resp_Option (rt_read_key_bytes key)
      | Req_FindKeysByPrefix key_prefix \<Rightarrow> respond Resp_Keys (rt_find_keys_by_prefix key_prefix)
      | Req_FindKeyValuesByPrefix key_prefix \<Rightarrow> respond Resp_KeyValues (rt_find_key_values_by_prefix key_prefix))"

text \<open>A run of user code, given the handler of its requests.\<close>

primrec run_code :: "('q \<Rightarrow> RuntimeResponse rt) \<Rightarrow> ('q, 'r) UserCode \<Rightarrow> 'r rt" where
  "run_code h (Return r) = rt_return r"
| "run_code h (Fail message) = rt_lift (Err (UserError message))"
| "run_code h (Trap e) = rt_lift (Err e)"
| "run_code h (Request q k) = rt_bind (h q) (\<lambda>response. run_code h (k response))"

definition authenticated_signer_of :: "bool \<Rightarrow> ApplicationStatus \<Rightarrow> Owner option" where
  "authenticated_signer_of authenticated caller = (if authenticated then as_signer caller else None)"

definition callee_context :: "bool \<Rightarrow> ApplicationStatus \<Rightarrow> ChainId \<Rightarrow> CalleeContext" where
  "callee_context authenticated caller chain_id =
     \<lparr>cc_chain_id = chain_id, cc_authenticated_signer = authenticated_signer_of authenticated caller,
      cc_authenticated_caller_id = (if authenticated then Some (as_id caller) else None)\<rparr>"

definition push_result :: "UserApplicationId \<Rightarrow> bytes RawExecutionResult \<Rightarrow> unit rt" where
  "push_result callee_id result =
     rt_modify (\<lambda>s. s\<lparr>rt_execution_results := rt_execution_results s @ [Result_User callee_id result]\<rparr>)"

definition try_call_application ::
    "RuntimeEnv \<Rightarrow> (ContractRequest \<Rightarrow> RuntimeResponse rt) \<Rightarrow> bool \<Rightarrow> UserApplicationId \<Rightarrow> bytes \<Rightarrow>
     SessionId list \<Rightarrow> CallResult rt" where
  "try_call_application env h authenticated callee_id argument forwarded_sessions =
     rt_bind current_application (\<lambda>caller.
     rt_bind (load_application env callee_id) (\<lambda>(code, description).
     rt_then (forward_sessions forwarded_sessions (as_id caller) callee_id)
    (rt_bind (rt_get (\<lambda>s. callee_context authenticated caller (rt_chain_id s))) (\<lambda>context.
     rt_then (push_application \<lparr>as_id = callee_id, as_parameters = uad_parameters description,
        as_signer = cc_authenticated_signer context\<rparr>)
    (rt_bind (run_code h (ua_handle_application_call code context argument forwarded_sessions)) (\<lambda>raw_result.
     rt_then pop_application
    (rt_then (push_result callee_id
        (with_authenticated_signer (cc_authenticated_signer context) (acr_execution_result raw_result)))
    (rt_bind application_id (\<lambda>app_id.
     rt_bind (make_sessions (acr_create_sessions raw_result) callee_id app_id) (\<lambda>sessions.
     rt_return \<lparr>cr_value = acr_value raw_result, cr_sessions = sessions\<rparr>))))))))))"

definition try_call_session ::
    "RuntimeEnv \<Rightarrow> (ContractRequest \<Rightarrow> RuntimeResponse rt) \<Rightarrow> bool \<Rightarrow> SessionId \<Rightarrow> bytes \<Rightarrow>
     SessionId list \<Rightarrow> CallResult rt" where
  "try_call_session env h authenticated session_id argument forwarded_sessions =
     (let callee_id = sid_application_id session_id
      in rt_bind current_application (\<lambda>caller.
     rt_bind (load_application env callee_id) (\<lambda>(code, description).
     rt_then (forward_sessions forwarded_sessions (as_id caller) callee_id)
    (rt_bind application_id (\<lambda>app_id.
     rt_bind (try_load_session session_id app_id) (\<lambda>session_state.
     rt_bind (rt_get (\<lambda>s. callee_context authenticated caller (rt_chain_id s))) (\<lambda>context.
     rt_then (push_application \<lparr>as_id = callee_id, as_parameters = uad_parameters description,
        as_signer = cc_authenticated_signer context\<rparr>)
    (rt_bind (run_code h (ua_handle_session_call code context session_state argument forwarded_sessions))
       (\<lambda>(raw_result, session_state).
     rt_then pop_application
    (rt_bind application_id (\<lambda>app_id.
     rt_then (if scr_close_session raw_result then try_close_session session_id app_id
              else try_save_session session_id app_id session_state)
    (rt_then (push_result callee_id
        (with_authenticated_signer (cc_authenticated_signer context) (acr_execution_result (scr_inner raw_result))))
    (rt_bind (make_sessions (acr_create_sessions (scr_inner raw_result)) callee_id app_id) (\<lambda>sessions.
     rt_return \<lparr>cr_value = acr_value (scr_inner raw_result), cr_sessions = sessions\<rparr>))))))))))))))"

definition contract_request ::
    "RuntimeEnv \<Rightarrow> (ContractRequest \<Rightarrow> RuntimeResponse rt) \<Rightarrow> ContractRequest \<Rightarrow> RuntimeResponse rt" where
  "contract_request env h request =
     (case request of
        Base base_request \<Rightarrow> handle_base_request env base_request
      | Req_RemainingFuel \<Rightarrow> respond Resp_Fuel (rt_get rt_remaining_fuel)
      | Req_SetRemainingFuel fuel \<Rightarrow> respond (\<lambda>_. Resp_Unit) (rt_modify (\<lambda>s. s\<lparr>rt_remaining_fuel := fuel\<rparr>))
      | Req_TryReadAndLockMyState \<Rightarrow> (\<lambda>s.
          case try_read_and_lock_my_state env s of
            (s', Ok bytes) \<Rightarrow> (s', Ok (Resp_Option (Some bytes)))
          | (s', Err (Exec_ViewError (NotFound _))) \<Rightarrow> (s', Ok (Resp_Option None))
          | (s', Err e) \<Rightarrow> (s', Err e)
          | (s', Panic) \<Rightarrow> (s', Panic))
      | Req_SaveAndUnlockMyState state \<Rightarrow> (\<lambda>s.
          case save_and_unlock_my_state state s of
            (s', Ok _) \<Rightarrow> (s', Ok (Resp_Bool True))
          | (s', Err _) \<Rightarrow> (s', Ok (Resp_Bool False))
          | (s', Panic) \<Rightarrow> (s', Panic))
      | Req_UnlockMyState \<Rightarrow> respond (\<lambda>_. Resp_Unit) unlock_my_state
      | Req_WriteBatchAndUnlock batch \<Rightarrow> respond (\<lambda>_. Resp_Unit) (write_batch_and_unlock batch)
      | Req_TryCallApplication authenticated callee_id argument forwarded_sessions \<Rightarrow>
          respond Resp_Call (try_call_application env h authenticated callee_id argument forwarded_sessions)
      | Req_TryCallSession authenticated session_id argument forwarded_sessions \<Rightarrow>
          respond Resp_Call (try_call_session env h authenticated session_id argument forwarded_sessions))"

primrec handle_request :: "nat \<Rightarrow> RuntimeEnv \<Rightarrow> ContractRequest \<Rightarrow> RuntimeResponse rt" where
  "handle_request 0 env request = rt_lift Panic"
| "handle_request (Suc depth) env request = contract_request env (handle_request depth env) request"

section \<open>Queries\<close>

definition try_query_application ::
    "RuntimeEnv \<Rightarrow> (ServiceRequest \<Rightarrow> RuntimeResponse rt) \<Rightarrow> UserApplicationId \<Rightarrow> bytes \<Rightarrow> bytes rt" where
  "try_query_application env h queried_id argument =
     rt_bind (load_application env queried_id) (\<lambda>(code, description).
     rt_bind (rt_get rt_chain_id) (\<lambda>chain_id.
     rt_then (push_application \<lparr>as_id = queried_id, as_parameters = uad_parameters description, as_signer = None\<rparr>)
    (rt_bind (run_code h (ua_handle_query code \<lparr>qc_chain_id = chain_id\<rparr> argument)) (\<lambda>v.
     rt_then pop_application (rt_return v)))))"

primrec handle_service_request :: "nat \<Rightarrow> RuntimeEnv \<Rightarrow> ServiceRequest \<Rightarrow> RuntimeResponse rt" where
  "handle_service_request 0 env request = rt_lift Panic"
| "handle_service_request (Suc depth) env request =
     (case request of
        Service_Base base_request \<Rightarrow> handle_base_request env base_request
      | Req_TryQueryApplication queried_id argument \<Rightarrow>
          respond Resp_Bytes (try_query_application env (handle_service_request depth env) queried_id argument))"

end
