(* ===== verification/Execution.thy ===== *)
theory Execution
  imports Runtime
begin

text \<open>
  \<open>linera-execution/src/execution.rs\<close>: executing operations, messages and queries of system and
  user applications on the execution state of a chain. An operation that fails leaves no
  state behind: the chain discards the view.
\<close>

definition execution_state_default :: ExecutionState where
  "execution_state_default = \<lparr>es_system = system_default, es_simple_users = [], es_view_users = []\<rparr>"

datatype UserAction =
    Action_Initialize OperationContext bytes
  | Action_Operation OperationContext bytes
  | Action_Message MessageContext bytes

definition action_signer :: "UserAction \<Rightarrow> Owner option" where
  "action_signer self =
     (case self of
        Action_Initialize context _ \<Rightarrow> opc_authenticated_signer context
      | Action_Operation context _ \<Rightarrow> opc_authenticated_signer context
      | Action_Message context _ \<Rightarrow> msc_authenticated_signer context)"

definition action_code :: "UserApplication \<Rightarrow> UserAction \<Rightarrow> bytes RawExecutionResult ContractCode" where
  "action_code application action =
     (case action of
        Action_Initialize context argument \<Rightarrow> ua_initialize application context argument
      | Action_Operation context operation \<Rightarrow> ua_execute_operation application context operation
      | Action_Message context message \<Rightarrow> ua_execute_message application context message)"

text \<open>User errors are ignored for now (\<open>TODO(#989)\<close> in the code).\<close>

definition ignore_user_error ::
    "(ExecutionError, 'm RawExecutionResult) result \<Rightarrow> (ExecutionError, 'm RawExecutionResult) result" where
  "ignore_user_error call_result =
     (case call_result of Err (UserError message) \<Rightarrow> Ok raw_result_default | _ \<Rightarrow> call_result)"

definition declare_applications ::
    "UserApplicationDescription list \<Rightarrow> bytes RawExecutionResult \<Rightarrow> SystemMessage RawExecutionResult" where
  "declare_applications applications result =
     raw_result_default\<lparr>rer_messages :=
       map (\<lambda>message. \<lparr>rom_destination = rom_destination message, rom_authenticated = False,
           rom_is_skippable = True, rom_message = Msg_RegisterApplications applications\<rparr>)
         (rer_messages result)\<rparr>"

type_synonym execution_outcome = "ExecutionState \<times> ResourceTracker \<times> ExecutionResult list"

definition start_runtime ::
    "ChainId \<Rightarrow> ExecutionState \<Rightarrow> UserApplicationId \<Rightarrow> bytes \<Rightarrow> Owner option \<Rightarrow> u64 \<Rightarrow> RuntimeLimits \<Rightarrow> RuntimeState" where
  "start_runtime chain_id self app_id parameters signer fuel runtime_limits =
     runtime_new chain_id [\<lparr>as_id = app_id, as_parameters = parameters, as_signer = signer\<rparr>] self
       session_manager_default [] fuel runtime_limits"

definition finish_user_action ::
    "UserApplicationId \<Rightarrow> Owner option \<Rightarrow> ResourceControlPolicy \<Rightarrow> ResourceTracker \<Rightarrow> RuntimeState \<Rightarrow>
     bytes RawExecutionResult \<Rightarrow> (ExecutionError, execution_outcome) result" where
  "finish_user_action app_id signer policy tracker runtime result =
     (let result = result\<lparr>rer_authenticated_signer := signer\<rparr>;
          state = rt_execution_state runtime;
          system = es_system state
      in and_then (update_limits tracker (ss_balance system) policy (runtime_counts runtime)) (\<lambda>(tracker, balance).
         let state = state\<lparr>es_system := system\<lparr>ss_balance := balance\<rparr>\<rparr>;
             applications = rt_applications runtime
         in assert_that (length applications = 1)
        (assert_that (as_id (applications ! 0) = app_id)
        (and_then (map_err Exec_SystemError
            (describe_applications_with_dependencies (ss_registry (es_system state)) [app_id] [])) (\<lambda>descriptions.
           let system_result = declare_applications descriptions result;
               results = rt_execution_results runtime @
                 (if rer_messages system_result \<noteq> [] then [Result_System system_result] else []) @
                 [Result_User app_id result]
           in ensure (smg_states (rt_session_manager runtime) = []) SessionWasNotClosed
                (Ok (state, tracker, results)))))))"

definition run_user_action ::
    "RuntimeEnv \<Rightarrow> ExecutionState \<Rightarrow> UserApplicationId \<Rightarrow> ChainId \<Rightarrow> UserAction \<Rightarrow> ResourceControlPolicy \<Rightarrow>
     ResourceTracker \<Rightarrow> (ExecutionError, execution_outcome) result" where
  "run_user_action env self app_id chain_id action policy tracker =
     (let balance = ss_balance (es_system self);
          runtime_limits = limits tracker policy balance;
          initial_remaining_fuel = remaining_fuel policy balance
      in and_then (map_err Exec_SystemError (describe_application (ss_registry (es_system self)) app_id)) (\<lambda>description.
         and_then (re_get_user_application env description) (\<lambda>application.
         let signer = action_signer action;
             runtime = start_runtime chain_id self app_id (uad_parameters description) signer initial_remaining_fuel
               runtime_limits
         in assert_that (chain_id = re_chain_id env)
           (let (runtime, call_result) =
                run_code (handle_request (re_max_depth env) env) (action_code application action) runtime
            in and_then (ignore_user_error call_result) (\<lambda>result.
               finish_user_action app_id signer policy tracker runtime result)))))"

definition execute_operation ::
    "RuntimeEnv \<Rightarrow> ExecutionState \<Rightarrow> OperationContext \<Rightarrow> Operation \<Rightarrow> ResourceControlPolicy \<Rightarrow> ResourceTracker \<Rightarrow>
     (ExecutionError, execution_outcome) result" where
  "execute_operation env self context operation policy tracker =
     assert_that (opc_chain_id context = re_chain_id env)
       (case operation of
          Operation_System op \<Rightarrow>
            and_then (map_err Exec_SystemError (system_execute_operation (re_system env) context op (es_system self)))
              (\<lambda>((system, result), new_application).
               let result = result\<lparr>rer_authenticated_signer := opc_authenticated_signer context\<rparr>;
                   self = self\<lparr>es_system := system\<rparr>;
                   results = [Result_System result]
               in case new_application of
                    Some (app_id, argument) \<Rightarrow>
                      map_ok (\<lambda>(self, tracker, more). (self, tracker, results @ more))
                        (run_user_action env self app_id (opc_chain_id context) (Action_Initialize context argument)
                           policy tracker)
                  | None \<Rightarrow> Ok (self, tracker, results))
        | Operation_User app_id bytes \<Rightarrow>
            run_user_action env self app_id (opc_chain_id context) (Action_Operation context bytes) policy tracker)"

definition execute_message ::
    "RuntimeEnv \<Rightarrow> ExecutionState \<Rightarrow> MessageContext \<Rightarrow> Message \<Rightarrow> ResourceControlPolicy \<Rightarrow> ResourceTracker \<Rightarrow>
     (ExecutionError, execution_outcome) result" where
  "execute_message env self context message policy tracker =
     assert_that (msc_chain_id context = re_chain_id env)
       (case message of
          Message_System message \<Rightarrow>
            and_then (map_err Exec_SystemError (system_execute_message (re_system env) context message (es_system self)))
              (\<lambda>(system, result). Ok (self\<lparr>es_system := system\<rparr>, tracker, [Result_System result]))
        | Message_User app_id bytes \<Rightarrow>
            run_user_action env self app_id (msc_chain_id context) (Action_Message context bytes) policy tracker)"

definition query_application ::
    "RuntimeEnv \<Rightarrow> ExecutionState \<Rightarrow> QueryContext \<Rightarrow> Query \<Rightarrow> (ExecutionError, ExecutionState \<times> Response) result" where
  "query_application env self context query =
     assert_that (qc_chain_id context = re_chain_id env)
       (case query of
          Query_System \<Rightarrow> Ok (self, Response_System (system_handle_query context (es_system self)))
        | Query_User app_id bytes \<Rightarrow>
            and_then (map_err Exec_SystemError (describe_application (ss_registry (es_system self)) app_id))
              (\<lambda>description.
            and_then (re_get_user_application env description) (\<lambda>application.
            let runtime = start_runtime (qc_chain_id context) self app_id (uad_parameters description) None 0
                  runtime_limits_default;
                (runtime, response) = run_code (handle_service_request (re_max_depth env) env)
                  (ua_handle_query application context bytes) runtime
            in and_then response (\<lambda>response.
               assert_that (length (rt_applications runtime) = 1)
                 (assert_that (as_id (rt_applications runtime ! 0) = app_id)
                   (Ok (rt_execution_state runtime, Response_User response)))))))"

definition list_applications ::
    "RuntimeEnv \<Rightarrow> ExecutionState \<Rightarrow> (UserApplicationId \<times> UserApplicationDescription) list" where
  "list_applications env self =
     map_view_index_values (re_application_key env) (ar_known_applications (ss_registry (es_system self)))"

end
