(* ===== verification/Outbox.thy ===== *)
theory Outbox
  imports Certificates
begin

text \<open>
  \<open>linera-chain/src/outbox.rs\<close>: the queue of block heights whose messages are still to be
  received by another chain. The queue is the content of its queue view. The invariant is
  that heights increase and stay below the next height to schedule; every scheduled height is
  then acknowledged exactly once and in order.
\<close>

record OutboxState =
  ob_next_height_to_schedule :: BlockHeight
  ob_queue :: "BlockHeight list"

definition outbox_default :: OutboxState where
  "outbox_default = \<lparr>ob_next_height_to_schedule = 0, ob_queue = []\<rparr>"

definition schedule_message :: "OutboxState \<Rightarrow> BlockHeight \<Rightarrow> (ArithmeticError, OutboxState \<times> bool) result" where
  "schedule_message self height =
     (if height < ob_next_height_to_schedule self then Ok (self, False)
      else and_then (try_add_one height) (\<lambda>next_height.
        Ok (self\<lparr>ob_next_height_to_schedule := next_height, ob_queue := ob_queue self @ [height]\<rparr>, True)))"

text \<open>The loop returns the rest of the queue and the acknowledged heights.\<close>

fun dequeue_up_to :: "BlockHeight \<Rightarrow> BlockHeight list \<Rightarrow> BlockHeight list \<Rightarrow> BlockHeight list \<times> BlockHeight list" where
  "dequeue_up_to height [] updates = ([], updates)"
| "dequeue_up_to height (h # queue) updates =
     (if h > height then (h # queue, updates) else dequeue_up_to height queue (updates @ [h]))"

definition outbox_mark_messages_as_received :: "OutboxState \<Rightarrow> BlockHeight \<Rightarrow> OutboxState \<times> BlockHeight list" where
  "outbox_mark_messages_as_received self height =
     (let (queue, updates) = dequeue_up_to height (ob_queue self) [] in (self\<lparr>ob_queue := queue\<rparr>, updates))"

section \<open>The invariant\<close>

definition outbox_inv :: "OutboxState \<Rightarrow> bool" where
  "outbox_inv ob \<longleftrightarrow> sorted_wrt (<) (ob_queue ob) \<and> (\<forall>h \<in> set (ob_queue ob). h < ob_next_height_to_schedule ob)"

lemma outbox_inv_default: "outbox_inv outbox_default"
  by (simp add: outbox_inv_def outbox_default_def)

lemma dequeue_up_to_acc:
  "dequeue_up_to height queue updates = (rest, ups) \<longleftrightarrow>
     (\<exists>taken. ups = updates @ taken \<and> dequeue_up_to height queue [] = (rest, taken))"
proof (induction queue arbitrary: updates ups)
  case (Cons h queue)
  show ?case using Cons.IH [of "updates @ [h]"] Cons.IH [of "[h]"] by auto
qed auto

lemma dequeue_up_to_eq:
  "dequeue_up_to height queue [] =
     (dropWhile (\<lambda>h. h \<le> height) queue, takeWhile (\<lambda>h. h \<le> height) queue)"
proof (induction queue)
  case (Cons h queue)
  then show ?case by (auto simp: dequeue_up_to_acc [of _ _ "[h]"])
qed simp

lemma sorted_takeWhile_le:
  "sorted_wrt (<) hs \<Longrightarrow> takeWhile (\<lambda>h. h \<le> b) hs = filter (\<lambda>h. h \<le> b) hs"
  "sorted_wrt (<) hs \<Longrightarrow> dropWhile (\<lambda>h. h \<le> b) hs = filter (\<lambda>h. b < h) hs"
  for hs :: "'a::linorder list"
proof (induction hs)
  case (Cons h hs)
  {
    case 1
    then show ?case using Cons by (fastforce simp: filter_empty_conv eq_commute [of "[]"])
  next
    case 2
    then show ?case using Cons by (fastforce simp: filter_id_conv eq_commute [of hs])
  }
qed auto

text \<open>On a queue in order, exactly the heights up to the given one are dequeued.\<close>

lemma mark_messages_as_received_eq:
  assumes "outbox_inv ob"
  shows "outbox_mark_messages_as_received ob height =
    (ob\<lparr>ob_queue := filter (\<lambda>h. height < h) (ob_queue ob)\<rparr>, filter (\<lambda>h. h \<le> height) (ob_queue ob))"
  using assms by (simp add: outbox_mark_messages_as_received_def outbox_inv_def dequeue_up_to_eq sorted_takeWhile_le)

lemma mark_messages_as_received_inv:
  "outbox_inv ob \<Longrightarrow> outbox_inv (fst (outbox_mark_messages_as_received ob height))"
  by (simp add: mark_messages_as_received_eq) (auto simp: outbox_inv_def sorted_wrt_filter)

lemma schedule_message_Ok_iff:
  "schedule_message ob h = Ok (ob', b) \<longleftrightarrow>
     (if h < ob_next_height_to_schedule ob then ob' = ob \<and> \<not> b
      else b \<and> (\<exists>n. try_add_one h = Ok n \<and>
        ob' = ob\<lparr>ob_next_height_to_schedule := n, ob_queue := ob_queue ob @ [h]\<rparr>))"
  by (auto simp: schedule_message_def simp del: try_add_one_Ok_iff)

lemma try_add_one_less: "try_add_one x = Ok n \<Longrightarrow> y < n \<longleftrightarrow> y \<le> x"
  by (auto simp: word_less_nat_alt word_le_nat_alt)

lemma schedule_message_inv:
  "outbox_inv ob \<Longrightarrow> schedule_message ob h = Ok (ob', b) \<Longrightarrow> outbox_inv ob'"
  by (fastforce simp: schedule_message_Ok_iff outbox_inv_def sorted_wrt_append try_add_one_less
      simp del: try_add_one_Ok_iff split: if_splits)

end
