(* ===== verification/Chain.thy ===== *)
theory Chain
  imports Execution Manager Inbox Outbox
begin

text \<open>
  \<open>linera-chain/src/chain.rs\<close>: the state of a chain, how it executes blocks, receives blocks of
  other chains and acknowledges deliveries. Views are modelled by their contents: collections
  by association lists in which loading an entry creates it with its default content, and
  loading several entries at once fails when one is asked for twice, as its lock is then taken.
  An operation that fails leaves no state behind: the worker discards the view.
\<close>

section \<open>State\<close>

record ChainTipState =
  tip_block_hash :: "CryptoHash option"
  tip_next_block_height :: BlockHeight

definition tip_default :: ChainTipState where
  "tip_default = \<lparr>tip_block_hash = None, tip_next_block_height = 0\<rparr>"

definition verify_block_chaining :: "ChainTipState \<Rightarrow> Block \<Rightarrow> (ChainError, unit) result" where
  "verify_block_chaining self new_block =
     ensure (blk_height new_block = tip_next_block_height self)
       (UnexpectedBlockHeight (tip_next_block_height self) (blk_height new_block))
    (ensure (blk_previous_block_hash new_block = tip_block_hash self) UnexpectedPreviousBlockHash
      (Ok ()))"

definition already_validated_block :: "ChainTipState \<Rightarrow> BlockHeight \<Rightarrow> (ChainError, bool) result" where
  "already_validated_block self height =
     ensure (tip_next_block_height self \<ge> height) (MissingEarlierBlocks (tip_next_block_height self))
       (Ok (tip_next_block_height self > height))"

record ChannelState =
  chn_subscribers :: "ChainId list"
  chn_block_height :: "BlockHeight option"

definition channel_default :: ChannelState where
  "channel_default = \<lparr>chn_subscribers = [], chn_block_height = None\<rparr>"

record ChainState =
  cs_execution_state :: ExecutionState
  cs_execution_state_hash :: "CryptoHash option"
  cs_tip_state :: ChainTipState
  cs_manager :: ChainManager
  cs_confirmed_log :: "CryptoHash list"
  cs_received_log :: "ChainAndHeight list"
  cs_inboxes :: "(Origin \<times> InboxState) list"
  cs_outboxes :: "(Target \<times> OutboxState) list"
  cs_outbox_counters :: "(BlockHeight, u32) BTreeMap"
  cs_channels :: "(ChannelFullName \<times> ChannelState) list"

definition chain_default :: ChainState where
  "chain_default =
     \<lparr>cs_execution_state = execution_state_default, cs_execution_state_hash = None, cs_tip_state = tip_default,
      cs_manager = Manager_None, cs_confirmed_log = [], cs_received_log = [], cs_inboxes = [], cs_outboxes = [],
      cs_outbox_counters = [], cs_channels = []\<rparr>"

text \<open>
  The external functions: the runtime of the applications and the sampler of the leaders, the hash
  of the execution state, the BCS sizes that fees are computed on, and the serialised
  keys that errors name and indices are listed by.
\<close>

record ChainEnv =
  ce_runtime :: RuntimeEnv
  ce_sampler :: Sampler
  ce_crypto_hash :: "ExecutionState \<Rightarrow> CryptoHash"
  ce_incoming_messages_size :: "IncomingMessage list sizer"
  ce_operations_size :: "Operation list sizer"
  ce_origin_key :: "Origin \<Rightarrow> bytes"
  ce_target_key :: "Target \<Rightarrow> bytes"
  ce_channel_key :: "ChannelFullName \<Rightarrow> bytes"
  ce_chain_id_key :: "ChainId \<Rightarrow> bytes"

definition chain_id_of :: "ChainEnv \<Rightarrow> ChainId" where
  "chain_id_of env = re_chain_id (ce_runtime env)"

section \<open>Collections\<close>

definition entry_or :: "'v \<Rightarrow> ('k \<times> 'v) list \<Rightarrow> 'k \<Rightarrow> 'v" where
  "entry_or d entries index = (case map_of entries index of Some view \<Rightarrow> view | None \<Rightarrow> d)"

definition try_load_entry :: "'v \<Rightarrow> 'k \<Rightarrow> ('k \<times> 'v) list \<Rightarrow> ('k \<times> 'v) list" where
  "try_load_entry d index entries = AList.update index (entry_or d entries index) entries"

definition try_load_entries_mut ::
    "('k \<Rightarrow> bytes) \<Rightarrow> 'v \<Rightarrow> 'k list \<Rightarrow> ('k \<times> 'v) list \<Rightarrow> (ChainError, ('k \<times> 'v) list) result" where
  "try_load_entries_mut key d indices entries =
     map_ok fst (try_fold (\<lambda>(entries, locked) index.
       ensure (index \<notin> set locked) (Chain_ViewError (TryLockError (key index)))
         (Ok (try_load_entry d index entries, index # locked))) (entries, []) indices)"

section \<open>Queries\<close>

definition chain_query_application ::
    "ChainEnv \<Rightarrow> Query \<Rightarrow> ChainState \<Rightarrow> (ChainError, ChainState \<times> Response) result" where
  "chain_query_application env query self =
     and_then (map_err (\<lambda>error. Chain_ExecutionError error Ctx_Query)
         (query_application (ce_runtime env) (cs_execution_state self) \<lparr>qc_chain_id = chain_id_of env\<rparr> query))
       (\<lambda>(state, response). Ok (self\<lparr>cs_execution_state := state\<rparr>, response))"

definition chain_describe_application ::
    "UserApplicationId \<Rightarrow> ChainState \<Rightarrow> (ChainError, UserApplicationDescription) result" where
  "chain_describe_application app_id self =
     map_err (\<lambda>error. Chain_ExecutionError (Exec_SystemError error) Ctx_DescribeApplication)
       (describe_application (ss_registry (es_system (cs_execution_state self))) app_id)"

definition chain_is_active :: "ChainState \<Rightarrow> bool" where
  "chain_is_active self = system_is_active (es_system (cs_execution_state self))"

definition ensure_is_active :: "ChainEnv \<Rightarrow> ChainState \<Rightarrow> (ChainError, unit) result" where
  "ensure_is_active env self = (if chain_is_active self then Ok () else Err (InactiveChain (chain_id_of env)))"

section \<open>Deliveries\<close>

definition decrement_counter ::
    "(BlockHeight, u32) BTreeMap \<Rightarrow> BlockHeight \<Rightarrow> (ChainError, (BlockHeight, u32) BTreeMap) result" where
  "decrement_counter counters update =
     and_then (expect (btree_get counters update)) (\<lambda>counter.
     and_then (expect (checked_sub counter 1)) (\<lambda>counter.
       Ok (if counter = 0 then btree_remove update counters else btree_insert update counter counters)))"

definition mark_messages_as_received ::
    "Target \<Rightarrow> BlockHeight \<Rightarrow> ChainState \<Rightarrow> (ChainError, ChainState \<times> bool) result" where
  "mark_messages_as_received target height self =
     (let (outbox, updates) = outbox_mark_messages_as_received (entry_or outbox_default (cs_outboxes self) target) height;
          self = self\<lparr>cs_outboxes := AList.update target outbox (cs_outboxes self)\<rparr>
      in if updates = [] then Ok (self, False)
         else and_then (try_fold decrement_counter (cs_outbox_counters self) updates) (\<lambda>counters.
           let self = self\<lparr>cs_outbox_counters := counters\<rparr>;
               self = (if ob_queue outbox = [] then self\<lparr>cs_outboxes := AList.delete target (cs_outboxes self)\<rparr> else self)
           in Ok (self, True)))"

definition all_messages_delivered_up_to :: "BlockHeight \<Rightarrow> ChainState \<Rightarrow> bool" where
  "all_messages_delivered_up_to height self =
     (case cs_outbox_counters self of (key, _) # _ \<Rightarrow> key > height | [] \<Rightarrow> True)"

section \<open>Receiving blocks\<close>

definition validate_incoming_messages :: "ChainEnv \<Rightarrow> ChainState \<Rightarrow> (ChainError, unit) result" where
  "validate_incoming_messages env self =
     try_fold (\<lambda>_ (origin, inbox).
       case ib_removed_events inbox of
         event # _ \<Rightarrow> Err (MissingCrossChainUpdate (chain_id_of env) origin (ev_height event))
       | [] \<Rightarrow> Ok ()) () (map_view_index_values (ce_origin_key env) (cs_inboxes self))"

definition next_block_height_to_receive ::
    "Origin \<Rightarrow> ChainState \<Rightarrow> (ChainError, ChainState \<times> BlockHeight) result" where
  "next_block_height_to_receive origin self =
     (let self = self\<lparr>cs_inboxes := try_load_entry inbox_default origin (cs_inboxes self)\<rparr>
      in map_ok (Pair self) (inbox_next_block_height_to_receive (entry_or inbox_default (cs_inboxes self) origin)))"

definition last_anticipated_block_height :: "Origin \<Rightarrow> ChainState \<Rightarrow> ChainState \<times> BlockHeight option" where
  "last_anticipated_block_height origin self =
     (let self = self\<lparr>cs_inboxes := try_load_entry inbox_default origin (cs_inboxes self)\<rparr>;
          events = ib_removed_events (entry_or inbox_default (cs_inboxes self) origin)
      in (self, if events = [] then None else Some (ev_height (last events))))"

definition execute_immediate_message ::
    "ChainEnv \<Rightarrow> MessageId \<Rightarrow> Message \<Rightarrow> Timestamp \<Rightarrow> Timestamp \<Rightarrow> ChainState \<Rightarrow> (ChainError, ChainState) result" where
  "execute_immediate_message env message_id message timestamp now self =
     (case message of
        Message_System (Msg_OpenChain ownership admin_id epoch committees) \<Rightarrow>
          and_then (system_open_chain (re_system (ce_runtime env)) message_id ownership epoch committees admin_id timestamp
              (es_system (cs_execution_state self))) (\<lambda>system.
            let state = (cs_execution_state self)\<lparr>es_system := system\<rparr>;
                self = self\<lparr>cs_execution_state := state, cs_execution_state_hash := Some (ce_crypto_hash env state)\<rparr>
            in and_then (manager_reset (ce_sampler env) (ss_ownership system) 0 now) (\<lambda>manager.
                 Ok (self\<lparr>cs_manager := manager\<rparr>)))
      | _ \<Rightarrow> Ok self)"

text \<open>\<open>receive_block\<close> keeps the messages that belong to the origin and to this chain.\<close>

definition is_for :: "ChainId \<Rightarrow> Origin \<Rightarrow> OutgoingMessage \<Rightarrow> bool" where
  "is_for chain_id origin outgoing_message =
     (case om_destination outgoing_message of
        Recipient i \<Rightarrow> or_medium origin = Direct \<and> i = chain_id
      | Subscribers name \<Rightarrow>
          or_medium origin = Channel (ChannelFullName (message_application_id (om_message outgoing_message)) name))"

definition receive_message ::
    "ChainEnv \<Rightarrow> Origin \<Rightarrow> BlockHeight \<Rightarrow> Timestamp \<Rightarrow> CryptoHash \<Rightarrow> Timestamp \<Rightarrow> ChainState \<times> Event list \<Rightarrow>
     nat \<times> OutgoingMessage \<Rightarrow> (ChainError, ChainState \<times> Event list) result" where
  "receive_message env origin height timestamp certificate_hash now =
     (\<lambda>(self, events) (index, outgoing_message).
       and_then (ok_or (Chain_ArithmeticError Overflow) (try_from_nat index)) (\<lambda>index.
         if \<not> is_for (chain_id_of env) origin outgoing_message then Ok (self, events)
         else and_then
           (case om_message outgoing_message of
              Message_System _ \<Rightarrow>
                execute_immediate_message env (MessageId (or_sender origin) height index)
                  (om_message outgoing_message) timestamp now self
            | _ \<Rightarrow> Ok self) (\<lambda>self.
           Ok (self, events @ [\<lparr>ev_certificate_hash = certificate_hash, ev_height = height, ev_index = index,
             ev_authenticated_signer = om_authenticated_signer outgoing_message,
             ev_is_skippable = om_is_skippable outgoing_message, ev_timestamp = timestamp,
             ev_message = om_message outgoing_message\<rparr>]))))"

definition receive_error :: "InboxError \<Rightarrow> ChainError" where
  "receive_error error =
     (case error of
        Inbox_ViewError error \<Rightarrow> Chain_ViewError error
      | _ \<Rightarrow> InternalError ''while processing messages in certified block'')"

definition receive_block ::
    "ChainEnv \<Rightarrow> Origin \<Rightarrow> BlockHeight \<Rightarrow> Timestamp \<Rightarrow> OutgoingMessage list \<Rightarrow> CryptoHash \<Rightarrow> Timestamp \<Rightarrow> ChainState \<Rightarrow>
     (ChainError, ChainState) result" where
  "receive_block env origin height timestamp messages certificate_hash now self =
     and_then (next_block_height_to_receive origin self) (\<lambda>(self, next_height).
     ensure (height \<ge> next_height) (InternalError ''Trying to receive blocks in the wrong order'')
    (and_then (try_fold (receive_message env origin height timestamp certificate_hash now) (self, [])
        (enumerate 0 messages)) (\<lambda>(self, events).
     ensure (events \<noteq> []) (InternalError ''The block was entirely ignored'')
    (and_then (try_fold (\<lambda>inbox event. map_err receive_error (add_event inbox event))
        (entry_or inbox_default (cs_inboxes self) origin) events) (\<lambda>inbox.
       Ok (self\<lparr>cs_inboxes := AList.update origin inbox (cs_inboxes self),
                cs_received_log := cs_received_log self @
                  [\<lparr>cah_chain_id = or_sender origin, cah_height = height\<rparr>]\<rparr>))))))"

section \<open>Executing blocks\<close>

definition collect_event ::
    "ChainId \<Rightarrow> Block \<Rightarrow> (Origin, Event list) BTreeMap \<Rightarrow> IncomingMessage \<Rightarrow>
     (ChainError, (Origin, Event list) BTreeMap) result" where
  "collect_event chain_id block events_by_origin message =
     ensure (ev_timestamp (im_event message) \<le> blk_timestamp block)
       (IncorrectEventTimestamp chain_id (ev_timestamp (im_event message)) (blk_timestamp block))
       (Ok (btree_insert (im_origin message) (btree_get_or [] events_by_origin (im_origin message) @ [im_event message])
          events_by_origin))"

definition remove_events_from_inboxes :: "ChainEnv \<Rightarrow> Block \<Rightarrow> ChainState \<Rightarrow> (ChainError, ChainState) result" where
  "remove_events_from_inboxes env block self =
     and_then (try_fold (collect_event (chain_id_of env) block) [] (blk_incoming_messages block)) (\<lambda>events_by_origin.
     and_then (try_load_entries_mut (ce_origin_key env) inbox_default (map fst events_by_origin) (cs_inboxes self)) (\<lambda>inboxes.
     and_then (try_fold (\<lambda>inboxes (origin, events).
         map_ok (\<lambda>inbox. AList.update origin inbox inboxes)
           (try_fold (\<lambda>inbox event. map_err (chain_error_from_inbox (chain_id_of env) origin) (remove_event inbox event))
              (entry_or inbox_default inboxes origin) events)) inboxes events_by_origin) (\<lambda>inboxes.
       Ok (self\<lparr>cs_inboxes := inboxes\<rparr>))))"

definition schedule_for ::
    "ChainState \<Rightarrow> Target \<times> BlockHeight \<Rightarrow> (ChainError, ChainState) result" where
  "schedule_for self target_height =
     (let (target, height) = target_height
      in and_then (map_err Chain_ArithmeticError
             (schedule_message (entry_or outbox_default (cs_outboxes self) target) height)) (\<lambda>(outbox, scheduled).
           let self = self\<lparr>cs_outboxes := AList.update target outbox (cs_outboxes self)\<rparr>
           in Ok (if scheduled
                  then self\<lparr>cs_outbox_counters :=
                    btree_insert height (btree_get_or 0 (cs_outbox_counters self) height + 1) (cs_outbox_counters self)\<rparr>
                  else self)))"

definition schedule_all ::
    "ChainEnv \<Rightarrow> (Target \<times> BlockHeight) list \<Rightarrow> ChainState \<Rightarrow> (ChainError, ChainState) result" where
  "schedule_all env targets self =
     and_then (try_load_entries_mut (ce_target_key env) outbox_default (map fst targets) (cs_outboxes self)) (\<lambda>outboxes.
       try_fold schedule_for (self\<lparr>cs_outboxes := outboxes\<rparr>) targets)"

text \<open>
  The sets of recipients and of channels are hash sets; the model lists them in the order of
  their last message.
\<close>

definition recipients_of :: "'m RawOutgoingMessage list \<Rightarrow> ChainId list" where
  "recipients_of messages =
     remdups (List.map_filter (\<lambda>m. case rom_destination m of Recipient i \<Rightarrow> Some i | _ \<Rightarrow> None) messages)"

definition broadcasts_of :: "'m RawOutgoingMessage list \<Rightarrow> ChannelName list" where
  "broadcasts_of messages =
     remdups (List.map_filter (\<lambda>m. case rom_destination m of Subscribers name \<Rightarrow> Some name | _ \<Rightarrow> None) messages)"

definition outgoing :: "('m \<Rightarrow> Message) \<Rightarrow> 'm RawExecutionResult \<Rightarrow> OutgoingMessage list" where
  "outgoing lift raw_result =
     map (\<lambda>m. \<lparr>om_destination = rom_destination m,
         om_authenticated_signer = (if rom_authenticated m then rer_authenticated_signer raw_result else None),
         om_is_skippable = rom_is_skippable m, om_message = lift (rom_message m)\<rparr>) (rer_messages raw_result)"

definition load_channels ::
    "ChainEnv \<Rightarrow> ChannelFullName list \<Rightarrow> ChainState \<Rightarrow> (ChainError, ChainState) result" where
  "load_channels env full_names self =
     map_ok (\<lambda>channels. self\<lparr>cs_channels := channels\<rparr>)
       (try_load_entries_mut (ce_channel_key env) channel_default full_names (cs_channels self))"

definition channel_of :: "ChainState \<Rightarrow> ChannelFullName \<Rightarrow> ChannelState" where
  "channel_of self full_name = entry_or channel_default (cs_channels self) full_name"

definition set_channel :: "ChannelFullName \<Rightarrow> ChannelState \<Rightarrow> ChainState \<Rightarrow> ChainState" where
  "set_channel full_name channel self = self\<lparr>cs_channels := AList.update full_name channel (cs_channels self)\<rparr>"

definition remove_subscriber :: "ChannelFullName \<times> ChainId \<Rightarrow> ChainState \<Rightarrow> ChainState" where
  "remove_subscriber = (\<lambda>(full_name, i) self.
     let channel = channel_of self full_name
     in set_channel full_name (channel\<lparr>chn_subscribers := removeAll i (chn_subscribers channel)\<rparr>) self)"

definition broadcast :: "ChainEnv \<Rightarrow> BlockHeight \<Rightarrow> ChannelFullName \<Rightarrow> ChainState \<times> Target list \<Rightarrow> ChainState \<times> Target list" where
  "broadcast env height full_name = (\<lambda>(self, targets).
     let channel = channel_of self full_name;
         recipients = sort_key (ce_chain_id_key env) (chn_subscribers channel)
     in (set_channel full_name (channel\<lparr>chn_block_height := Some height\<rparr>) self,
         targets @ map (\<lambda>recipient. target_channel recipient full_name) recipients))"

definition add_subscriber ::
    "ChannelFullName \<times> ChainId \<Rightarrow> ChainState \<times> (Target \<times> BlockHeight) list \<Rightarrow> ChainState \<times> (Target \<times> BlockHeight) list" where
  "add_subscriber = (\<lambda>(full_name, i) (self, infos).
     let channel = channel_of self full_name
     in if i \<in> set (chn_subscribers channel) then (self, infos)
        else (set_channel full_name (channel\<lparr>chn_subscribers := List.insert i (chn_subscribers channel)\<rparr>) self,
              infos @ (case chn_block_height channel of
                         Some latest_height \<Rightarrow> [(target_channel i full_name, latest_height)] | None \<Rightarrow> [])))"

definition update_channels ::
    "ChainEnv \<Rightarrow> GenericApplicationId \<Rightarrow> BlockHeight \<Rightarrow> 'm RawExecutionResult \<Rightarrow> ChainState \<Rightarrow> (ChainError, ChainState) result" where
  "update_channels env app_id height raw_result self =
     (let full_name = ChannelFullName app_id;
          channel_broadcasts = broadcasts_of (rer_messages raw_result);
          unsubscribe = map (\<lambda>(name, i). (full_name name, i)) (rer_unsubscribe raw_result);
          subscribe = map (\<lambda>(name, i). (full_name name, i)) (rer_subscribe raw_result)
      in and_then (load_channels env (map fst unsubscribe) self) (\<lambda>self.
         let self = fold remove_subscriber unsubscribe self
         in and_then (load_channels env (map full_name channel_broadcasts) self) (\<lambda>self.
         let (self, targets) = fold (broadcast env height) (map full_name channel_broadcasts) (self, [])
         in and_then (schedule_all env (map (\<lambda>target. (target, height)) targets) self) (\<lambda>self.
         and_then (load_channels env (map fst subscribe) self) (\<lambda>self.
         let (self, infos) = fold add_subscriber subscribe (self, [])
         in schedule_all env infos self)))))"

definition process_raw_execution_result ::
    "ChainEnv \<Rightarrow> GenericApplicationId \<Rightarrow> ('m \<Rightarrow> Message) \<Rightarrow> OutgoingMessage list \<Rightarrow> BlockHeight \<Rightarrow> 'm RawExecutionResult \<Rightarrow>
     ChainState \<Rightarrow> (ChainError, ChainState \<times> OutgoingMessage list) result" where
  "process_raw_execution_result env app_id lift messages height raw_result self =
     (let recipients = recipients_of (rer_messages raw_result)
      in and_then (schedule_all env (map (\<lambda>i. (target_chain i, height)) recipients) self) (\<lambda>self.
         and_then (update_channels env app_id height raw_result self) (\<lambda>self.
           Ok (self, messages @ outgoing lift raw_result))))"

definition process_execution_result ::
    "ChainEnv \<Rightarrow> BlockHeight \<Rightarrow> ChainState \<times> OutgoingMessage list \<Rightarrow> ExecutionResult \<Rightarrow>
     (ChainError, ChainState \<times> OutgoingMessage list) result" where
  "process_execution_result env height = (\<lambda>(self, messages) result.
     case result of
       Result_System raw \<Rightarrow> process_raw_execution_result env System Message_System messages height raw self
     | Result_User app_id raw \<Rightarrow>
         process_raw_execution_result env (User app_id) (Message_User app_id) messages height raw self)"

definition process_execution_results ::
    "ChainEnv \<Rightarrow> OutgoingMessage list \<Rightarrow> BlockHeight \<Rightarrow> ExecutionResult list \<Rightarrow> ChainState \<Rightarrow>
     (ChainError, ChainState \<times> OutgoingMessage list) result" where
  "process_execution_results env messages height results self =
     try_fold (process_execution_result env height) (self, messages) results"

text \<open>The state of the two loops of \<open>execute_block\<close>.\<close>

record BlockProgress =
  bp_chain :: ChainState
  bp_tracker :: ResourceTracker
  bp_messages :: "OutgoingMessage list"
  bp_message_counts :: "u32 list"

definition record_results ::
    "ChainEnv \<Rightarrow> BlockHeight \<Rightarrow> BlockProgress \<Rightarrow> execution_outcome \<Rightarrow> (ChainError, BlockProgress) result" where
  "record_results env height progress = (\<lambda>(state, tracker, results).
     and_then (process_execution_results env (bp_messages progress) height results
         ((bp_chain progress)\<lparr>cs_execution_state := state\<rparr>)) (\<lambda>(self, messages).
     and_then (ok_or (Chain_ArithmeticError Overflow) (try_from_nat (length messages))) (\<lambda>count.
       Ok \<lparr>bp_chain = self, bp_tracker = tracker, bp_messages = messages,
           bp_message_counts = bp_message_counts progress @ [count]\<rparr>)))"

definition execute_incoming_message ::
    "ChainEnv \<Rightarrow> ResourceControlPolicy \<Rightarrow> Block \<Rightarrow> BlockProgress \<Rightarrow> nat \<times> IncomingMessage \<Rightarrow>
     (ChainError, BlockProgress) result" where
  "execute_incoming_message env policy block progress = (\<lambda>(index, message).
     and_then (ok_or (Chain_ArithmeticError Overflow) (try_from_nat index)) (\<lambda>index.
       let event = im_event message;
           context = \<lparr>msc_chain_id = chain_id_of env, msc_authenticated_signer = ev_authenticated_signer event,
             msc_height = blk_height block, msc_certificate_hash = ev_certificate_hash event,
             msc_message_id = MessageId (or_sender (im_origin message)) (ev_height event) (ev_index event)\<rparr>
       in and_then (map_err (\<lambda>err. Chain_ExecutionError err (Ctx_IncomingMessage index))
             (execute_message (ce_runtime env) (cs_execution_state (bp_chain progress)) context (ev_message event) policy
                (bp_tracker progress)))
           (record_results env (blk_height block) progress)))"

definition execute_block_operation ::
    "ChainEnv \<Rightarrow> ResourceControlPolicy \<Rightarrow> Block \<Rightarrow> BlockProgress \<Rightarrow> nat \<times> Operation \<Rightarrow> (ChainError, BlockProgress) result" where
  "execute_block_operation env policy block progress = (\<lambda>(index, operation).
     and_then (ok_or (Chain_ArithmeticError Overflow) (try_from_nat index)) (\<lambda>index.
     and_then (ok_or (Chain_ArithmeticError Overflow) (try_from_nat (length (bp_messages progress)))) (\<lambda>next_message_index.
       let context = \<lparr>opc_chain_id = chain_id_of env, opc_authenticated_signer = blk_authenticated_signer block,
             opc_height = blk_height block, opc_index = index, opc_next_message_index = next_message_index\<rparr>
       in and_then (map_err (\<lambda>err. Chain_ExecutionError err (Ctx_Operation index))
             (execute_operation (ce_runtime env) (cs_execution_state (bp_chain progress)) context operation policy
                (bp_tracker progress)))
           (record_results env (blk_height block) progress))))"

definition incoming_credit :: "ChainId \<Rightarrow> Block \<Rightarrow> Amount" where
  "incoming_credit chain_id block =
     amount_sum (List.map_filter (\<lambda>msg.
       case ev_message (im_event msg) of
         Message_System (Msg_Credit account amount) \<Rightarrow> if account = account_chain chain_id then Some amount else None
       | _ \<Rightarrow> None) (blk_incoming_messages block))"

definition charge_block ::
    "ChainEnv \<Rightarrow> ResourceControlPolicy \<Rightarrow> Block \<Rightarrow> Amount \<Rightarrow> Amount \<Rightarrow> (ChainError, Amount) result" where
  "charge_block env policy block credit balance =
     and_then (map_err Chain_ArithmeticError (try_add_assign balance credit)) (\<lambda>balance.
     and_then (map_err Chain_PricingError (sub_assign_fees balance (certificate_price policy))) (\<lambda>balance.
     and_then (map_err Chain_PricingError (storage_bytes_written_price_raw (ce_incoming_messages_size env) policy
         (blk_incoming_messages block))) (\<lambda>fees.
     and_then (map_err Chain_PricingError (sub_assign_fees balance fees)) (\<lambda>balance.
     and_then (map_err Chain_PricingError (storage_bytes_written_price_raw (ce_operations_size env) policy
         (blk_operations block))) (\<lambda>fees.
       map_err Chain_PricingError (sub_assign_fees balance fees))))))"

definition with_balance :: "Amount \<Rightarrow> ChainState \<Rightarrow> ChainState" where
  "with_balance balance self =
     (let state = cs_execution_state self
      in self\<lparr>cs_execution_state := state\<lparr>es_system := (es_system state)\<lparr>ss_balance := balance\<rparr>\<rparr>\<rparr>)"

definition finish_block ::
    "ChainEnv \<Rightarrow> Block \<Rightarrow> Timestamp \<Rightarrow> Amount \<Rightarrow> BlockProgress \<Rightarrow> (ChainError, ChainState \<times> BlockExecutionOutcome) result" where
  "finish_block env block now credit progress =
     (let self = bp_chain progress
      in and_then (map_err Chain_PricingError
             (sub_assign_fees (ss_balance (es_system (cs_execution_state self))) credit)) (\<lambda>balance.
         let self = with_balance balance self;
             state_hash = ce_crypto_hash env (cs_execution_state self);
             self = self\<lparr>cs_execution_state_hash := Some state_hash\<rparr>
         in and_then (map_err Chain_ArithmeticError (try_add_one (blk_height block))) (\<lambda>next_height.
            and_then (manager_reset (ce_sampler env) (ss_ownership (es_system (cs_execution_state self))) next_height now)
              (\<lambda>manager.
            Ok (self\<lparr>cs_manager := manager\<rparr>,
                \<lparr>beo_messages = bp_messages progress, beo_message_counts = bp_message_counts progress,
                 beo_state_hash = state_hash\<rparr>)))))"

definition execute_block ::
    "ChainEnv \<Rightarrow> Block \<Rightarrow> Timestamp \<Rightarrow> ChainState \<Rightarrow> (ChainError, ChainState \<times> BlockExecutionOutcome) result" where
  "execute_block env block now self =
     assert_that (blk_chain_id block = chain_id_of env)
       (let state = cs_execution_state self;
            system = es_system state
        in ensure (ss_timestamp system \<le> blk_timestamp block) InvalidBlockTimestamp
          (let system = system\<lparr>ss_timestamp := blk_timestamp block\<rparr>;
               self = self\<lparr>cs_execution_state := state\<lparr>es_system := system\<rparr>\<rparr>
           in case current_committee system of
                None \<Rightarrow> Err (InactiveChain (chain_id_of env))
              | Some (_, committee) \<Rightarrow>
                  (let policy = com_policy committee;
                       credit = incoming_credit (chain_id_of env) block
                   in and_then (charge_block env policy block credit (ss_balance system)) (\<lambda>balance.
                      let tracker = \<lparr>trk_used_fuel = 0, trk_num_reads = 0, trk_bytes_read = 0, trk_bytes_written = 0,
                            trk_maximum_bytes_left_to_read = pol_maximum_bytes_read_per_block policy,
                            trk_maximum_bytes_left_to_write = pol_maximum_bytes_written_per_block policy\<rparr>;
                          progress = \<lparr>bp_chain = with_balance balance self, bp_tracker = tracker, bp_messages = [],
                            bp_message_counts = []\<rparr>
                      in and_then (try_fold (execute_incoming_message env policy block) progress
                             (enumerate 0 (blk_incoming_messages block))) (\<lambda>progress.
                         and_then (try_fold (execute_block_operation env policy block) progress
                             (enumerate 0 (blk_operations block))) (\<lambda>progress.
                           finish_block env block now credit progress))))))"

end
