(* ===== verification/Delivery.thy ===== *)
theory Delivery
  imports Chain
begin

text \<open>
  The bookkeeping of messages in flight in \<open>linera-chain/src/chain.rs\<close>. The locale
  \<open>block_invariant\<close> states what an invariant of outboxes and channels has to satisfy to be kept by
  the execution of a block. It is interpreted three times: the counters of the chain agree with the
  queues of its outboxes; a block is queued for the targets its messages are addressed to; and what
  is queued stays queued.
\<close>

section \<open>Collections\<close>

lemma entry_or_update [simp]:
  "entry_or d (AList.update k v m) k' = (if k' = k then v else entry_or d m k')"
  by (simp add: entry_or_def update_conv')

lemma entry_or_delete [simp]: "entry_or d (AList.delete k m) k' = (if k' = k then d else entry_or d m k')"
  by (simp add: entry_or_def AList.delete_conv')

lemma entry_or_Nil [simp]: "entry_or d [] k = d"
  by (simp add: entry_or_def)

lemma entry_or_load [simp]: "entry_or d (try_load_entry d k m) k' = entry_or d m k'"
  by (simp add: try_load_entry_def)

lemma load_entries_same:
  assumes "try_load_entries_mut key d ks m = Ok m'"
  shows "entry_or d m' k = entry_or d m k"
proof -
  obtain st where "try_fold (\<lambda>(entries, locked) index. ensure (index \<notin> set locked) (Chain_ViewError (TryLockError (key index)))
      (Ok (try_load_entry d index entries, index # locked))) (m, []) ks = Ok st" "m' = fst st"
    using assms by (auto simp: try_load_entries_mut_def)
  then show ?thesis
    using try_fold_invariant [where P = "\<lambda>st. entry_or d (fst st) k = entry_or d m k"] by (fastforce split: prod.splits)
qed

section \<open>Addresses\<close>

definition outbox_of :: "ChainState \<Rightarrow> Target \<Rightarrow> OutboxState" where
  "outbox_of self target = entry_or outbox_default (cs_outboxes self) target"

text \<open>A message of the block reaches the target: it is not skipped when the target receives the block.\<close>

definition addressed :: "OutgoingMessage list \<Rightarrow> Target \<Rightarrow> bool" where
  "addressed messages target \<longleftrightarrow>
     (\<exists>m \<in> set messages. is_for (tg_recipient target) (Origin 0 (tg_medium target)) m)"

lemma is_for_medium [simp]:
  "is_for i (Origin sender Direct) m \<longleftrightarrow> om_destination m = Recipient i"
  "is_for i (Origin sender (Channel c)) m \<longleftrightarrow>
     om_destination m = Subscribers (cfn_name c) \<and> message_application_id (om_message m) = cfn_application_id c"
  by (cases "om_destination m"; cases c; auto simp: is_for_def)+

lemma is_for_sender: "is_for i (Origin sender medium) m = is_for i (Origin 0 medium) m"
  by (cases medium) simp_all

lemma addressed_append [simp]: "addressed (ms @ ms') t \<longleftrightarrow> addressed ms t \<or> addressed ms' t"
  by (auto simp: addressed_def)

lemma addressed_channel:
  "addressed ms (target_channel i c) \<longleftrightarrow>
     (\<exists>m \<in> set ms. om_destination m = Subscribers (cfn_name c) \<and>
        message_application_id (om_message m) = cfn_application_id c)"
  by (simp add: addressed_def target_channel_def)

lemma addressed_chain:
  "addressed ms (target_chain i) \<longleftrightarrow> (\<exists>m \<in> set ms. om_destination m = Recipient i)"
  by (simp add: addressed_def target_chain_def)

lemma in_map_filter_iff: "y \<in> set (List.map_filter f xs) \<longleftrightarrow> (\<exists>x \<in> set xs. f x = Some y)"
  by (induction xs) (auto simp: map_filter_simps split: option.splits)

lemma destination_eq_Some:
  "(case d of Recipient j \<Rightarrow> Some j | _ \<Rightarrow> None) = Some i \<longleftrightarrow> d = Recipient i"
  "(case d of Subscribers m \<Rightarrow> Some m | _ \<Rightarrow> None) = Some n \<longleftrightarrow> d = Subscribers n"
  by (cases d; simp)+

lemma set_recipients_of: "i \<in> set (recipients_of ms) \<longleftrightarrow> (\<exists>m \<in> set ms. rom_destination m = Recipient i)"
  by (simp add: recipients_of_def in_map_filter_iff destination_eq_Some)

lemma set_broadcasts_of: "n \<in> set (broadcasts_of ms) \<longleftrightarrow> (\<exists>m \<in> set ms. rom_destination m = Subscribers n)"
  by (simp add: broadcasts_of_def in_map_filter_iff destination_eq_Some)

lemma addressed_outgoing:
  assumes "\<And>m. message_application_id (lift m) = app"
  shows "i \<in> set (recipients_of (rer_messages raw)) \<Longrightarrow> addressed (outgoing lift raw) (target_chain i)"
    and "n \<in> set (broadcasts_of (rer_messages raw)) \<Longrightarrow> addressed (outgoing lift raw) (target_channel j (ChannelFullName app n))"
  using assms by (auto simp: addressed_chain addressed_channel outgoing_def set_recipients_of set_broadcasts_of)

section \<open>Invariants of the execution of blocks\<close>

locale result_invariant =
  fixes P :: "OutgoingMessage list \<Rightarrow> ChainState \<Rightarrow> bool"
    and H :: BlockHeight
  assumes P_rest: "P ms s \<Longrightarrow> P ms (s\<lparr>cs_execution_state := e, cs_execution_state_hash := x, cs_manager := m\<rparr>)"
    and P_system: "P ms s \<Longrightarrow> process_raw_execution_result env System Message_System ms H sraw s = Ok (s', ms') \<Longrightarrow> P ms' s'"
    and P_user: "P ms s \<Longrightarrow> process_raw_execution_result env (User app) (Message_User app) ms H uraw s = Ok (s', ms') \<Longrightarrow>
      P ms' s'"
begin

lemma P_execution: "P ms s \<Longrightarrow> P ms (s\<lparr>cs_execution_state := e\<rparr>)"
  using P_rest [of ms s "cs_manager s" "cs_execution_state_hash s" e] by simp

lemma keeps_results:
  assumes "P ms s" "process_execution_results env ms H results s = Ok (s', ms')"
  shows "P ms' s'"
proof -
  have "P (snd (s', ms')) (fst (s', ms'))"
    using assms(2) unfolding process_execution_results_def
  proof (rule try_fold_invariant)
    fix st r st'
    assume "P (snd st) (fst st)" "process_execution_result env H st r = Ok st'"
    then show "P (snd st') (fst st')"
      by (cases r; cases st; cases st') (auto simp: process_execution_result_def intro: P_system P_user)
  qed (simp add: assms)
  then show ?thesis by simp
qed

lemma keeps_record:
  assumes "P (bp_messages p) (bp_chain p)" "record_results env H p out = Ok p'"
  shows "P (bp_messages p') (bp_chain p')"
  using assms(2) by (auto simp: record_results_def split: prod.splits dest!: keeps_results [OF P_execution [OF assms(1)]])

lemma keeps_execute_block:
  assumes "P [] s" "blk_height block = H" "execute_block env block now s = Ok (s', outcome)"
  shows "P (beo_messages outcome) s'"
proof -
  obtain policy balance tracker p1 p2 credit where
    1: "try_fold (execute_incoming_message env policy block)
      \<lparr>bp_chain = with_balance balance (s\<lparr>cs_execution_state := (cs_execution_state s)
         \<lparr>es_system := (es_system (cs_execution_state s))\<lparr>ss_timestamp := blk_timestamp block\<rparr>\<rparr>\<rparr>),
       bp_tracker = tracker, bp_messages = [], bp_message_counts = []\<rparr> (enumerate 0 (blk_incoming_messages block)) = Ok p1"
    and 2: "try_fold (execute_block_operation env policy block) p1 (enumerate 0 (blk_operations block)) = Ok p2"
    and 3: "finish_block env block now credit p2 = Ok (s', outcome)"
    using assms(3) by (auto simp: execute_block_def Let_def split: option.splits)
  have "P (bp_messages p1) (bp_chain p1)"
    using 1 by (rule try_fold_invariant)
      (auto simp: with_balance_def execute_incoming_message_def Let_def assms P_execution intro: keeps_record split: prod.splits)
  with 2 have "P (bp_messages p2) (bp_chain p2)"
    by (rule try_fold_invariant)
      (auto simp: execute_block_operation_def Let_def assms intro: keeps_record split: prod.splits)
  with 3 show ?thesis
    by (auto simp: finish_block_def Let_def with_balance_def intro!: P_rest)
qed

end

locale block_invariant =
  fixes P :: "OutgoingMessage list \<Rightarrow> ChainState \<Rightarrow> bool"
    and G :: "OutgoingMessage list \<Rightarrow> Target \<Rightarrow> BlockHeight \<Rightarrow> bool"
    and H :: BlockHeight
  assumes P_schedule: "P ms s \<Longrightarrow> G ms t h \<Longrightarrow> schedule_for s (t, h) = Ok s' \<Longrightarrow> P ms s'"
    and P_state: "P ms s \<Longrightarrow> P ms (s\<lparr>cs_execution_state := e, cs_execution_state_hash := x, cs_manager := m\<rparr>)"
    and P_outboxes: "P ms s \<Longrightarrow> (\<And>t. entry_or outbox_default obs t = outbox_of s t) \<Longrightarrow> P ms (s\<lparr>cs_outboxes := obs\<rparr>)"
    and P_channels: "P ms s \<Longrightarrow>
      (\<And>c. chn_block_height (entry_or channel_default chs c) = chn_block_height (channel_of s c) \<or>
        chn_block_height (entry_or channel_default chs c) = Some H \<and> (\<forall>i. addressed ms (target_channel i c))) \<Longrightarrow>
      P ms (s\<lparr>cs_channels := chs\<rparr>)"
    and P_messages: "P ms s \<Longrightarrow> P (ms @ ms') s"
    and G_addressed: "P ms s \<Longrightarrow> addressed ms t \<Longrightarrow> G ms t H"
    and G_latest: "P ms s \<Longrightarrow> chn_block_height (channel_of s c) = Some h \<Longrightarrow> G ms (target_channel i c) h"
begin

lemma keeps_schedule_all:
  assumes "P ms s" "\<And>t h. (t, h) \<in> set ths \<Longrightarrow> G ms t h" "schedule_all env ths s = Ok s'"
  shows "P ms s'"
proof -
  obtain obs where obs: "try_load_entries_mut (ce_target_key env) outbox_default (map fst ths) (cs_outboxes s) = Ok obs"
    and s': "try_fold schedule_for (s\<lparr>cs_outboxes := obs\<rparr>) ths = Ok s'"
    using assms(3) by (auto simp: schedule_all_def)
  have "P ms (s\<lparr>cs_outboxes := obs\<rparr>)"
    using assms(1) by (rule P_outboxes) (simp add: outbox_of_def load_entries_same [OF obs])
  with s' show ?thesis
    by (rule try_fold_invariant) (metis surj_pair assms(2) P_schedule)
qed

lemma keeps_load_channels: "P ms s \<Longrightarrow> load_channels env names s = Ok s' \<Longrightarrow> P ms s'"
  by (auto simp: load_channels_def load_entries_same channel_of_def intro!: P_channels)

lemma keeps_set_channel:
  "P ms s \<Longrightarrow> chn_block_height ch = chn_block_height (channel_of s c) \<or>
     chn_block_height ch = Some H \<and> (\<forall>i. addressed ms (target_channel i c)) \<Longrightarrow> P ms (set_channel c ch s)"
  unfolding set_channel_def by (rule P_channels) (auto simp: channel_of_def)

lemma keeps_remove_subscribers: "P ms s \<Longrightarrow> P ms (fold remove_subscriber us s)"
proof (induction us arbitrary: s)
  case (Cons u us)
  have "P ms (remove_subscriber u s)"
    using Cons.prems by (auto simp: remove_subscriber_def Let_def split: prod.splits intro!: keeps_set_channel)
  then show ?case using Cons.IH by simp
qed simp

lemma keeps_broadcasts:
  assumes "P ms s" "\<And>c i. c \<in> set cs \<Longrightarrow> addressed ms (target_channel i c)" "\<And>t. t \<in> set ts \<Longrightarrow> addressed ms t"
  shows "P ms (fst (fold (broadcast env H) cs (s, ts))) \<and> (\<forall>t \<in> set (snd (fold (broadcast env H) cs (s, ts))). addressed ms t)"
  using assms
proof (induction cs arbitrary: s ts)
  case (Cons c cs)
  let ?ch = "(channel_of s c)\<lparr>chn_block_height := Some H\<rparr>"
  let ?ts = "ts @ map (\<lambda>r. target_channel r c) (sort_key (ce_chain_id_key env) (chn_subscribers (channel_of s c)))"
  have "P ms (set_channel c ?ch s)" using Cons.prems by (intro keeps_set_channel) auto
  from Cons.IH [OF this, of ?ts] show ?case using Cons.prems by (auto simp: broadcast_def Let_def)
qed simp

lemma keeps_subscribers:
  assumes "P ms s" "\<And>t h. (t, h) \<in> set is \<Longrightarrow> G ms t h"
  shows "P ms (fst (fold add_subscriber us (s, is))) \<and> (\<forall>(t, h) \<in> set (snd (fold add_subscriber us (s, is))). G ms t h)"
  using assms
proof (induction us arbitrary: s "is")
  case (Cons u us)
  obtain c i where u: "u = (c, i)" by (cases u)
  obtain s1 is1 where 1: "add_subscriber u (s, is) = (s1, is1)" by (cases "add_subscriber u (s, is)")
  let ?ch = "(channel_of s c)\<lparr>chn_subscribers := List.insert i (chn_subscribers (channel_of s c))\<rparr>"
  have "P ms (set_channel c ?ch s)" using Cons.prems by (intro keeps_set_channel) auto
  with 1 Cons.prems G_latest [OF Cons.prems(1)] have "P ms s1" "\<And>t h. (t, h) \<in> set is1 \<Longrightarrow> G ms t h"
    by (auto simp: u add_subscriber_def Let_def split: option.splits if_splits)
  from Cons.IH [OF this] show ?case by (simp add: 1)
qed auto

lemma keeps_update_channels:
  assumes "P ms s" "update_channels env app H raw s = Ok s'"
    and broadcasts: "\<And>n i. n \<in> set (broadcasts_of (rer_messages raw)) \<Longrightarrow> addressed ms (target_channel i (ChannelFullName app n))"
  shows "P ms s'"
proof -
  let ?us = "map (\<lambda>(name, i). (ChannelFullName app name, i)) (rer_unsubscribe raw)"
  let ?bs = "map (ChannelFullName app) (broadcasts_of (rer_messages raw))"
  let ?ss = "map (\<lambda>(name, i). (ChannelFullName app name, i)) (rer_subscribe raw)"
  obtain s2 s3 s4 s5 where
    2: "load_channels env (map fst ?us) s = Ok s2"
    and 3: "load_channels env ?bs (fold remove_subscriber ?us s2) = Ok s3"
    and 4: "schedule_all env (map (\<lambda>t. (t, H)) (snd (fold (broadcast env H) ?bs (s3, []))))
        (fst (fold (broadcast env H) ?bs (s3, []))) = Ok s4"
    and 5: "load_channels env (map fst ?ss) s4 = Ok s5"
    and 6: "schedule_all env (snd (fold add_subscriber ?ss (s5, []))) (fst (fold add_subscriber ?ss (s5, []))) = Ok s'"
    using assms(2) by (auto simp: update_channels_def Let_def case_prod_beta)
  have "P ms s3"
    using keeps_load_channels [OF keeps_remove_subscribers [OF keeps_load_channels [OF assms(1) 2]] 3] .
  then have P4: "P ms (fst (fold (broadcast env H) ?bs (s3, [])))"
    "\<forall>t \<in> set (snd (fold (broadcast env H) ?bs (s3, []))). addressed ms t"
    using keeps_broadcasts [of ms s3 ?bs "[]"] broadcasts by auto
  have "P ms s4"
    by (rule keeps_schedule_all [OF P4(1) _ 4]) (use P4 G_addressed in auto)
  then have "P ms s5" using 5 by (rule keeps_load_channels)
  from keeps_subscribers [OF this, of "[]" ?ss] show ?thesis
    by (intro keeps_schedule_all [OF _ _ 6]) auto
qed

lemma keeps_raw_result:
  assumes "P ms s" "\<And>m. message_application_id (lift m) = app"
    and "process_raw_execution_result env app lift ms H raw s = Ok (s', ms')"
  shows "P ms' s'"
proof -
  let ?ms = "ms @ outgoing lift raw"
  note to = addressed_outgoing [of lift app, OF assms(2)]
  obtain s1 where
    1: "schedule_all env (map (\<lambda>i. (target_chain i, H)) (recipients_of (rer_messages raw))) s = Ok s1"
    and 2: "update_channels env app H raw s1 = Ok s'" and ms': "ms' = ?ms"
    using assms(3) by (auto simp: process_raw_execution_result_def Let_def)
  have P: "P ?ms s" using assms(1) by (rule P_messages)
  then have "P ?ms s1"
    by (rule keeps_schedule_all [OF _ _ 1]) (auto intro!: G_addressed [OF P] to(1))
  then have "P ?ms s'" using 2 by (rule keeps_update_channels) (simp add: to(2))
  with ms' show ?thesis by simp
qed

end

sublocale block_invariant \<subseteq> result_invariant P H
proof unfold_locales
  show "P ms' s'" if "P ms s" "process_raw_execution_result env System Message_System ms H raw s = Ok (s', ms')"
    for ms s env raw ms' s'
    by (rule keeps_raw_result [OF that(1) _ that(2)]) (simp add: message_application_id_def)
  show "P ms' s'" if "P ms s" "process_raw_execution_result env (User app) (Message_User app) ms H raw s = Ok (s', ms')"
    for ms s env app raw ms' s'
    by (rule keeps_raw_result [OF that(1) _ that(2)]) (simp add: message_application_id_def)
qed (rule P_state)

section \<open>Counters\<close>

text \<open>The targets that have not acknowledged a height.\<close>

definition waiting :: "ChainState \<Rightarrow> BlockHeight \<Rightarrow> Target set" where
  "waiting s h = {t. h \<in> set (ob_queue (outbox_of s t))}"

definition delivery_inv :: "ChainState \<Rightarrow> bool" where
  "delivery_inv s \<longleftrightarrow> (\<forall>t. outbox_inv (outbox_of s t)) \<and> btree_wf (cs_outbox_counters s) \<and>
     (\<forall>h. btree_get (cs_outbox_counters s) h =
       (if waiting s h = {} then None else Some (of_nat (card (waiting s h)))))"

lemma finite_waiting [simp]: "finite (waiting s h)" and card_waiting_le: "card (waiting s h) \<le> length (cs_outboxes s)"
proof -
  have sub: "waiting s h \<subseteq> fst ` set (cs_outboxes s)"
  proof
    fix t
    assume "t \<in> waiting s h"
    then have "map_of (cs_outboxes s) t \<noteq> None"
      by (auto simp: waiting_def outbox_of_def entry_or_def outbox_default_def split: option.splits)
    then show "t \<in> fst ` set (cs_outboxes s)" by (simp add: map_of_eq_None_iff)
  qed
  then show "finite (waiting s h)" by (rule finite_subset) simp
  have "card (waiting s h) \<le> card (fst ` set (cs_outboxes s))" using sub by (intro card_mono) simp_all
  also have "\<dots> \<le> length (cs_outboxes s)" by (metis card_length set_map length_map)
  finally show "card (waiting s h) \<le> length (cs_outboxes s)" .
qed

lemma outbox_of_simps [simp]:
  "outbox_of (s\<lparr>cs_outboxes := AList.update t ob obs\<rparr>) t' = (if t' = t then ob else entry_or outbox_default obs t')"
  "outbox_of (s\<lparr>cs_outbox_counters := cnt\<rparr>) t' = outbox_of s t'"
  "outbox_of (s\<lparr>cs_channels := chs\<rparr>) t' = outbox_of s t'"
  "outbox_of (s\<lparr>cs_execution_state := e, cs_execution_state_hash := x, cs_manager := m\<rparr>) t' = outbox_of s t'"
  by (simp_all add: outbox_of_def)

lemma schedule_for_cases:
  assumes "schedule_for s (t, h) = Ok s'"
  obtains ob b where "schedule_message (outbox_of s t) h = Ok (ob, b)"
    "\<And>t'. outbox_of s' t' = (if t' = t then ob else outbox_of s t')"
    "cs_outbox_counters s' =
       (if b then btree_insert h (btree_get_or 0 (cs_outbox_counters s) h + 1) (cs_outbox_counters s)
        else cs_outbox_counters s)"
    "cs_channels s' = cs_channels s"
proof -
  from assms obtain ob b where "schedule_message (outbox_of s t) h = Ok (ob, b)"
    and s': "s' = (if b then s\<lparr>cs_outboxes := AList.update t ob (cs_outboxes s),
          cs_outbox_counters := btree_insert h (btree_get_or 0 (cs_outbox_counters s) h + 1) (cs_outbox_counters s)\<rparr>
        else s\<lparr>cs_outboxes := AList.update t ob (cs_outboxes s)\<rparr>)"
    by (auto simp: schedule_for_def Let_def outbox_of_def)
  then show ?thesis by (intro that [of ob b]) (auto simp: outbox_of_def)
qed

lemma delivery_inv_cong:
  "delivery_inv s \<Longrightarrow> (\<And>t. outbox_of s' t = outbox_of s t) \<Longrightarrow> cs_outbox_counters s' = cs_outbox_counters s \<Longrightarrow>
     delivery_inv s'"
  by (simp add: delivery_inv_def waiting_def)

lemma delivery_inv_schedule:
  assumes inv: "delivery_inv s" and "schedule_for s (t, h) = Ok s'"
  shows "delivery_inv s'"
  using assms(2)
proof (cases rule: schedule_for_cases)
  case (1 ob b)
  show ?thesis
  proof (cases b)
    case False
    with 1 have "ob = outbox_of s t" by (auto simp: schedule_message_Ok_iff split: if_splits)
    with 1 False show ?thesis by (intro delivery_inv_cong [OF inv]) auto
  next
    case True
    from inv have ob_inv: "outbox_inv (outbox_of s t)" by (simp add: delivery_inv_def)
    from 1(1) True have ge: "h \<ge> ob_next_height_to_schedule (outbox_of s t)"
      and queue: "ob_queue ob = ob_queue (outbox_of s t) @ [h]"
      by (auto simp: schedule_message_Ok_iff not_less split: if_splits)
    from ge ob_inv have new: "t \<notin> waiting s h" by (fastforce simp: outbox_inv_def waiting_def)
    have W: "waiting s' h' = (if h' = h then insert t (waiting s h) else waiting s h')" for h'
      by (auto simp: waiting_def 1(2) queue)
    have "outbox_inv ob" using schedule_message_inv [OF ob_inv 1(1)] .
    then show ?thesis
      using inv new True by (auto simp: delivery_inv_def 1(2,3) W btree_get_or_def)
  qed
qed

interpretation in_flight: block_invariant "\<lambda>_. delivery_inv" "\<lambda>_ _ _. True" H for H
  by unfold_locales (auto intro: delivery_inv_schedule delivery_inv_cong simp: outbox_of_def)

section \<open>Acknowledgements\<close>

lemma decrement_counter_Ok:
  assumes "btree_get c h = Some n" "n \<noteq> 0"
  shows "decrement_counter c h = Ok (if n - 1 = 0 then btree_remove h c else btree_insert h (n - 1) c)"
proof -
  have sub: "checked_sub n 1 = Some (n - 1)"
    using assms(2) by (simp add: checked_sub_def word_le_nat_alt Suc_le_eq unat_gt_0)
  show ?thesis unfolding decrement_counter_def assms(1) expect.simps and_then.simps sub by (rule refl)
qed

lemma decrement_counters:
  assumes "btree_wf c" "distinct us" "\<forall>h \<in> set us. \<exists>n. btree_get c h = Some n \<and> n \<noteq> 0"
  shows "\<exists>c'. try_fold decrement_counter c us = Ok c' \<and> btree_wf c' \<and>
    (\<forall>h. btree_get c' h = (if h \<in> set us then (if the (btree_get c h) = 1 then None else Some (the (btree_get c h) - 1))
       else btree_get c h))"
  using assms
proof (induction us arbitrary: c)
  case (Cons u us)
  then obtain n where n: "btree_get c u = Some n" "n \<noteq> 0" by auto
  obtain c1 where c1: "decrement_counter c u = Ok c1" "btree_wf c1"
    and get: "btree_get c1 = (btree_get c)(u := if n = 1 then None else Some (n - 1))"
    using Cons.prems by (simp add: decrement_counter_Ok [OF n] btree_get_remove)
  have "\<forall>h \<in> set us. \<exists>n. btree_get c1 h = Some n \<and> n \<noteq> 0" using Cons.prems by (auto simp: get)
  from Cons.IH [OF c1(2) _ this] Cons.prems n c1 show ?case by (auto simp: get)
qed simp

text \<open>Taking a target off a set of waiting ones is counted down.\<close>

lemma counted_down:
  assumes "finite W" "t \<in> W" "card W < 2 ^ 32"
  shows "(if (of_nat (card W) :: u32) = 1 then None else Some (of_nat (card W) - 1 :: u32)) =
    (if W - {t} = {} then None else Some (of_nat (card (W - {t}))))"
proof -
  have "unat (of_nat (card W) :: u32) = card W" using assms(3) by (simp add: unat_of_nat)
  then have "(of_nat (card W) :: u32) = 1 \<longleftrightarrow> card W = 1" by (metis unat_1 of_nat_1)
  moreover have card: "card (W - {t}) = card W - 1" "card W \<ge> 1"
    using assms by (auto simp: Suc_le_eq card_gt_0_iff)
  moreover have "W - {t} = {} \<longleftrightarrow> card W = 1" using assms card by (metis card_0_eq finite_Diff diff_is_0_eq le_antisym le_refl)
  ultimately show ?thesis by (simp add: of_nat_diff)
qed

lemma delivery_inv_received:
  fixes s t height
  defines "us \<equiv> filter (\<lambda>h. h \<le> height) (ob_queue (outbox_of s t))"
  assumes inv: "delivery_inv s" and small: "length (cs_outboxes s) < 2 ^ 32"
  obtains c where "try_fold decrement_counter (cs_outbox_counters s) us = Ok c"
    "\<And>s'. cs_outbox_counters s' = c \<Longrightarrow> \<forall>t'. outbox_inv (outbox_of s' t') \<Longrightarrow> \<forall>t'. ob_queue (outbox_of s' t') =
      (if t' = t then filter (\<lambda>h. height < h) (ob_queue (outbox_of s t)) else ob_queue (outbox_of s t')) \<Longrightarrow> delivery_inv s'"
proof -
  have small: "card (waiting s h) < 2 ^ 32" for h using card_waiting_le [of s h] small by simp
  have get: "btree_get (cs_outbox_counters s) h = (if waiting s h = {} then None else Some (of_nat (card (waiting s h))))" for h
    using inv by (simp add: delivery_inv_def)
  have us: "h \<in> set us \<longleftrightarrow> t \<in> waiting s h \<and> h \<le> height" for h by (auto simp: us_def waiting_def)
  have "\<exists>n. btree_get (cs_outbox_counters s) h = Some n \<and> n \<noteq> 0" if "h \<in> set us" for h
  proof -
    from that have ne: "waiting s h \<noteq> {}" "card (waiting s h) \<noteq> 0" by (auto simp: us)
    then have "unat (of_nat (card (waiting s h)) :: u32) \<noteq> 0" using small [of h] by (simp add: unat_of_nat)
    then show ?thesis using ne by (auto simp: get)
  qed
  moreover have "btree_wf (cs_outbox_counters s)" "distinct us"
    using inv by (auto simp: delivery_inv_def us_def outbox_inv_def strict_sorted_iff)
  ultimately obtain c where c: "try_fold decrement_counter (cs_outbox_counters s) us = Ok c" "btree_wf c"
    and get': "btree_get c h = (if h \<in> set us then (if the (btree_get (cs_outbox_counters s) h) = 1 then None
        else Some (the (btree_get (cs_outbox_counters s) h) - 1)) else btree_get (cs_outbox_counters s) h)" for h
    using decrement_counters [of "cs_outbox_counters s" us] by blast
  show ?thesis
  proof (rule that [OF c(1)])
    fix s'
    assume s': "cs_outbox_counters s' = c" "\<forall>t'. outbox_inv (outbox_of s' t')"
      and queues: "\<forall>t'. ob_queue (outbox_of s' t') =
        (if t' = t then filter (\<lambda>h. height < h) (ob_queue (outbox_of s t)) else ob_queue (outbox_of s t'))"
    have W: "waiting s' h = (if h \<in> set us then waiting s h - {t} else waiting s h)" for h
      by (auto simp: waiting_def queues us)
    have "btree_get c h = (if waiting s' h = {} then None else Some (of_nat (card (waiting s' h))))" for h
    proof (cases "h \<in> set us")
      case True
      then have t: "t \<in> waiting s h" and ne: "(waiting s h = {}) = False" by (auto simp: us)
      show ?thesis
        by (simp only: get' get W True ne if_True if_False option.sel counted_down [OF finite_waiting t small])
    qed (simp add: get' get W)
    with c s' show "delivery_inv s'" by (simp add: delivery_inv_def)
  qed
qed

lemma mark_messages_exact:
  assumes inv: "delivery_inv s" and small: "length (cs_outboxes s) < 2 ^ 32"
  shows "\<exists>s' b. mark_messages_as_received t height s = Ok (s', b) \<and> delivery_inv s' \<and>
    (b \<longleftrightarrow> (\<exists>h \<in> set (ob_queue (outbox_of s t)). h \<le> height)) \<and>
    (\<forall>t'. ob_queue (outbox_of s' t') =
      (if t' = t then filter (\<lambda>h. height < h) (ob_queue (outbox_of s t)) else ob_queue (outbox_of s t')))"
proof -
  let ?us = "filter (\<lambda>h. h \<le> height) (ob_queue (outbox_of s t))"
  let ?ob = "(outbox_of s t)\<lparr>ob_queue := filter (\<lambda>h. height < h) (ob_queue (outbox_of s t))\<rparr>"
  have inv': "\<forall>t'. outbox_inv (outbox_of s t')" using inv by (simp add: delivery_inv_def)
  then have upd: "outbox_mark_messages_as_received (outbox_of s t) height = (?ob, ?us)"
    by (simp add: mark_messages_as_received_eq)
  have "outbox_inv ?ob" using mark_messages_as_received_inv [of "outbox_of s t" height] inv' upd by simp
  let ?obs = "AList.update t ?ob (cs_outboxes s)"
  let ?s = "\<lambda>c. s\<lparr>cs_outboxes := (if ?us \<noteq> [] \<and> ob_queue ?ob = [] then AList.delete t ?obs else ?obs), cs_outbox_counters := c\<rparr>"
  have queues: "\<forall>t'. ob_queue (outbox_of (?s c) t') =
      (if t' = t then filter (\<lambda>h. height < h) (ob_queue (outbox_of s t)) else ob_queue (outbox_of s t'))" for c
    by (auto simp: outbox_of_def outbox_default_def)
  have inv_s: "\<forall>t'. outbox_inv (outbox_of (?s c) t')" for c
    using inv' \<open>outbox_inv ?ob\<close> outbox_inv_default by (auto simp: outbox_of_def)
  obtain c where c: "try_fold decrement_counter (cs_outbox_counters s) ?us = Ok c"
    and "\<And>s'. cs_outbox_counters s' = c \<Longrightarrow> \<forall>t'. outbox_inv (outbox_of s' t') \<Longrightarrow> \<forall>t'. ob_queue (outbox_of s' t') =
      (if t' = t then filter (\<lambda>h. height < h) (ob_queue (outbox_of s t)) else ob_queue (outbox_of s t')) \<Longrightarrow> delivery_inv s'"
    by (rule delivery_inv_received [OF inv small, where t = t and height = height]) (rule that, assumption, blast)
  from this(2) [OF _ inv_s queues] have "delivery_inv (?s c)" by simp
  have "mark_messages_as_received t height s = Ok (?s c, ?us \<noteq> [])"
  proof (cases "?us = []")
    case True
    then have "c = cs_outbox_counters s" using c by simp
    then show ?thesis using True by (simp add: mark_messages_as_received_def outbox_of_def [symmetric] upd)
  next
    case False
    then show ?thesis using c by (simp add: mark_messages_as_received_def outbox_of_def [symmetric] upd)
  qed
  with \<open>delivery_inv (?s c)\<close> queues [of c] show ?thesis by (auto simp: filter_empty_conv)
qed

section \<open>Runs of a chain\<close>

text \<open>
  What the worker does to the state of a chain, in any order: it executes blocks, receives blocks of
  other chains, removes the executed events from the inboxes, records acknowledgements, and
  updates the tip, the manager and the log of blocks. At most \<open>2 ^ 32 - 1\<close> outboxes are in use
  when an acknowledgement is recorded.
\<close>

inductive chain_run :: "ChainId \<Rightarrow> ChainState \<Rightarrow> bool" for chain_id where
  run_start: "chain_run chain_id (chain_default\<lparr>cs_execution_state := e, cs_execution_state_hash := hash, cs_manager := m\<rparr>)"
| run_execute: "chain_run chain_id s \<Longrightarrow> chain_id_of env = chain_id \<Longrightarrow>
    execute_block env block now s = Ok (s', outcome) \<Longrightarrow> chain_run chain_id s'"
| run_receive: "chain_run chain_id s \<Longrightarrow> chain_id_of env = chain_id \<Longrightarrow>
    receive_block env origin height timestamp messages hash now s = Ok s' \<Longrightarrow> chain_run chain_id s'"
| run_remove: "chain_run chain_id s \<Longrightarrow> chain_id_of env = chain_id \<Longrightarrow>
    remove_events_from_inboxes env block s = Ok s' \<Longrightarrow> chain_run chain_id s'"
| run_mark: "chain_run chain_id s \<Longrightarrow> length (cs_outboxes s) < 2 ^ 32 \<Longrightarrow>
    mark_messages_as_received t height s = Ok (s', b) \<Longrightarrow> chain_run chain_id s'"
| run_worker: "chain_run chain_id s \<Longrightarrow>
    chain_run chain_id (s\<lparr>cs_tip_state := tip, cs_manager := m, cs_confirmed_log := log\<rparr>)"

lemma remove_events_frame:
  "remove_events_from_inboxes env block s = Ok s' \<Longrightarrow> \<exists>ibs. s' = s\<lparr>cs_inboxes := ibs\<rparr>"
  by (auto simp: remove_events_from_inboxes_def)

definition mail :: "ChainState \<Rightarrow> (Target \<times> OutboxState) list \<times> (BlockHeight, u32) BTreeMap \<times> (ChannelFullName \<times> ChannelState) list" where
  "mail s = (cs_outboxes s, cs_outbox_counters s, cs_channels s)"

lemma execute_immediate_message_mail:
  "execute_immediate_message env i m timestamp now s = Ok s' \<Longrightarrow> mail s' = mail s"
  by (auto simp: execute_immediate_message_def Let_def mail_def split: Message.splits SystemMessage.splits)

lemma receive_message_mail:
  "receive_message env origin height timestamp hash now st x = Ok st' \<Longrightarrow> mail (fst st') = mail (fst st)"
  by (auto simp: receive_message_def execute_immediate_message_mail split: prod.splits if_splits Message.splits)

lemma receive_block_mail:
  assumes "receive_block env origin height timestamp messages hash now s = Ok s'"
  shows "mail s' = mail s"
proof -
  obtain s1 n s2 events where 1: "next_block_height_to_receive origin s = Ok (s1, n)"
    and 2: "try_fold (receive_message env origin height timestamp hash now) (s1, []) (enumerate 0 messages) = Ok (s2, events)"
    and 3: "mail s' = mail s2"
    using assms by (auto simp: receive_block_def mail_def)
  have "mail s1 = mail s" using 1 by (auto simp: next_block_height_to_receive_def Let_def mail_def)
  moreover have "mail (fst (s2, events)) = mail s1"
    using 2 by (rule try_fold_invariant) (auto dest: receive_message_mail)
  ultimately show ?thesis using 3 by simp
qed

lemma delivery_inv_mail: "delivery_inv s \<Longrightarrow> mail s' = mail s \<Longrightarrow> delivery_inv s'"
  by (auto simp: mail_def outbox_of_def intro: delivery_inv_cong)

lemma chain_run_delivery_inv: "chain_run chain_id s \<Longrightarrow> delivery_inv s"
proof (induction rule: chain_run.induct)
  case run_start
  show ?case by (simp add: delivery_inv_def chain_default_def outbox_of_def waiting_def outbox_inv_default)
      (simp add: outbox_default_def)
next
  case run_execute
  then show ?case using in_flight.keeps_execute_block [OF _ refl] by blast
next
  case run_receive
  then show ?case using receive_block_mail delivery_inv_mail by blast
next
  case run_remove
  then show ?case using remove_events_frame delivery_inv_mail by (fastforce simp: mail_def)
next
  case (run_mark s t height s' b)
  then show ?case using mark_messages_exact [of s t height] by auto
next
  case (run_worker s tip m log)
  show ?case by (rule delivery_inv_mail [OF run_worker.IH]) (simp add: mail_def)
qed

lemma all_delivered_iff:
  assumes "btree_wf (cs_outbox_counters s)"
  shows "all_messages_delivered_up_to height s \<longleftrightarrow> (\<forall>h. btree_get (cs_outbox_counters s) h \<noteq> None \<longrightarrow> height < h)"
proof (cases "cs_outbox_counters s")
  case (Cons e rest)
  obtain k n where e: "e = (k, n)" by (cases e)
  have "k < h" if "btree_get rest h = Some x" for h x
    using assms map_of_SomeD [OF that] by (force simp: Cons e btree_wf_Cons)
  then show ?thesis
    by (auto simp: all_messages_delivered_up_to_def Cons e intro: less_trans)
qed (simp add: all_messages_delivered_up_to_def)

text \<open>
  C23. The counters of messages in flight are exact in every run of a chain. The test for
  complete delivery succeeds exactly when no outbox holds a height up to the given one. Recording an
  acknowledgement never panics on a missing counter or an underflow; it takes exactly
  the acknowledged heights from the target's queue and reports whether there were any.
\<close>

theorem deliveries_tracked:
  assumes "chain_run chain_id s" "length (cs_outboxes s) < 2 ^ 32"
  shows "(all_messages_delivered_up_to height s \<longleftrightarrow> (\<forall>t. \<forall>h \<in> set (ob_queue (outbox_of s t)). height < h)) \<and>
    (\<exists>s' b. mark_messages_as_received target height s = Ok (s', b) \<and>
      (b \<longleftrightarrow> (\<exists>h \<in> set (ob_queue (outbox_of s target)). h \<le> height)) \<and>
      (\<forall>t. ob_queue (outbox_of s' t) =
        (if t = target then filter (\<lambda>h. height < h) (ob_queue (outbox_of s target)) else ob_queue (outbox_of s t))))"
proof -
  have inv: "delivery_inv s" using assms(1) by (rule chain_run_delivery_inv)
  have "btree_wf (cs_outbox_counters s)" using inv by (simp add: delivery_inv_def)
  then have "all_messages_delivered_up_to height s \<longleftrightarrow> (\<forall>h. btree_get (cs_outbox_counters s) h \<noteq> None \<longrightarrow> height < h)"
    by (rule all_delivered_iff)
  also have "\<dots> \<longleftrightarrow> (\<forall>h. waiting s h \<noteq> {} \<longrightarrow> height < h)" using inv by (simp add: delivery_inv_def)
  also have "\<dots> \<longleftrightarrow> (\<forall>t. \<forall>h \<in> set (ob_queue (outbox_of s t)). height < h)" by (auto simp: waiting_def)
  finally show ?thesis using mark_messages_exact [OF inv assms(2), of target height] by blast
qed

section \<open>Routing\<close>

text \<open>
  While a block of height \<open>H\<close> is executed, an outbox is either as before the block, or ends with
  \<open>H\<close> and the block has a message for its target.
\<close>

definition outbox_routed :: "BlockHeight \<Rightarrow> OutgoingMessage list \<Rightarrow> Target \<Rightarrow> OutboxState \<Rightarrow> bool" where
  "outbox_routed H ms t ob \<longleftrightarrow>
     ob_next_height_to_schedule ob \<le> H \<and> (\<forall>h \<in> set (ob_queue ob). h < H) \<or>
     unat (ob_next_height_to_schedule ob) = unat H + 1 \<and> H \<in> set (ob_queue ob) \<and> addressed ms t \<and>
       (\<forall>h \<in> set (ob_queue ob). h \<le> H)"

definition routed :: "BlockHeight \<Rightarrow> OutgoingMessage list \<Rightarrow> ChainState \<Rightarrow> bool" where
  "routed H ms s \<longleftrightarrow> (\<forall>t. outbox_routed H ms t (outbox_of s t)) \<and>
     (\<forall>c h. chn_block_height (channel_of s c) = Some h \<longrightarrow> h < H \<or> h = H \<and> (\<forall>i. addressed ms (target_channel i c)))"

lemma outbox_routed_schedule:
  assumes "outbox_routed H ms t ob" "h < H \<or> h = H \<and> addressed ms t" "schedule_message ob h = Ok (ob', b)"
  shows "outbox_routed H ms t ob' \<and> (h = H \<longrightarrow> H \<in> set (ob_queue ob'))"
  using assms by (auto simp: outbox_routed_def schedule_message_Ok_iff word_less_nat_alt word_le_nat_alt
      intro: less_imp_le split: if_splits)

lemma routed_schedule:
  assumes "routed H ms s" "h < H \<or> h = H \<and> addressed ms t" "schedule_for s (t, h) = Ok s'"
  shows "routed H ms s' \<and> (h = H \<longrightarrow> H \<in> set (ob_queue (outbox_of s' t)))"
  using assms(3)
proof (cases rule: schedule_for_cases)
  case (1 ob b)
  then show ?thesis
    using assms(1) outbox_routed_schedule [OF _ assms(2) 1(1)] by (auto simp: routed_def channel_of_def)
qed

interpretation routing: block_invariant "routed H" "\<lambda>ms t h. h < H \<or> h = H \<and> addressed ms t" H for H
proof unfold_locales
  fix ms s t h s'
  assume "routed H ms s" "h < H \<or> h = H \<and> addressed ms t" "schedule_for s (t, h) = Ok s'"
  then show "routed H ms s'" using routed_schedule by blast
next
  fix ms s obs
  assume "routed H ms s" "\<And>t. entry_or outbox_default obs t = outbox_of s t"
  then show "routed H ms (s\<lparr>cs_outboxes := obs\<rparr>)" by (simp add: routed_def outbox_of_def channel_of_def)
next
  fix ms s chs
  assume "routed H ms s" "\<And>c. chn_block_height (entry_or channel_default chs c) = chn_block_height (channel_of s c) \<or>
    chn_block_height (entry_or channel_default chs c) = Some H \<and> (\<forall>i. addressed ms (target_channel i c))"
  then show "routed H ms (s\<lparr>cs_channels := chs\<rparr>)"
    unfolding routed_def channel_of_def by simp (metis option.inject)
next
  fix ms ms' s
  assume "routed H ms s"
  then show "routed H (ms @ ms') s" unfolding routed_def outbox_routed_def addressed_append by blast
next
  fix ms s c h i
  assume "routed H ms s" "chn_block_height (channel_of s c) = Some h"
  then show "h < H \<or> h = H \<and> addressed ms (target_channel i c)" unfolding routed_def by blast
qed (simp_all add: routed_def channel_of_def)

interpretation queued: block_invariant "\<lambda>_ s. h \<in> set (ob_queue (outbox_of s t))" "\<lambda>_ _ _. True" H for h t H
proof unfold_locales
  fix s t' h' s'
  assume "h \<in> set (ob_queue (outbox_of s t))" "schedule_for s (t', h') = Ok s'"
  then show "h \<in> set (ob_queue (outbox_of s' t))"
    by (elim schedule_for_cases) (auto simp: schedule_message_Ok_iff split: if_splits)
qed (simp_all add: outbox_of_def)

lemma schedule_all_queues:
  assumes "routed H ms s" "\<And>t h. (t, h) \<in> set ths \<Longrightarrow> h = H \<and> addressed ms t"
    and "schedule_all env ths s = Ok s'" "(t, H) \<in> set ths"
  shows "H \<in> set (ob_queue (outbox_of s' t))"
proof -
  from assms(3) obtain obs where obs: "try_load_entries_mut (ce_target_key env) outbox_default (map fst ths) (cs_outboxes s) = Ok obs"
    and run: "try_fold schedule_for (s\<lparr>cs_outboxes := obs\<rparr>) ths = Ok s'"
    by (auto simp: schedule_all_def)
  from assms(4) obtain xs ys where ths: "ths = xs @ (t, H) # ys" by (auto simp: in_set_conv_decomp)
  obtain s1 s2 where 1: "try_fold schedule_for (s\<lparr>cs_outboxes := obs\<rparr>) xs = Ok s1" "schedule_for s1 (t, H) = Ok s2"
    and 2: "try_fold schedule_for s2 ys = Ok s'"
    using run by (auto simp: ths try_fold_append)
  have "routed H ms (s\<lparr>cs_outboxes := obs\<rparr>)"
    using assms(1) by (rule routing.P_outboxes) (simp add: outbox_of_def load_entries_same [OF obs])
  with 1(1) have "routed H ms s1"
  proof (rule try_fold_invariant)
    fix s x s'
    assume asm: "x \<in> set xs" "routed H ms s" "schedule_for s x = Ok s'"
    obtain t' h' where x: "x = (t', h')" by fastforce
    show "routed H ms s'"
      using asm assms(2) [of t' h'] routed_schedule [of H ms s h' t' s'] by (simp add: ths x)
  qed
  then have "H \<in> set (ob_queue (outbox_of s2 t))"
    using routed_schedule [OF _ _ 1(2)] assms(2) [of t H] assms(4) by simp
  with 2 show ?thesis
    by (rule try_fold_invariant) (metis surj_pair queued.P_schedule)
qed

text \<open>Every direct message queues the block for its recipient.\<close>

definition complete :: "BlockHeight \<Rightarrow> OutgoingMessage list \<Rightarrow> ChainState \<Rightarrow> bool" where
  "complete H ms s \<longleftrightarrow> routed H ms s \<and>
     (\<forall>i. addressed ms (target_chain i) \<longrightarrow> H \<in> set (ob_queue (outbox_of s (target_chain i))))"

lemma complete_raw_result:
  assumes "complete H ms s" "\<And>m. message_application_id (lift m) = app"
    and raw: "process_raw_execution_result env app lift ms H raw s = Ok (s', ms')"
  shows "complete H ms' s'"
proof -
  have old: "routed H ms s" using assms(1) by (simp add: complete_def)
  have new: "routed H ms' s'" using routing.keeps_raw_result [OF old assms(2) raw] .
  let ?ths = "map (\<lambda>i. (target_chain i, H)) (recipients_of (rer_messages raw))"
  obtain s1 where 1: "schedule_all env ?ths s = Ok s1" and 2: "update_channels env app H raw s1 = Ok s'"
    and ms': "ms' = ms @ outgoing lift raw"
    using raw by (auto simp: process_raw_execution_result_def Let_def)
  have keep: "H \<in> set (ob_queue (outbox_of s' t))" if "H \<in> set (ob_queue (outbox_of s1 t))" for t
    by (rule queued.keeps_update_channels [OF that 2, of "outgoing lift raw"]) (simp add: addressed_outgoing assms(2))
  have "H \<in> set (ob_queue (outbox_of s' (target_chain i)))" if "addressed ms' (target_chain i)" for i
  proof (cases "addressed ms (target_chain i)")
    case True
    then have "H \<in> set (ob_queue (outbox_of s (target_chain i)))" using assms(1) by (simp add: complete_def)
    then show ?thesis
      by (rule queued.keeps_raw_result [OF _ assms(2) raw])
  next
    case False
    then have "i \<in> set (recipients_of (rer_messages raw))"
      using that by (auto simp: ms' addressed_chain outgoing_def set_recipients_of)
    then have "(target_chain i, H) \<in> set ?ths" by auto
    then have "H \<in> set (ob_queue (outbox_of s1 (target_chain i)))"
      by (intro schedule_all_queues [OF routing.P_messages [OF old] _ 1])
        (auto intro: addressed_outgoing(1) [OF assms(2)])
    then show ?thesis by (rule keep)
  qed
  with new show ?thesis by (simp add: complete_def)
qed

interpretation completeness: result_invariant "complete H" H for H
proof unfold_locales
  show "complete H ms' s'" if "complete H ms s" "process_raw_execution_result env System Message_System ms H raw s = Ok (s', ms')"
    for ms s env raw ms' s'
    by (rule complete_raw_result [OF that(1) _ that(2)]) (simp add: message_application_id_def)
  show "complete H ms' s'" if "complete H ms s" "process_raw_execution_result env (User app) (Message_User app) ms H raw s = Ok (s', ms')"
    for ms s env app raw ms' s'
    by (rule complete_raw_result [OF that(1) _ that(2)]) (simp add: message_application_id_def)
qed (simp add: complete_def routing.P_state)

text \<open>The recipient of a block collects at least one event when a message is for it.\<close>

lemma manager_reset_error: "manager_reset smp ownership height now = Err e \<Longrightarrow> \<exists>x. e = OwnerWeightError x"
  by (auto simp: manager_reset_def multi_new_def Let_def result_simps split: ChainOwnership.splits)

lemma receive_message_error:
  "receive_message env origin height timestamp hash now st x = Err e \<Longrightarrow> e \<noteq> InternalError message"
  by (auto simp: receive_message_def execute_immediate_message_def system_open_chain_def Let_def result_simps
      split: prod.splits if_splits Message.splits SystemMessage.splits dest: manager_reset_error)

lemma receive_messages_error:
  "try_fold (receive_message env origin height timestamp hash now) st xs = Err e \<Longrightarrow> e \<noteq> InternalError message"
  by (induction xs arbitrary: st) (auto simp: result_simps dest: receive_message_error)

lemma receive_message_events:
  assumes "receive_message env origin height timestamp hash now st x = Ok st'"
  shows "is_for (chain_id_of env) origin (snd x) \<or> snd st \<noteq> [] \<Longrightarrow> snd st' \<noteq> []"
  using assms by (auto simp: receive_message_def split: prod.splits if_splits Message.splits)

lemma receive_messages_events:
  assumes "try_fold (receive_message env origin height timestamp hash now) st (enumerate n ms) = Ok st'"
    and "(\<exists>m \<in> set ms. is_for (chain_id_of env) origin m) \<or> snd st \<noteq> []"
  shows "snd st' \<noteq> []"
  using assms
proof (induction ms arbitrary: st n)
  case (Cons m ms)
  then obtain st1 where st1: "receive_message env origin height timestamp hash now st (n, m) = Ok st1"
    and rest: "try_fold (receive_message env origin height timestamp hash now) st1 (enumerate (Suc n) ms) = Ok st'"
    by auto
  show ?case
    using Cons.IH [OF rest] Cons.prems(2) receive_message_events [OF st1] by auto
qed simp

lemma receive_error_not_ignored: "receive_error e \<noteq> InternalError ''The block was entirely ignored''"
  by (cases e) (simp_all add: receive_error_def)

lemma add_events_error:
  "try_fold (\<lambda>inbox event. map_err receive_error (add_event inbox event)) ib es = Err e \<Longrightarrow>
     e \<noteq> InternalError ''The block was entirely ignored''"
  by (induction es arbitrary: ib) (auto simp: result_simps receive_error_not_ignored receive_error_not_ignored [symmetric])

lemma next_height_error: "next_block_height_to_receive origin s = Err e \<Longrightarrow> e \<noteq> InternalError message"
  by (auto simp: next_block_height_to_receive_def inbox_next_block_height_to_receive_def Let_def result_simps split: if_splits)

lemma addressed_block_not_ignored:
  assumes "\<exists>m \<in> set ms. is_for (chain_id_of env) origin m"
  shows "receive_block env origin height timestamp ms hash now s \<noteq> Err (InternalError ''The block was entirely ignored'')"
proof
  assume "receive_block env origin height timestamp ms hash now s = Err (InternalError ''The block was entirely ignored'')"
  then obtain st s' where "try_fold (receive_message env origin height timestamp hash now) st (enumerate 0 ms) = Ok (s', [])"
    by (auto simp: receive_block_def and_then_Err_iff ensure_def split: prod.splits if_splits
        dest: next_height_error add_events_error receive_messages_error)
  from receive_messages_events [OF this] assms show False by simp
qed

section \<open>Properties of routing\<close>

definition heights_below :: "BlockHeight \<Rightarrow> ChainState \<Rightarrow> bool" where
  "heights_below H s \<longleftrightarrow>
     (\<forall>t. ob_next_height_to_schedule (outbox_of s t) \<le> H \<and> (\<forall>h \<in> set (ob_queue (outbox_of s t)). h < H)) \<and>
     (\<forall>c h. chn_block_height (channel_of s c) = Some h \<longrightarrow> h < H)"

lemma heights_below_complete: "heights_below H s \<Longrightarrow> complete H [] s"
  by (auto simp: heights_below_def complete_def routed_def outbox_routed_def addressed_def)

lemma executed_height:
  "execute_block env block now s = Ok (s', outcome) \<Longrightarrow> unat (blk_height block + 1) = unat (blk_height block) + 1"
proof -
  assume "execute_block env block now s = Ok (s', outcome)"
  then obtain n where "try_add_one (blk_height block) = Ok n"
    by (auto simp: execute_block_def finish_block_def Let_def split: option.splits)
  then have "unat n = Suc (unat (blk_height block))" by simp
  then show ?thesis using unat_lt_pow [of n] by (simp add: unat_word_ariths(1))
qed

lemma routed_heights:
  assumes "routed H ms s" "unat (H + 1) = unat H + 1"
  shows "heights_below (H + 1) s"
proof -
  have next_H: "h < H + 1 \<longleftrightarrow> h \<le> H" for h using assms(2) by (simp add: word_less_nat_alt word_le_nat_alt less_Suc_eq_le)
  have "ob_next_height_to_schedule ob \<le> H + 1 \<and> (\<forall>h \<in> set (ob_queue ob). h < H + 1)" if "outbox_routed H ms t ob" for t ob
    using that assms(2) unfolding next_H by (auto simp: outbox_routed_def word_le_nat_alt word_less_nat_alt intro: less_imp_le)
  moreover have "h \<le> H" if "chn_block_height (channel_of s c) = Some h" for c h
    using assms(1) that by (auto simp: routed_def intro: less_imp_le)
  ultimately show ?thesis using assms(1) unfolding heights_below_def routed_def next_H by blast
qed


end
