(* ===== verification/Runtime_Rules.thy ===== *)
theory Runtime_Rules
  imports Execution
begin

text \<open>
  Reasoning about runs of user code. A predicate on the runtime state that every primitive
  update keeps is kept by every request and every run, at any depth of calls: the locale
  \<open>runtime_frame\<close> states what has to be shown of the updates of requests without calls, and
  \<open>runtime_invariant\<close> adds the updates of the call stack. They are interpreted for the signers
  of the call stack, for the counters of reads and writes, and (without calls) for the call
  stack itself, which a run that returns leaves as it found it.
\<close>

named_theorems keeps_rules

lemma rt_bind_cases:
  "rt_bind m f s = (s', r) \<longleftrightarrow>
     (\<exists>s1 a. m s = (s1, Ok a) \<and> f a s1 = (s', r)) \<or>
     (\<exists>e. m s = (s', Err e) \<and> r = Err e) \<or> m s = (s', Panic) \<and> r = Panic"
  by (auto simp: rt_bind_def split: prod.splits result.splits)

section \<open>Invariants of the runtime\<close>

locale runtime_frame =
  fixes I :: "RuntimeState \<Rightarrow> bool" and E :: "ExecutionError \<Rightarrow> bool"
  assumes I_execution: "I s \<Longrightarrow> es_system x = es_system (rt_execution_state s) \<Longrightarrow> I (s\<lparr>rt_execution_state := x\<rparr>)"
    and I_sessions: "I s \<Longrightarrow> I (s\<lparr>rt_session_manager := y\<rparr>)"
    and I_simple: "I s \<Longrightarrow> I (s\<lparr>rt_active_simple_user_states := is\<rparr>)"
    and I_view: "I s \<Longrightarrow> I (s\<lparr>rt_active_view_user_states := is\<rparr>)"
    and I_active: "I s \<Longrightarrow> I (s\<lparr>rt_active_sessions := js\<rparr>)"
    and I_fuel: "I s \<Longrightarrow> I (s\<lparr>rt_remaining_fuel := n\<rparr>)"
    and I_num_reads: "I s \<Longrightarrow> n < lim_max_budget_num_reads (rt_runtime_limits s) \<or> E (Exec_ArithmeticError Overflow) \<Longrightarrow>
      I (s\<lparr>rt_num_reads := n\<rparr>)"
    and I_bytes_read: "I s \<Longrightarrow> n < lim_max_budget_bytes_read (rt_runtime_limits s) \<and>
      n < lim_maximum_bytes_left_to_read (rt_runtime_limits s) \<or> E (Exec_ArithmeticError Overflow) \<or> E ExcessiveRead \<Longrightarrow>
      I (s\<lparr>rt_bytes_read := n\<rparr>)"
    and I_bytes_written: "I s \<Longrightarrow> n < lim_max_budget_bytes_written (rt_runtime_limits s) \<and>
      n < lim_maximum_bytes_left_to_write (rt_runtime_limits s) \<or> E (Exec_ArithmeticError Overflow) \<or> E ExcessiveWrite \<Longrightarrow>
      I (s\<lparr>rt_bytes_written := n\<rparr>)"
begin

definition keeps_when :: "(ExecutionError \<Rightarrow> bool) \<Rightarrow> 'a rt \<Rightarrow> bool" where
  "keeps_when F m \<longleftrightarrow> (\<forall>s s' r. I s \<longrightarrow> m s = (s', r) \<longrightarrow>
     (case r of Ok _ \<Rightarrow> I s' | Err e \<Rightarrow> F e \<longrightarrow> I s' | Panic \<Rightarrow> True))"

lemma keeps_whenI:
  assumes "\<And>s s' a. I s \<Longrightarrow> m s = (s', Ok a) \<Longrightarrow> I s'" "\<And>s s' e. I s \<Longrightarrow> m s = (s', Err e) \<Longrightarrow> F e \<Longrightarrow> I s'"
  shows "keeps_when F m"
  unfolding keeps_when_def
proof (intro allI impI)
  fix s s' r
  assume s: "I s" "m s = (s', r)"
  show "case r of Ok _ \<Rightarrow> I s' | Err e \<Rightarrow> F e \<longrightarrow> I s' | Panic \<Rightarrow> True"
  proof (cases r)
    case (Ok a)
    then show ?thesis using assms(1) [of s s' a] s by simp
  next
    case (Err e)
    then show ?thesis using assms(2) [of s s' e] s by simp
  qed simp
qed

lemma keeps_whenD1: "keeps_when F m \<Longrightarrow> I s \<Longrightarrow> m s = (s', Ok a) \<Longrightarrow> I s'"
  unfolding keeps_when_def by (drule spec [of _ s], drule spec [of _ s'], drule spec [of _ "Ok a"]) simp

lemma keeps_whenD2: "keeps_when F m \<Longrightarrow> I s \<Longrightarrow> m s = (s', Err e) \<Longrightarrow> F e \<Longrightarrow> I s'"
  unfolding keeps_when_def by (drule spec [of _ s], drule spec [of _ s'], drule spec [of _ "Err e"]) simp

lemmas keeps_whenD = keeps_whenD1 keeps_whenD2

lemma keeps_weaken: "keeps_when (\<lambda>_. True) m \<Longrightarrow> keeps_when F m"
  by (rule keeps_whenI) (blast dest: keeps_whenD)+

lemma keeps_basic [keeps_rules]:
  "keeps_when F (rt_return a)" "keeps_when F (rt_lift q)" "keeps_when F (rt_get g)" "keeps_when F (rt_ensure b e)"
  by (auto intro!: keeps_whenI simp: rt_return_def rt_lift_def rt_get_def rt_ensure_def)

lemma keeps_bind [keeps_rules]:
  "keeps_when F m \<Longrightarrow> (\<And>a. keeps_when F (f a)) \<Longrightarrow> keeps_when F (rt_bind m f)"
  by (rule keeps_whenI; unfold rt_bind_cases) (blast dest: keeps_whenD)+

lemma keeps_then [keeps_rules]: "keeps_when F m \<Longrightarrow> keeps_when F k \<Longrightarrow> keeps_when F (rt_then m k)"
  unfolding rt_then_def by (intro keeps_rules)

lemma keeps_modify: "(\<And>s. I s \<Longrightarrow> I (f s)) \<Longrightarrow> keeps_when F (rt_modify f)"
  by (rule keeps_whenI) (auto simp: rt_modify_def)

lemma keeps_respond [keeps_rules]: "keeps_when F m \<Longrightarrow> keeps_when F (respond f m)"
  unfolding respond_def by (intro keeps_rules)

lemma keeps_case [keeps_rules]:
  "keeps_when F x \<Longrightarrow> (\<And>a. keeps_when F (y a)) \<Longrightarrow> keeps_when F (case v of None \<Rightarrow> x | Some a \<Rightarrow> y a)"
  "(\<And>a b. keeps_when F (g a b)) \<Longrightarrow> keeps_when F (case p of (a, b) \<Rightarrow> g a b)"
  "keeps_when F x \<Longrightarrow> keeps_when F z \<Longrightarrow> keeps_when F (if b then x else z)"
  by (auto split: option.splits prod.splits)

lemma keeps_updates [keeps_rules]:
  "keeps_when F (set_session i st)" "keeps_when F (release_session i)"
  "keeps_when F (rt_modify (\<lambda>s. s\<lparr>rt_execution_state := (rt_execution_state s)\<lparr>es_simple_users := x0 s\<rparr>\<rparr>))"
  "keeps_when F (rt_modify (\<lambda>s. s\<lparr>rt_execution_state := (rt_execution_state s)\<lparr>es_view_users := x1 s\<rparr>\<rparr>))"
  "keeps_when F (rt_modify (\<lambda>s. s\<lparr>rt_session_manager := x2 s\<rparr>))"
  "keeps_when F (rt_modify (\<lambda>s. s\<lparr>rt_active_simple_user_states := x3 s\<rparr>))"
  "keeps_when F (rt_modify (\<lambda>s. s\<lparr>rt_active_view_user_states := x4 s\<rparr>))"
  "keeps_when F (rt_modify (\<lambda>s. s\<lparr>rt_active_sessions := x5 s\<rparr>))"
  "keeps_when F (rt_modify (\<lambda>s. s\<lparr>rt_remaining_fuel := n\<rparr>))"
  by (auto simp: set_session_def release_session_def
      intro!: keeps_modify I_execution I_sessions I_simple I_view I_active I_fuel)

lemma keeps_application [keeps_rules]:
  "keeps_when F current_application" "keeps_when F application_id" "keeps_when F application_parameters"
  "keeps_when F (load_application env i)"
  unfolding application_id_def application_parameters_def current_application_def load_application_def
  by (intro keeps_rules)+

lemma keeps_sessions [keeps_rules]:
  "keeps_when F (lock_session i)" "keeps_when F (forward_sessions js a b)"
  "keeps_when F (make_sessions_loop ds a b n js)" "keeps_when F (make_sessions ds a b)"
  "keeps_when F (try_load_session i a)" "keeps_when F (try_save_session i a d)" "keeps_when F (try_close_session i a)"
proof -
  show lock: "keeps_when F (lock_session i)" for i unfolding lock_session_def by (intro keeps_rules)
  show "keeps_when F (forward_sessions js a b)"
    by (induction js) (simp_all add: lock keeps_rules)
  show loop: "keeps_when F (make_sessions_loop ds a b n js)" for n js
    by (induction ds arbitrary: n js) (simp_all add: Let_def keeps_rules)
  show "keeps_when F (make_sessions ds a b)" unfolding make_sessions_def by (intro keeps_rules loop)
  show "keeps_when F (try_load_session i a)" "keeps_when F (try_save_session i a d)" "keeps_when F (try_close_session i a)"
    unfolding try_load_session_def try_save_session_def try_close_session_def active_session_def
    by (intro keeps_rules lock)+
qed

lemma keeps_increment [keeps_rules]:
  "keeps_when E increment_num_reads" "keeps_when E (increment_bytes_read n)" "keeps_when E (increment_bytes_written n)"
  by (rule keeps_whenI; auto simp: increment_num_reads_def increment_bytes_read_def increment_bytes_written_def
      rt_then_def rt_bind_cases rt_modify_def rt_ensure_def not_le split: if_splits
      intro!: I_num_reads I_bytes_read I_bytes_written)+

lemma keeps_simple_state:
  "keeps_when F (load_simple_state env)" "keeps_when F (try_read_and_lock_my_state env)"
  "keeps_when F (save_and_unlock_my_state d)" "keeps_when F unlock_my_state"
proof -
  show load: "keeps_when F (load_simple_state env)" unfolding load_simple_state_def by (intro keeps_rules)
  show "keeps_when F (try_read_and_lock_my_state env)"
    unfolding try_read_and_lock_my_state_def by (intro keeps_rules load)
  show "keeps_when F (save_and_unlock_my_state d)" unfolding save_and_unlock_my_state_def
    by (intro keeps_rules keeps_modify) (drule I_simple, drule I_execution, simp_all)
  show "keeps_when F unlock_my_state" unfolding unlock_my_state_def by (intro keeps_rules)
qed

lemma keeps_view_state [keeps_rules]:
  "keeps_when F (lock_view_user_state env)" "keeps_when F unlock_view_user_state"
  "keeps_when E (rt_read_key_bytes k)" "keeps_when E (rt_find_keys_by_prefix k)"
  "keeps_when E (rt_find_key_values_by_prefix k)" "keeps_when E (write_batch_and_unlock b)"
proof -
  have locked: "keeps_when F locked_view" for F unfolding locked_view_def by (intro keeps_rules)
  show "keeps_when F (lock_view_user_state env)" "keeps_when F unlock_view_user_state"
    unfolding lock_view_user_state_def unlock_view_user_state_def set_view_state_def
    by (intro keeps_rules locked)+
  show "keeps_when E (rt_read_key_bytes k)" "keeps_when E (rt_find_keys_by_prefix k)"
    "keeps_when E (rt_find_key_values_by_prefix k)"
    unfolding rt_read_key_bytes_def rt_find_keys_by_prefix_def rt_find_key_values_by_prefix_def
    by (intro keeps_rules locked)+
  show "keeps_when E (write_batch_and_unlock b)" unfolding write_batch_and_unlock_def set_view_state_def
    by (intro keeps_rules locked keeps_modify) (auto intro!: I_view I_execution)
qed

lemma keeps_base_request: "keeps_when E (handle_base_request env q)"
  unfolding handle_base_request_def try_read_my_state_def
  by (cases q) (simp_all add: keeps_rules keeps_simple_state)

end

locale runtime_invariant = runtime_frame +
  fixes S :: "Owner option \<Rightarrow> bool"
  assumes S_None: "S None"
    and S_signer: "I s \<Longrightarrow> a \<in> set (rt_applications s) \<Longrightarrow> S (as_signer a)"
    and I_push: "I s \<Longrightarrow> S (as_signer a) \<Longrightarrow> I (s\<lparr>rt_applications := rt_applications s @ [a]\<rparr>)"
    and I_pop: "I s \<Longrightarrow> I (s\<lparr>rt_applications := butlast (rt_applications s)\<rparr>)"
    and I_result: "I s \<Longrightarrow> S (rer_authenticated_signer r) \<Longrightarrow>
      I (s\<lparr>rt_execution_results := rt_execution_results s @ [Result_User c r]\<rparr>)"
begin

lemma keeps_pop [keeps_rules]: "keeps_when F pop_application"
  unfolding pop_application_def by (rule keeps_modify) (rule I_pop)

lemma keeps_bind_current:
  assumes "\<And>a. S (as_signer a) \<Longrightarrow> keeps_when F (f a)"
  shows "keeps_when F (rt_bind current_application f)"
proof -
  have "S (as_signer a)" if "I s" "current_application s = (s', Ok a)" for s s' a
    using that S_signer [of s a]
    by (auto simp: current_application_def rt_bind_cases rt_get_def rt_lift_def split: if_splits)
  then show ?thesis using assms keeps_application(1)
    by (intro keeps_whenI; unfold rt_bind_cases) (blast dest: keeps_whenD)+
qed

lemma keeps_push [keeps_rules]: "S (as_signer a) \<Longrightarrow> keeps_when F (push_application a)"
  unfolding push_application_def by (rule keeps_modify) (rule I_push)

lemma keeps_push_result [keeps_rules]: "S sg \<Longrightarrow> keeps_when F (push_result c (with_authenticated_signer sg r))"
  unfolding push_result_def by (rule keeps_modify) (rule I_result, auto simp: with_authenticated_signer_def)

lemma keeps_run_code: "(\<And>q. keeps_when E (h q)) \<Longrightarrow> keeps_when E (run_code h code)"
  by (induction code) (simp_all add: keeps_rules)

lemma S_callee: "S (as_signer a) \<Longrightarrow> S (cc_authenticated_signer (callee_context b a i))"
  by (simp add: callee_context_def authenticated_signer_of_def S_None)

lemma keeps_bind_context:
  assumes "S (as_signer a)" "\<And>x. S (cc_authenticated_signer x) \<Longrightarrow> keeps_when F (f x)"
  shows "keeps_when F (rt_bind (rt_get (\<lambda>s. callee_context b a (rt_chain_id s))) f)"
proof -
  have "rt_bind (rt_get (\<lambda>s. callee_context b a (rt_chain_id s))) f =
      (\<lambda>s. f (callee_context b a (rt_chain_id s)) s)"
    by (simp add: fun_eq_iff rt_bind_def rt_get_def)
  then show ?thesis using assms(2) [OF S_callee [OF assms(1)]]
    by (auto intro!: keeps_whenI dest: keeps_whenD)
qed

lemma keeps_calls:
  assumes h: "\<And>q. keeps_when E (h q)"
  shows "keeps_when E (try_call_application env h b c arg fs)" "keeps_when E (try_call_session env h b i arg fs)"
  unfolding try_call_application_def try_call_session_def Let_def
  by (intro keeps_bind_current keeps_bind_context keeps_rules keeps_run_code h; simp add: keeps_rules)+

lemma keeps_handle_request: "keeps_when E (handle_request depth env q)"
proof (induction depth arbitrary: q)
  case (Suc depth)
  show ?case
  proof (cases q)
    case Req_TryReadAndLockMyState
    have "keeps_when (\<lambda>_. True) (try_read_and_lock_my_state env)" by (rule keeps_simple_state)
    then show ?thesis using Req_TryReadAndLockMyState
      by (auto simp: contract_request_def split: prod.splits result.splits ExecutionError.splits ViewError.splits
          intro!: keeps_whenI dest: keeps_whenD)
  next
    case (Req_SaveAndUnlockMyState d)
    have "keeps_when (\<lambda>_. True) (save_and_unlock_my_state d)" by (rule keeps_simple_state)
    then show ?thesis using Req_SaveAndUnlockMyState
      by (auto simp: contract_request_def split: prod.splits result.splits intro!: keeps_whenI dest: keeps_whenD)
  qed (simp_all add: contract_request_def keeps_rules keeps_base_request keeps_simple_state keeps_calls [OF Suc])
qed (simp add: keeps_rules)

lemma run_keeps:
  assumes "I s" "run_code (handle_request depth env) code s = (s', r)"
  shows "(\<forall>a. r = Ok a \<longrightarrow> I s') \<and> (\<forall>e. r = Err e \<longrightarrow> E e \<longrightarrow> I s')"
  using assms keeps_whenD [OF keeps_run_code [of "handle_request depth env" code, OF keeps_handle_request]] by blast

end

section \<open>Signers\<close>

text \<open>Only the signer of the transaction, or none, is on the call stack and in the results.\<close>

definition signed_by :: "Owner option \<Rightarrow> ExecutionResult \<Rightarrow> bool" where
  "signed_by sg result =
     (case result of Result_User _ raw \<Rightarrow> rer_authenticated_signer raw \<in> {None, sg}
      | Result_System raw \<Rightarrow> rer_authenticated_signer raw = None)"

definition signed :: "Owner option \<Rightarrow> RuntimeState \<Rightarrow> bool" where
  "signed sg s \<longleftrightarrow> (\<forall>a \<in> set (rt_applications s). as_signer a \<in> {None, sg}) \<and>
     (\<forall>r \<in> set (rt_execution_results s). signed_by sg r)"

interpretation signers: runtime_invariant "signed sg" "\<lambda>_. True" "\<lambda>x. x \<in> {None, sg}" for sg
  by unfold_locales (auto simp: signed_def signed_by_def dest: in_set_butlastD)

section \<open>Counters\<close>

text \<open>The counters are within the limits whenever an execution goes on.\<close>

definition within_limits :: "RuntimeLimits \<Rightarrow> RuntimeState \<Rightarrow> bool" where
  "within_limits lims s \<longleftrightarrow> rt_runtime_limits s = lims \<and>
     (rt_num_reads s = 0 \<or> rt_num_reads s < lim_max_budget_num_reads lims) \<and>
     (rt_bytes_read s = 0 \<or>
        rt_bytes_read s < lim_max_budget_bytes_read lims \<and> rt_bytes_read s < lim_maximum_bytes_left_to_read lims) \<and>
     (rt_bytes_written s = 0 \<or>
        rt_bytes_written s < lim_max_budget_bytes_written lims \<and>
        rt_bytes_written s < lim_maximum_bytes_left_to_write lims)"

definition is_user_error :: "ExecutionError \<Rightarrow> bool" where
  "is_user_error e \<longleftrightarrow> (\<exists>message. e = UserError message)"

interpretation counters: runtime_invariant "within_limits lims" is_user_error "\<lambda>_. True" for lims
  by unfold_locales (auto simp: within_limits_def is_user_error_def)

section \<open>The system state\<close>

text \<open>User applications do not touch the system state.\<close>

interpretation isolation: runtime_invariant "\<lambda>s. es_system (rt_execution_state s) = system" "\<lambda>_. True" "\<lambda>_. True"
  for system
  by unfold_locales auto

section \<open>The call stack\<close>

interpretation stack: runtime_frame "\<lambda>s. rt_applications s = xs" "\<lambda>_. True" for xs
  by unfold_locales auto

definition balanced :: "'a rt \<Rightarrow> bool" where
  "balanced m \<longleftrightarrow> (\<forall>s s' a. m s = (s', Ok a) \<longrightarrow> rt_applications s' = rt_applications s)"

lemma balancedI: "(\<And>xs. stack.keeps_when xs (\<lambda>_. True) m) \<Longrightarrow> balanced m"
  unfolding balanced_def by (blast dest: stack.keeps_whenD1 [OF _ refl])

lemma balancedD: "balanced m \<Longrightarrow> m s = (s', Ok a) \<Longrightarrow> rt_applications s' = rt_applications s"
  by (simp add: balanced_def)

lemma balanced_bind: "balanced m \<Longrightarrow> (\<And>a. balanced (f a)) \<Longrightarrow> balanced (rt_bind m f)"
  unfolding balanced_def rt_bind_cases by fastforce

lemma balanced_then: "balanced m \<Longrightarrow> balanced k \<Longrightarrow> balanced (rt_then m k)"
  unfolding rt_then_def by (intro balanced_bind)

lemma balanced_return: "balanced (rt_return a)"
  by (simp add: balanced_def rt_return_def)

lemma balanced_lift: "balanced (rt_lift r)"
  by (simp add: balanced_def rt_lift_def)

lemma balanced_prod: "(\<And>a b. balanced (g a b)) \<Longrightarrow> balanced (case p of (a, b) \<Rightarrow> g a b)"
  by (simp split: prod.splits)

lemma balanced_push_result: "balanced (push_result c r)"
  by (auto simp: balanced_def push_result_def rt_modify_def)

lemma balanced_call:
  assumes body: "balanced body" and k: "\<And>r. balanced (k r)"
  shows "balanced (rt_then (push_application a) (rt_bind body (\<lambda>r. rt_then pop_application (k r))))"
  unfolding balanced_def
proof (intro allI impI)
  fix s s' b
  assume "rt_then (push_application a) (rt_bind body (\<lambda>r. rt_then pop_application (k r))) s = (s', Ok b)"
  then obtain s1 r where s1: "body (s\<lparr>rt_applications := rt_applications s @ [a]\<rparr>) = (s1, Ok r)"
    and s2: "k r (s1\<lparr>rt_applications := butlast (rt_applications s1)\<rparr>) = (s', Ok b)"
    by (auto simp: rt_then_def rt_bind_cases push_application_def pop_application_def rt_modify_def)
  show "rt_applications s' = rt_applications s"
    using balancedD [OF body s1] balancedD [OF k s2] by simp
qed

lemma balanced_call_pair:
  assumes "balanced body" "\<And>x y. balanced (k x y)"
  shows "balanced (rt_then (push_application a) (rt_bind body (\<lambda>(x, y). rt_then pop_application (k x y))))"
proof -
  have "(\<lambda>(x, y). rt_then pop_application (k x y)) = (\<lambda>r. rt_then pop_application (case r of (x, y) \<Rightarrow> k x y))"
    by auto
  then show ?thesis using assms balanced_call [of body "\<lambda>(x, y). k x y" a] by (simp split: prod.splits)
qed

lemma balanced_if: "balanced x \<Longrightarrow> balanced y \<Longrightarrow> balanced (if b then x else y)"
  by simp

lemmas balanced_rules = balanced_if balanced_bind balanced_then balanced_return balanced_prod balanced_push_result

lemma balanced_run_code: "(\<And>q. balanced (h q)) \<Longrightarrow> balanced (run_code h code)"
  by (induction code) (auto simp: balanced_return balanced_lift intro!: balanced_bind)

lemma balanced_calls:
  assumes h: "\<And>q. balanced (h q)"
  shows "balanced (try_call_application env h b c arg fs)" "balanced (try_call_session env h b i arg fs)"
proof -
  note frame = balancedI [OF stack.keeps_application(1)] balancedI [OF stack.keeps_application(2)]
    balancedI [OF stack.keeps_application(4)] balancedI [OF stack.keeps_basic(3)]
    balancedI [OF stack.keeps_sessions(2)] balancedI [OF stack.keeps_sessions(4)]
    balancedI [OF stack.keeps_sessions(5)] balancedI [OF stack.keeps_sessions(6)] balancedI [OF stack.keeps_sessions(7)]
  note run = balanced_run_code [of h, OF h]
  show "balanced (try_call_application env h b c arg fs)"
    unfolding try_call_application_def by (intro balanced_call balanced_rules frame run)
  show "balanced (try_call_session env h b i arg fs)"
    unfolding try_call_session_def Let_def by (intro balanced_call_pair balanced_rules frame run)
qed

lemma balanced_handle_request: "balanced (handle_request depth env q)"
proof (induction depth arbitrary: q)
  case (Suc depth)
  show ?case
  proof (cases q)
    case Req_TryReadAndLockMyState
    have *: "balanced (try_read_and_lock_my_state env)" by (rule balancedI) (rule stack.keeps_simple_state)
    have "rt_applications s' = rt_applications s"
      if "try_read_and_lock_my_state env s = (s', Err (Exec_ViewError x))" for s s' x
      using stack.keeps_whenD2 [OF stack.keeps_simple_state(2) refl that] by simp
    with * show ?thesis using Req_TryReadAndLockMyState
      by (auto simp: contract_request_def balanced_def split: prod.splits result.splits ExecutionError.splits ViewError.splits)
  next
    case (Req_SaveAndUnlockMyState d)
    have *: "balanced (save_and_unlock_my_state d)" by (rule balancedI) (rule stack.keeps_simple_state)
    have "rt_applications s' = rt_applications s" if "save_and_unlock_my_state d s = (s', Err e)" for s s' e
      using stack.keeps_whenD2 [OF stack.keeps_simple_state(3) refl that] by simp
    with * show ?thesis using Req_SaveAndUnlockMyState
      by (auto simp: contract_request_def balanced_def split: prod.splits result.splits)
  next
    case (Req_TryCallApplication b c arg fs)
    then show ?thesis
      by (simp add: contract_request_def respond_def) (intro balanced_bind balanced_return balanced_calls Suc)
  next
    case (Req_TryCallSession b i arg fs)
    then show ?thesis
      by (simp add: contract_request_def respond_def) (intro balanced_bind balanced_return balanced_calls Suc)
  qed (auto simp: contract_request_def respond_def intro!: balanced_rules Suc
      balancedI stack.keeps_base_request stack.keeps_simple_state keeps_rules)
qed (simp add: balanced_lift)

lemmas balanced_run = balanced_run_code [OF balanced_handle_request]

end
