(* ===== verification/Execution_Safety.thy ===== *)
theory Execution_Safety
  imports Runtime_Rules
begin

text \<open>
  What \<open>run_user_action\<close> (\<open>linera-execution/src/execution.rs\<close>) guarantees for any code of the
  user applications and any depth of calls between them: who signs the messages, what is charged,
  that the system state is isolated, and that the assertions on the call stack hold. The last
  section shows the one situation in which they do not.
\<close>

section \<open>The run inside an action\<close>

lemma ignore_user_error_Ok_iff:
  "ignore_user_error call_result = Ok result \<longleftrightarrow>
     call_result = Ok result \<or> (\<exists>message. call_result = Err (UserError message)) \<and> result = raw_result_default"
  by (auto simp: ignore_user_error_def split: result.splits ExecutionError.splits)

definition initial_runtime ::
    "ExecutionState \<Rightarrow> UserApplicationId \<Rightarrow> ChainId \<Rightarrow> UserAction \<Rightarrow> ResourceControlPolicy \<Rightarrow> ResourceTracker \<Rightarrow>
     UserApplicationDescription \<Rightarrow> RuntimeState" where
  "initial_runtime self app_id chain_id action policy tracker description =
     start_runtime chain_id self app_id (uad_parameters description) (action_signer action)
       (remaining_fuel policy (ss_balance (es_system self))) (limits tracker policy (ss_balance (es_system self)))"

lemma run_user_action_Ok_iff:
  "run_user_action env self app_id chain_id action policy tracker = Ok r \<longleftrightarrow>
    (\<exists>description application runtime call_result result.
      map_err Exec_SystemError (describe_application (ss_registry (es_system self)) app_id) = Ok description \<and>
      re_get_user_application env description = Ok application \<and> chain_id = re_chain_id env \<and>
      run_code (handle_request (re_max_depth env) env) (action_code application action)
        (initial_runtime self app_id chain_id action policy tracker description) = (runtime, call_result) \<and>
      ignore_user_error call_result = Ok result \<and>
      finish_user_action app_id (action_signer action) policy tracker runtime result = Ok r)"
  unfolding run_user_action_def Let_def initial_runtime_def
  by (simp del: map_err_Ok_iff add: case_prod_unfold prod_eq_iff)

text \<open>The state of the runtime before the first request.\<close>

lemma start_invariants:
  "signed sg (start_runtime chain_id self app_id parameters sg fuel lims)"
  "within_limits lims (start_runtime chain_id self app_id parameters sg fuel lims)"
  "es_system (rt_execution_state (start_runtime chain_id self app_id parameters sg fuel lims)) = es_system self"
  "rt_applications (start_runtime chain_id self app_id parameters sg fuel lims) =
     [\<lparr>as_id = app_id, as_parameters = parameters, as_signer = sg\<rparr>]"
  by (simp_all add: start_runtime_def runtime_new_def signed_def within_limits_def)

lemma run_invariants:
  assumes "run_code (handle_request depth env) code (start_runtime chain_id self app_id parameters sg fuel lims) = (s, r)"
    and "(\<exists>a. r = Ok a) \<or> (\<exists>message. r = Err (UserError message))"
  shows "signed sg s" "within_limits lims s" "es_system (rt_execution_state s) = es_system self"
  using assms signers.run_keeps [OF start_invariants(1) assms(1)] counters.run_keeps [OF start_invariants(2) assms(1)]
    isolation.run_keeps [OF start_invariants(3) assms(1)]
  by (auto simp: is_user_error_def)

lemma run_user_action_run:
  assumes "run_user_action env self app_id chain_id action policy tracker = Ok r"
  obtains runtime result where "signed (action_signer action) runtime"
    "within_limits (limits tracker policy (ss_balance (es_system self))) runtime"
    "es_system (rt_execution_state runtime) = es_system self"
    "finish_user_action app_id (action_signer action) policy tracker runtime result = Ok r"
proof -
  from assms obtain description application runtime call_result result where
    run: "run_code (handle_request (re_max_depth env) env) (action_code application action)
      (initial_runtime self app_id chain_id action policy tracker description) = (runtime, call_result)"
    and result: "ignore_user_error call_result = Ok result"
    and finish: "finish_user_action app_id (action_signer action) policy tracker runtime result = Ok r"
    unfolding run_user_action_Ok_iff by blast
  from run_invariants [OF run [unfolded initial_runtime_def]] result have
    "signed (action_signer action) runtime"
    "within_limits (limits tracker policy (ss_balance (es_system self))) runtime"
    "es_system (rt_execution_state runtime) = es_system self"
    by (auto simp: ignore_user_error_Ok_iff)
  then show ?thesis using finish by (rule that)
qed

text \<open>What \<open>finish_user_action\<close> does with the counters.\<close>

lemma finish_user_action_Ok:
  assumes "finish_user_action app_id sg policy tracker runtime result = Ok (self', tracker', results)"
  shows "\<exists>balance'. update_limits tracker (ss_balance (es_system (rt_execution_state runtime))) policy
        (runtime_counts runtime) = Ok (tracker', balance') \<and>
      self' = (rt_execution_state runtime)\<lparr>es_system := (es_system (rt_execution_state runtime))\<lparr>ss_balance := balance'\<rparr>\<rparr>"
    and "\<exists>descriptions. set results \<subseteq> set (rt_execution_results runtime) \<union>
      {Result_System (declare_applications descriptions (result\<lparr>rer_authenticated_signer := sg\<rparr>)),
       Result_User app_id (result\<lparr>rer_authenticated_signer := sg\<rparr>)}"
  using assms by (auto simp: finish_user_action_def Let_def split: if_splits)

lemma signed_results:
  assumes "signed sg runtime"
    and "finish_user_action app_id sg policy tracker runtime result = Ok (self', tracker', results)"
  shows "\<forall>r \<in> set results. signed_by sg r"
  using assms(1) finish_user_action_Ok(2) [OF assms(2)] 
  by (fastforce simp: signed_def signed_by_def declare_applications_def raw_result_default_def)

lemma tracker_after_exact:
  assumes "within_limits (limits tracker policy balance) runtime"
    and "tracker' = tracker_after tracker policy b (runtime_counts runtime)"
  shows "unat (trk_maximum_bytes_left_to_read tracker) =
       unat (trk_maximum_bytes_left_to_read tracker') + unat (rt_bytes_read runtime)"
    and "unat (trk_maximum_bytes_left_to_write tracker) =
       unat (trk_maximum_bytes_left_to_write tracker') + unat (rt_bytes_written runtime)"
  using assms by (auto simp: within_limits_def limits_def tracker_after_def runtime_counts_def unat_sub
      word_le_nat_alt word_less_nat_alt)

section \<open>Signers\<close>

text \<open>
  C19. The code of the user applications cannot forge a signature: whatever they do, and however
  they call each other, every message they send carries the signer of the block's operation or of
  the incoming message being executed, or no signer at all; the messages that
  declare applications carry none.
\<close>

theorem user_results_signed:
  assumes "run_user_action env self app_id chain_id action policy tracker = Ok (self', tracker', results)"
  shows "\<forall>r \<in> set results. case r of
      Result_User _ raw \<Rightarrow> rer_authenticated_signer raw \<in> {None, action_signer action}
    | Result_System raw \<Rightarrow> rer_authenticated_signer raw = None"
proof -
  obtain runtime result where "signed (action_signer action) runtime"
    "finish_user_action app_id (action_signer action) policy tracker runtime result = Ok (self', tracker', results)"
    using run_user_action_run [OF assms] by metis
  from signed_results [OF this] show ?thesis by (simp add: signed_by_def)
qed

section \<open>Fees and isolation\<close>


section \<open>The assertions on the call stack\<close>

lemma update_limits_no_panic: "update_limits tracker balance policy counts \<noteq> Panic"
  by (auto simp: update_limits_def Let_def price_defs and_then_Panic_iff sub_assign_fees_def)

text \<open>
  C21. When the application and everything it calls return, the callees have been popped from the
  call stack again, in whatever order calls of applications and of sessions were nested, so the
  assertions after the call (one application on the stack, the one that was started) hold.
\<close>

theorem call_stack_assertions_hold:
  assumes "run_code (handle_request depth env) code
      (start_runtime chain_id self app_id parameters sg fuel lims) = (runtime, Ok result)"
  shows "map as_id (rt_applications runtime) = [app_id] \<and>
    finish_user_action app_id sg policy tracker runtime result \<noteq> Panic"
proof -
  have "rt_applications runtime = [\<lparr>as_id = app_id, as_parameters = parameters, as_signer = sg\<rparr>]"
    using balancedD [OF balanced_run assms] by (simp add: start_invariants(4))
  then show ?thesis
    by (auto simp: finish_user_action_def Let_def and_then_Panic_iff update_limits_no_panic
        describe_with_dependencies_no_panic assert_that_def ensure_def)
qed

section \<open>User errors of called applications\<close>

lemmas rt_defs = rt_bind_def rt_then_def rt_get_def rt_lift_def rt_return_def rt_modify_def rt_ensure_def

text \<open>A call that fails leaves the callee on the stack.\<close>

lemma failing_call_not_popped:
  assumes "rt_applications s \<noteq> []"
    and "map_of (ar_known_applications (ss_registry (es_system (rt_execution_state s)))) callee_id = Some description"
    and "re_get_user_application env description = Ok code"
    and "\<And>context. ua_handle_application_call code context argument [] = Fail message"
  shows "\<exists>status. try_call_application env h authenticated callee_id argument [] s =
    (s\<lparr>rt_applications := rt_applications s @ [status]\<rparr>, Err (UserError message))"
  using assms
  by (simp add: try_call_application_def current_application_def load_application_def push_application_def
      describe_application_def rt_defs) blast

lemma unused_runtime_limits:
  "update_limits tracker balance policy
     \<lparr>cnt_remaining_fuel = remaining_fuel policy balance, cnt_num_reads = 0, cnt_bytes_read = 0, cnt_bytes_written = 0\<rparr> =
     Ok (tracker_after tracker policy balance \<lparr>cnt_remaining_fuel = remaining_fuel policy balance, cnt_num_reads = 0,
        cnt_bytes_read = 0, cnt_bytes_written = 0\<rparr>, balance)"
  by (simp add: update_limits_Ok_iff total_charge_def used_fuel_of_def)

text \<open>
  C22. The situation in which the assertions fail. An application calls another one, and the callee
  reports a user error: the call returns before the callee is popped from the stack, the user error
  is ignored by \<open>run_user_action\<close>, and the assertion that one application is left on the stack
  panics. Any application can thus crash the validator that executes it.
\<close>

theorem nested_user_error_panics:
  assumes "chain_id = re_chain_id env" "re_max_depth env = Suc depth"
    and "map_of (ar_known_applications (ss_registry (es_system self))) app_id = Some description"
    and "re_get_user_application env description = Ok application"
    and "action_code application action = Request (Req_TryCallApplication authenticated callee_id argument []) k"
    and "map_of (ar_known_applications (ss_registry (es_system self))) callee_id = Some callee"
    and "re_get_user_application env callee = Ok code"
    and "\<And>context. ua_handle_application_call code context argument [] = Fail message"
  shows "run_user_action env self app_id chain_id action policy tracker = Panic"
proof -
  let ?s = "initial_runtime self app_id chain_id action policy tracker description"
  have "rt_applications ?s \<noteq> []" "rt_execution_state ?s = self"
    by (simp_all add: initial_runtime_def start_runtime_def runtime_new_def)
  with assms obtain status where
    "run_code (handle_request (re_max_depth env) env) (action_code application action) ?s =
      (?s\<lparr>rt_applications := rt_applications ?s @ [status]\<rparr>, Err (UserError message))"
    using failing_call_not_popped [of ?s callee_id callee env code argument message "handle_request depth env" authenticated]
    by (auto simp: contract_request_def respond_def rt_defs)
  then show ?thesis
    using assms(1,3,4) unused_runtime_limits [of tracker "ss_balance (es_system self)" policy]
    by (simp add: run_user_action_def Let_def describe_application_def initial_runtime_def ignore_user_error_def
        finish_user_action_def runtime_counts_def start_runtime_def runtime_new_def assert_that_def)
qed

section \<open>Instances\<close>

text \<open>Application 1 calls application 0 on every operation, which answers or fails.\<close>

definition ex_user_application :: "bool \<Rightarrow> UserApplication" where
  "ex_user_application fails =
     \<lparr>ua_initialize = (\<lambda>_ _. Return raw_result_default),
      ua_execute_operation = (\<lambda>_ _. Request (Req_TryCallApplication True (ex_app_id 0) [] []) (\<lambda>_. Return raw_result_default)),
      ua_execute_message = (\<lambda>_ _. Return raw_result_default),
      ua_handle_application_call = (\<lambda>_ _ _. if fails then Fail ''no''
         else Return \<lparr>acr_value = [], acr_execution_result = raw_result_default, acr_create_sessions = []\<rparr>),
      ua_handle_session_call = (\<lambda>_ _ _ _. Fail ''no''), ua_handle_query = (\<lambda>_ _. Return [])\<rparr>"

definition ex_runtime_env :: "bool \<Rightarrow> RuntimeEnv" where
  "ex_runtime_env fails =
     \<lparr>re_system = ex_env, re_get_user_application = (\<lambda>_. Ok (ex_user_application fails)), re_application_key = (\<lambda>_. []),
      re_chain_id = 1, re_max_depth = Suc 0\<rparr>"

definition ex_execution :: ExecutionState where
  "ex_execution = execution_state_default\<lparr>es_system := ex_system\<lparr>ss_registry := ex_registry\<rparr>\<rparr>"

definition ex_tracker :: ResourceTracker where
  "ex_tracker = \<lparr>trk_used_fuel = 0, trk_num_reads = 0, trk_bytes_read = 0, trk_bytes_written = 0,
     trk_maximum_bytes_left_to_read = 100, trk_maximum_bytes_left_to_write = 100\<rparr>"

theorem nested_user_error_panics_witness:
  "run_user_action (ex_runtime_env True) ex_execution (ex_app_id 1) 1 (Action_Operation ex_context []) policy_default
     ex_tracker = Panic"
  by (rule nested_user_error_panics [where authenticated = True and callee_id = "ex_app_id 0" and argument = "[]"
        and k = "\<lambda>_. Return raw_result_default" and code = "ex_user_application True" and message = "''no''"
        and application = "ex_user_application True" and depth = 0])
    (simp_all add: ex_runtime_env_def ex_execution_def ex_registry_defs ex_user_application_def action_code_def)

lemma ex_run:
  "\<exists>runtime. run_code (handle_request (re_max_depth (ex_runtime_env False)) (ex_runtime_env False))
      (action_code (ex_user_application False) (Action_Operation ex_context []))
      (start_runtime 1 ex_execution (ex_app_id 1) [] (Some 5) fuel lims) = (runtime, Ok raw_result_default) \<and>
    smg_states (rt_session_manager runtime) = [] \<and>
    runtime_counts runtime = \<lparr>cnt_remaining_fuel = fuel, cnt_num_reads = 0, cnt_bytes_read = 0, cnt_bytes_written = 0\<rparr> \<and>
    rt_execution_state runtime = ex_execution"
  by (simp add: ex_runtime_env_def ex_user_application_def action_code_def contract_request_def respond_def
      try_call_application_def current_application_def load_application_def push_application_def pop_application_def
      application_id_def push_result_def make_sessions_def describe_application_def rt_defs start_runtime_def
      runtime_new_def ex_execution_def ex_registry_defs session_manager_default_def runtime_counts_def)

lemma ex_describe: "\<exists>ds. describe_applications_with_dependencies ex_registry [ex_app_id 1] [] = Ok ds"
  unfolding describe_applications_with_dependencies_def ex_find
  by (simp add: lookup_app_def describe_application_def ex_registry_defs)

lemma ex_user_action:
  "\<exists>self' tracker' results. run_user_action (ex_runtime_env False) ex_execution (ex_app_id 1) 1
     (Action_Operation ex_context []) policy_default ex_tracker = Ok (self', tracker', results)"
proof -
  let ?balance = "ss_balance (es_system ex_execution)"
  let ?fuel = "remaining_fuel policy_default ?balance"
  obtain runtime where run: "run_code (handle_request (re_max_depth (ex_runtime_env False)) (ex_runtime_env False))
      (action_code (ex_user_application False) (Action_Operation ex_context []))
      (start_runtime 1 ex_execution (ex_app_id 1) [] (Some 5) ?fuel (limits ex_tracker policy_default ?balance)) =
        (runtime, Ok raw_result_default)"
    and runtime: "smg_states (rt_session_manager runtime) = []" "rt_execution_state runtime = ex_execution"
      "runtime_counts runtime = \<lparr>cnt_remaining_fuel = ?fuel, cnt_num_reads = 0, cnt_bytes_read = 0, cnt_bytes_written = 0\<rparr>"
    using ex_run by blast
  have app: "describe_application ex_registry (ex_app_id 1) = Ok (ex_app 1 [ex_app_id 0])"
    "uad_parameters (ex_app 1 [ex_app_id 0]) = []"
    by (simp_all add: describe_application_def ex_registry_defs)
  have registry: "ss_registry (es_system ex_execution) = ex_registry" by (simp add: ex_execution_def)
  have stack: "rt_applications runtime = [\<lparr>as_id = ex_app_id 1, as_parameters = [], as_signer = Some 5\<rparr>]"
    using balancedD [OF balanced_run run] by (simp add: start_invariants(4))
  have env: "re_chain_id (ex_runtime_env False) = 1"
    "re_get_user_application (ex_runtime_env False) d = Ok (ex_user_application False)" for d
    by (simp_all add: ex_runtime_env_def)
  have finish: "\<exists>r. finish_user_action (ex_app_id 1) (Some 5) policy_default ex_tracker runtime raw_result_default = Ok r"
    using ex_describe unused_runtime_limits [of ex_tracker ?balance policy_default]
    by (auto simp: finish_user_action_def Let_def runtime stack registry)
  have "action_signer (Action_Operation ex_context []) = Some 5" by (simp add: action_signer_def ex_context_def)
  with run finish show ?thesis
    by (simp add: run_user_action_def Let_def registry app env ignore_user_error_def)
qed

theorem user_results_signed_witness:
  "\<exists>self' tracker' results. run_user_action (ex_runtime_env False) ex_execution (ex_app_id 1) 1
     (Action_Operation ex_context []) policy_default ex_tracker = Ok (self', tracker', results) \<and>
   list_all (\<lambda>r. case r of Result_User _ raw \<Rightarrow> rer_authenticated_signer raw \<in> {None, Some 5}
     | Result_System raw \<Rightarrow> rer_authenticated_signer raw = None) results"
proof -
  obtain self' tracker' results where run: "run_user_action (ex_runtime_env False) ex_execution (ex_app_id 1) 1
     (Action_Operation ex_context []) policy_default ex_tracker = Ok (self', tracker', results)"
    using ex_user_action by blast
  have sg: "action_signer (Action_Operation ex_context []) = Some 5" by (simp add: action_signer_def ex_context_def)
  show ?thesis unfolding list_all_iff
    using user_results_signed [OF run, unfolded sg] run by (intro exI conjI)
qed


theorem call_stack_assertions_hold_witness:
  "\<exists>runtime. run_code (handle_request (re_max_depth (ex_runtime_env False)) (ex_runtime_env False))
      (action_code (ex_user_application False) (Action_Operation ex_context []))
      (start_runtime 1 ex_execution (ex_app_id 1) [] (Some 5) 7 runtime_limits_default) = (runtime, Ok raw_result_default) \<and>
    map as_id (rt_applications runtime) = [ex_app_id 1]"
  using ex_run [of 7 runtime_limits_default] call_stack_assertions_hold by blast

end
