(* ===== verification/Delivery_Run.thy ===== *)
theory Delivery_Run
  imports Delivery Execution_Safety
begin

text \<open>
  Concrete runs of a chain (\<open>linera-chain/src/chain.rs\<close>): a block with one transfer to another
  chain, and the acknowledgement of its message. They are the instances at which the
  properties of blocks are evaluated.
\<close>

definition ex_chain_env :: "ChainId \<Rightarrow> ChainEnv" where
  "ex_chain_env chain_id =
     \<lparr>ce_runtime = (ex_runtime_env False)\<lparr>re_chain_id := chain_id\<rparr>,
      ce_sampler = \<lparr>smp_check_weights = (\<lambda>_. Ok ()), smp_sample = (\<lambda>_ _. 0)\<rparr>,
      ce_crypto_hash = (\<lambda>_. 7), ce_incoming_messages_size = (\<lambda>_. Ok 0), ce_operations_size = (\<lambda>_. Ok 0),
      ce_origin_key = (\<lambda>_. []), ce_target_key = (\<lambda>_. []), ce_channel_key = (\<lambda>_. []), ce_chain_id_key = (\<lambda>_. [])\<rparr>"

definition ex_chain :: ChainState where
  "ex_chain = chain_default\<lparr>cs_execution_state := execution_state_default\<lparr>es_system := ex_system\<rparr>, cs_manager := Manager_None\<rparr>"

definition ex_block :: Block where
  "ex_block = \<lparr>blk_chain_id = 1, blk_epoch = 0, blk_incoming_messages = [],
     blk_operations = [Operation_System ex_transfer], blk_height = 0, blk_timestamp = 0,
     blk_authenticated_signer = Some 5, blk_previous_block_hash = None\<rparr>"

definition ex_credit :: OutgoingMessage where
  "ex_credit = \<lparr>om_destination = Recipient 2, om_authenticated_signer = None, om_is_skippable = False,
     om_message = Message_System (Msg_Credit (account_chain 2) 3)\<rparr>"

definition ex_outbox :: OutboxState where
  "ex_outbox = \<lparr>ob_next_height_to_schedule = 1, ob_queue = [0]\<rparr>"

definition ex_chain1 :: ChainState where
  "ex_chain1 = ex_chain\<lparr>cs_execution_state := execution_state_default\<lparr>es_system := ex_system1\<rparr>,
     cs_execution_state_hash := Some 7, cs_manager := Manager_Single (single_new 5 5),
     cs_outboxes := [(target_chain 2, ex_outbox)], cs_outbox_counters := [(0, 1)]\<rparr>"

definition ex_outcome :: BlockExecutionOutcome where
  "ex_outcome = \<lparr>beo_messages = [ex_credit], beo_message_counts = [1], beo_state_hash = 7\<rparr>"

lemma ex_next_height: "try_add_one (0 :: u64) = Ok 1"
  by simp

lemma ex_schedule:
  "schedule_all (ex_chain_env c) [(target_chain 2, 0)] s = Ok (s\<lparr>cs_outboxes := [(target_chain 2, ex_outbox)], cs_outbox_counters := [(0, 1)]\<rparr>)"
  if "cs_outboxes s = []" "cs_outbox_counters s = []"
  using that by (simp add: schedule_all_def try_load_entries_mut_def try_load_entry_def schedule_for_def schedule_message_def
      outbox_default_def ex_outbox_def entry_or_def Let_def btree_get_or_def
      ex_next_height del: and_then_Ok_iff map_err_Ok_iff map_ok_Ok_iff try_add_one_Ok_iff)

lemma ex_operation:
  "execute_operation (ce_runtime (ex_chain_env 1)) (execution_state_default\<lparr>es_system := ex_system\<rparr>)
      \<lparr>opc_chain_id = 1, opc_authenticated_signer = Some 5, opc_height = 0, opc_index = 0, opc_next_message_index = 0\<rparr>
      (Operation_System ex_transfer) policy tracker =
     Ok (execution_state_default\<lparr>es_system := ex_system1\<rparr>, tracker,
         [Result_System (ex_transfer_result\<lparr>rer_authenticated_signer := Some 5\<rparr>)])"
  using ex_transfer_step
  by (simp add: execute_operation_def ex_chain_env_def ex_runtime_env_def ex_context_def assert_that_def Let_def)

lemma schedule_none: "schedule_all env [] s = Ok s"
  by (simp add: schedule_all_def try_load_entries_mut_def)

lemma ex_results:
  "process_execution_results (ex_chain_env c) [] 0 [Result_System (ex_transfer_result\<lparr>rer_authenticated_signer := Some 5\<rparr>)] s =
     Ok (s\<lparr>cs_outboxes := [(target_chain 2, ex_outbox)], cs_outbox_counters := [(0, 1)]\<rparr>, [ex_credit])"
  if "cs_outboxes s = []" "cs_outbox_counters s = []"
  using that by (simp add: process_execution_results_def process_execution_result_def process_raw_execution_result_def
      update_channels_def load_channels_def try_load_entries_mut_def ex_transfer_result_def recipients_of_def broadcasts_of_def
      map_filter_simps credit_message_def recipient_chain_def account_chain_def plain_message_def ex_schedule outgoing_def
      ex_credit_def schedule_none del: and_then_Ok_iff map_err_Ok_iff map_ok_Ok_iff)

lemma ex_charge: "charge_block (ex_chain_env c) policy_default ex_block 0 0 = Ok 0"
  by (simp add: charge_block_def ex_chain_env_def storage_bytes_written_price_raw_def price_of_size_def policy_default_def
      certificate_price_def) (intro exI [of _ 0] conjI, simp_all)

lemma ex_block_simps [simp]:
  "blk_chain_id ex_block = 1" "blk_incoming_messages ex_block = []" "blk_operations ex_block = [Operation_System ex_transfer]"
  "blk_height ex_block = 0" "blk_timestamp ex_block = 0" "blk_authenticated_signer ex_block = Some 5"
  by (simp_all add: ex_block_def)

lemma ex_chain_simps [simp]:
  "cs_execution_state ex_chain = execution_state_default\<lparr>es_system := ex_system\<rparr>"
  "cs_outboxes ex_chain = []" "cs_outbox_counters ex_chain = []" "chain_id_of (ex_chain_env c) = c"
  by (simp_all add: ex_chain_def chain_default_def chain_id_of_def ex_chain_env_def)

lemma ex_system_simps:
  "ss_timestamp ex_system = 0" "ss_balance ex_system = 0" "ex_system\<lparr>ss_timestamp := 0\<rparr> = ex_system"
  "ex_system\<lparr>ss_balance := 0\<rparr> = ex_system" "ss_ownership ex_system1 = Ownership_Single 5 5" "ss_balance ex_system1 = 0"
  "ex_system1\<lparr>ss_balance := 0\<rparr> = ex_system1"
  by (simp_all add: ex_system_def ex_system1_def system_default_def)

definition ex_progress :: "ResourceTracker \<Rightarrow> BlockProgress" where
  "ex_progress tracker = \<lparr>bp_chain = ex_chain\<lparr>cs_execution_state := execution_state_default\<lparr>es_system := ex_system1\<rparr>,
       cs_outboxes := [(target_chain 2, ex_outbox)], cs_outbox_counters := [(0, 1)]\<rparr>,
     bp_tracker = tracker, bp_messages = [ex_credit], bp_message_counts = [1]\<rparr>"

lemma ex_block_operation:
  "execute_block_operation (ex_chain_env 1) policy ex_block
      \<lparr>bp_chain = ex_chain, bp_tracker = tracker, bp_messages = [], bp_message_counts = []\<rparr> (0, Operation_System ex_transfer) =
    Ok (ex_progress tracker)"
  by (simp add: execute_block_operation_def record_results_def ex_operation ex_results ex_progress_def try_from_nat_def
      del: and_then_Ok_iff map_err_Ok_iff map_ok_Ok_iff)

lemma ex_finish_block: "finish_block (ex_chain_env 1) ex_block 0 0 (ex_progress tracker) = Ok (ex_chain1, ex_outcome)"
proof -
  have "sub_assign_fees 0 0 = Ok 0" by simp
  then show ?thesis
    by (simp add: finish_block_def Let_def ex_progress_def with_balance_def ex_system_simps ex_next_height manager_reset_def
        ex_chain1_def ex_outcome_def ex_chain_env_def
        del: and_then_Ok_iff map_err_Ok_iff map_ok_Ok_iff try_add_one_Ok_iff sub_assign_fees_Ok_iff)
qed

lemma ex_execute_block: "execute_block (ex_chain_env 1) ex_block 0 ex_chain = Ok (ex_chain1, ex_outcome)"
proof -
  have credit: "incoming_credit 1 ex_block = 0" by (simp add: incoming_credit_def amount_sum_def map_filter_simps)
  have committee: "current_committee ex_system = Some (0, committee_new [] policy_default)"
    "com_policy (committee_new [] policy_default) = policy_default"
    by (simp_all add: ex_system_def current_committee_def committee_new_def Let_def)
  have same: "ex_chain\<lparr>cs_execution_state := execution_state_default\<lparr>es_system := ex_system\<rparr>\<rparr> = ex_chain"
    by (simp add: ex_chain_def)
  show ?thesis
    using ex_charge [of 1]
    by (simp add: execute_block_def assert_that_def Let_def ensure_def ex_system_simps committee credit with_balance_def same
        ex_block_operation ex_finish_block del: and_then_Ok_iff map_err_Ok_iff map_ok_Ok_iff)
qed

lemma ex_chain1_run: "chain_run 1 ex_chain1"
proof (rule run_execute [OF _ _ ex_execute_block])
  show "chain_run 1 ex_chain"
    using run_start [where e = "cs_execution_state ex_chain" and hash = None and m = "cs_manager ex_chain"] by (simp add: ex_chain_def chain_default_def)
  show "chain_id_of (ex_chain_env 1) = 1" by (simp add: chain_id_of_def ex_chain_env_def)
qed

lemma ex_outbox_of: "outbox_of ex_chain1 t = (if t = target_chain 2 then ex_outbox else outbox_default)"
  by (simp add: outbox_of_def entry_or_def ex_chain1_def)

theorem deliveries_tracked_witness:
  "\<exists>s. mark_messages_as_received (target_chain 2) 0 ex_chain1 = Ok (s, True) \<and>
    \<not> all_messages_delivered_up_to 0 ex_chain1 \<and> ob_queue (outbox_of s (target_chain 2)) = []"
proof -
  have "length (cs_outboxes ex_chain1) < 2 ^ 32" by (simp add: ex_chain1_def)
  from deliveries_tracked [OF ex_chain1_run this, of 0 "target_chain 2"] show ?thesis
    by (auto simp: ex_outbox_of ex_outbox_def)
qed


end
