(* ===== verification/Block_Funds.thy ===== *)
theory Block_Funds
  imports Delivery_Run
begin

text \<open>
  The funds of a chain through the execution of a whole block: the advance of incoming credits, the
  fees, the messages and operations of the system application, and the user applications with their
  nested calls.
\<close>

section \<open>User applications\<close>

text \<open>User code produces results of user applications only.\<close>

interpretation user_results: runtime_invariant
  "\<lambda>s. \<forall>r \<in> set (rt_execution_results s). \<exists>app raw. r = Result_User app raw" "\<lambda>_. True" "\<lambda>_. True"
  by unfold_locales auto

definition result_credits :: "ExecutionResult \<Rightarrow> nat" where
  "result_credits result = (case result of Result_System raw \<Rightarrow> credits raw | Result_User _ _ \<Rightarrow> 0)"

lemma run_user_action_funds:
  assumes "run_user_action env self app_id chain_id action policy tracker = Ok (self', tracker', results)"
  shows "\<exists>balance'. es_system self' = (es_system self)\<lparr>ss_balance := balance'\<rparr> \<and> balance' \<le> ss_balance (es_system self)"
    and "sum_list (map result_credits results) = 0"
proof -
  from assms obtain description application runtime call_result result where
    run: "run_code (handle_request (re_max_depth env) env) (action_code application action)
      (initial_runtime self app_id chain_id action policy tracker description) = (runtime, call_result)"
    and result: "ignore_user_error call_result = Ok result"
    and finish: "finish_user_action app_id (action_signer action) policy tracker runtime result = Ok (self', tracker', results)"
    unfolding run_user_action_Ok_iff by blast
  have system: "es_system (rt_execution_state runtime) = es_system self"
    using run_invariants(3) [OF run [unfolded initial_runtime_def]] result by (auto simp: ignore_user_error_Ok_iff)
  show "\<exists>balance'. es_system self' = (es_system self)\<lparr>ss_balance := balance'\<rparr> \<and> balance' \<le> ss_balance (es_system self)"
    using finish_user_action_Ok(1) [OF finish] by (auto simp: system update_limits_Ok_iff word_le_nat_alt)
  have "\<forall>r \<in> set (rt_execution_results runtime). \<exists>app raw. r = Result_User app raw"
    using user_results.run_keeps [OF _ run] result
    by (auto simp: initial_runtime_def start_runtime_def runtime_new_def ignore_user_error_Ok_iff)
  then have "\<forall>r \<in> set results. result_credits r = 0"
    using finish_user_action_Ok(2) [OF finish]
    by (fastforce simp: result_credits_def credits_def declare_applications_def)
  then show "sum_list (map result_credits results) = 0" by (simp add: sum_list_eq_0_iff)
qed

section \<open>Messages and operations\<close>

definition message_credit :: "Message \<Rightarrow> nat" where
  "message_credit message = (case message of Message_System m \<Rightarrow> credited m | Message_User _ _ \<Rightarrow> 0)"

lemma user_action_total_funds:
  assumes "run_user_action env self app_id chain_id action policy tracker = Ok (self', tracker', results)"
  shows "accounts_wf (es_system self') = accounts_wf (es_system self)"
    "total_funds (es_system self') + sum_list (map result_credits results) \<le> total_funds (es_system self)"
  unfolding run_user_action_funds(2) [OF assms] using run_user_action_funds(1) [OF assms]
  by (auto simp: total_funds_def accounts_wf_def word_le_nat_alt)

lemma execute_operation_funds:
  assumes "accounts_wf (es_system self)" "execute_operation env self context op policy tracker = Ok (self', tracker', results)"
  shows "accounts_wf (es_system self') \<and>
    total_funds (es_system self') + sum_list (map result_credits results) \<le> total_funds (es_system self)"
proof (cases op)
  case (Operation_User app_id bytes)
  then show ?thesis using assms user_action_total_funds
    by (auto simp: execute_operation_def assert_that_def split: if_splits)
next
  case (Operation_System system_op)
  then obtain system r new_application where
    system: "system_execute_operation (re_system env) context system_op (es_system self) = Ok ((system, r), new_application)"
    and rest: "(case new_application of
        Some (app_id, argument) \<Rightarrow> map_ok (\<lambda>(self, tracker, more). (self, tracker,
            Result_System (r\<lparr>rer_authenticated_signer := opc_authenticated_signer context\<rparr>) # more))
          (run_user_action env (self\<lparr>es_system := system\<rparr>) app_id (re_chain_id env)
            (Action_Initialize context argument) policy tracker)
      | None \<Rightarrow> Ok (self\<lparr>es_system := system\<rparr>, tracker,
          [Result_System (r\<lparr>rer_authenticated_signer := opc_authenticated_signer context\<rparr>)])) = Ok (self', tracker', results)"
    using assms(2) by (auto simp: execute_operation_def assert_that_def Let_def split: if_splits)
  have funds: "accounts_wf system" "total_funds system + credits r \<le> total_funds (es_system self)"
    using operation_funds [OF assms(1) system] by auto
  have r: "credits (r\<lparr>rer_authenticated_signer := sg\<rparr>) = credits r" for sg by (simp add: credits_def)
  show ?thesis
  proof (cases new_application)
    case (Some a)
    with rest obtain more where run: "run_user_action env (self\<lparr>es_system := system\<rparr>) (fst a) (re_chain_id env)
        (Action_Initialize context (snd a)) policy tracker = Ok (self', tracker', more)"
      and "results = Result_System (r\<lparr>rer_authenticated_signer := opc_authenticated_signer context\<rparr>) # more"
      by (auto simp: case_prod_beta)
    then show ?thesis using user_action_total_funds [OF run] funds r by (simp add: result_credits_def)
  qed (use rest funds r in \<open>auto simp: result_credits_def\<close>)
qed

lemma execute_message_funds:
  assumes "accounts_wf (es_system self)" "execute_message env self context m policy tracker = Ok (self', tracker', results)"
  shows "accounts_wf (es_system self') \<and>
    total_funds (es_system self') + sum_list (map result_credits results) \<le> total_funds (es_system self) + message_credit m"
proof (cases m)
  case (Message_User app_id bytes)
  then show ?thesis using assms user_action_total_funds
    by (auto simp: execute_message_def assert_that_def message_credit_def split: if_splits)
next
  case (Message_System sm)
  then show ?thesis using assms message_funds [OF assms(1)]
    by (auto simp: execute_message_def assert_that_def message_credit_def result_credits_def split: if_splits)
qed

section \<open>Recording the results\<close>

lemma schedule_for_execution: "schedule_for s x = Ok s' \<Longrightarrow> cs_execution_state s' = cs_execution_state s"
  by (auto simp: schedule_for_def Let_def split: prod.splits if_splits)

lemma schedule_all_execution: "schedule_all env ths s = Ok s' \<Longrightarrow> cs_execution_state s' = cs_execution_state s"
proof -
  assume "schedule_all env ths s = Ok s'"
  then obtain obs where "try_fold schedule_for (s\<lparr>cs_outboxes := obs\<rparr>) ths = Ok s'" by (auto simp: schedule_all_def)
  then show ?thesis by (rule try_fold_invariant) (auto dest: schedule_for_execution)
qed

lemma channels_execution:
  "load_channels env names s = Ok s' \<Longrightarrow> cs_execution_state s' = cs_execution_state s"
  "cs_execution_state (fold remove_subscriber us s) = cs_execution_state s"
  "cs_execution_state (fst (fold (broadcast env H) cs st)) = cs_execution_state (fst st)"
  "cs_execution_state (fst (fold add_subscriber vs st2)) = cs_execution_state (fst st2)"
proof -
  show "load_channels env names s = Ok s' \<Longrightarrow> cs_execution_state s' = cs_execution_state s"
    by (auto simp: load_channels_def)
  show "cs_execution_state (fold remove_subscriber us s) = cs_execution_state s"
    by (induction us arbitrary: s) (auto simp: remove_subscriber_def set_channel_def Let_def split: prod.splits)
  show "cs_execution_state (fst (fold (broadcast env H) cs st)) = cs_execution_state (fst st)"
    by (induction cs arbitrary: st) (auto simp: broadcast_def set_channel_def Let_def split: prod.splits)
  show "cs_execution_state (fst (fold add_subscriber vs st2)) = cs_execution_state (fst st2)"
    by (induction vs arbitrary: st2) (auto simp: add_subscriber_def set_channel_def Let_def split: prod.splits)
qed

lemma update_channels_execution:
  assumes "update_channels env app H raw s = Ok s'"
  shows "cs_execution_state s' = cs_execution_state s"
  using assms channels_execution(3) [of env H] channels_execution(4)
  by (auto simp: update_channels_def Let_def case_prod_beta channels_execution(2)
      dest!: schedule_all_execution channels_execution(1))

lemma process_raw_result:
  assumes "process_raw_execution_result env app lift ms H raw s = Ok (s', ms')"
  shows "cs_execution_state s' = cs_execution_state s" "ms' = ms @ outgoing lift raw"
  using assms by (auto simp: process_raw_execution_result_def Let_def
      dest!: schedule_all_execution update_channels_execution)

definition sent :: "OutgoingMessage list \<Rightarrow> nat" where
  "sent messages = (\<Sum>m \<leftarrow> messages. message_credit (om_message m))"

lemma sent_outgoing:
  "sent (outgoing Message_System raw) = credits raw" "sent (outgoing (Message_User app) raw') = 0"
  by (simp_all add: sent_def outgoing_def credits_def message_credit_def comp_def)

lemma sent_append [simp]: "sent (ms @ ms') = sent ms + sent ms'" "sent [] = 0"
  by (simp_all add: sent_def)

lemma process_result:
  assumes "process_execution_result env H st r = Ok st'"
  shows "cs_execution_state (fst st') = cs_execution_state (fst st) \<and> sent (snd st') = sent (snd st) + result_credits r"
proof (cases r)
  case (Result_System raw)
  then have "process_raw_execution_result env System Message_System (snd st) H raw (fst st) = Ok (fst st', snd st')"
    using assms by (simp add: process_execution_result_def case_prod_beta)
  from process_raw_result [OF this] Result_System show ?thesis by (simp add: sent_outgoing result_credits_def)
next
  case (Result_User app raw)
  then have "process_raw_execution_result env (User app) (Message_User app) (snd st) H raw (fst st) = Ok (fst st', snd st')"
    using assms by (simp add: process_execution_result_def case_prod_beta)
  from process_raw_result [OF this] Result_User show ?thesis by (simp add: sent_outgoing result_credits_def)
qed

lemma process_results:
  assumes "process_execution_results env ms H results s = Ok (s', ms')"
  shows "cs_execution_state s' = cs_execution_state s \<and> sent ms' = sent ms + sum_list (map result_credits results)"
proof -
  have "cs_execution_state (fst st') = cs_execution_state (fst st) \<and>
      sent (snd st') = sent (snd st) + sum_list (map result_credits results)"
    if "try_fold (process_execution_result env H) st results = Ok st'" for st st'
    using that by (induction results arbitrary: st) (auto dest: process_result)
  from this [of "(s, ms)" "(s', ms')"] assms show ?thesis by (simp add: process_execution_results_def)
qed

section \<open>Blocks\<close>

definition progress_system :: "BlockProgress \<Rightarrow> SystemState" where
  "progress_system p = es_system (cs_execution_state (bp_chain p))"

lemma record_results_funds:
  assumes "record_results env H p (state, tracker, results) = Ok p'"
  shows "progress_system p' = es_system state \<and> sent (bp_messages p') = sent (bp_messages p) + sum_list (map result_credits results)"
  using assms by (auto simp: record_results_def progress_system_def dest!: process_results)

lemma incoming_message_funds:
  assumes "accounts_wf (progress_system p)" "execute_incoming_message env policy block p (index, message) = Ok p'"
  shows "accounts_wf (progress_system p') \<and> total_funds (progress_system p') + sent (bp_messages p') \<le>
    total_funds (progress_system p) + sent (bp_messages p) + message_credit (ev_message (im_event message))"
proof -
  obtain ctxt tracker out where "execute_message (ce_runtime env) (cs_execution_state (bp_chain p)) ctxt
      (ev_message (im_event message)) policy tracker = Ok out" and out: "record_results env (blk_height block) p out = Ok p'"
    using assms(2) by (auto simp: execute_incoming_message_def Let_def)
  moreover obtain state tracker' results where "out = (state, tracker', results)" by (cases out)
  ultimately show ?thesis
    using execute_message_funds [of "cs_execution_state (bp_chain p)"] assms(1) record_results_funds
    by (fastforce simp: progress_system_def)
qed

lemma block_operation_funds:
  assumes "accounts_wf (progress_system p)" "execute_block_operation env policy block p (index, operation) = Ok p'"
  shows "accounts_wf (progress_system p') \<and> total_funds (progress_system p') + sent (bp_messages p') \<le>
    total_funds (progress_system p) + sent (bp_messages p)"
proof -
  obtain ctxt tracker out where "execute_operation (ce_runtime env) (cs_execution_state (bp_chain p)) ctxt
      operation policy tracker = Ok out" and out: "record_results env (blk_height block) p out = Ok p'"
    using assms(2) by (auto simp: execute_block_operation_def Let_def)
  moreover obtain state tracker' results where "out = (state, tracker', results)" by (cases out)
  ultimately show ?thesis
    using execute_operation_funds [of "cs_execution_state (bp_chain p)"] assms(1) record_results_funds
    by (fastforce simp: progress_system_def)
qed

lemma incoming_messages_funds:
  assumes "try_fold (execute_incoming_message env policy block) p (enumerate n messages) = Ok p'" "accounts_wf (progress_system p)"
  shows "accounts_wf (progress_system p') \<and> total_funds (progress_system p') + sent (bp_messages p') \<le>
    total_funds (progress_system p) + sent (bp_messages p) + (\<Sum>m \<leftarrow> messages. message_credit (ev_message (im_event m)))"
  using assms
proof (induction messages arbitrary: p n)
  case (Cons m messages)
  then obtain p1 where p1: "execute_incoming_message env policy block p (n, m) = Ok p1"
    and rest: "try_fold (execute_incoming_message env policy block) p1 (enumerate (Suc n) messages) = Ok p'"
    by auto
  from incoming_message_funds [OF Cons.prems(2) p1] Cons.IH [OF rest] show ?case by simp
qed simp

lemma block_operations_funds:
  assumes "try_fold (execute_block_operation env policy block) p (enumerate n operations) = Ok p'" "accounts_wf (progress_system p)"
  shows "accounts_wf (progress_system p') \<and> total_funds (progress_system p') + sent (bp_messages p') \<le>
    total_funds (progress_system p) + sent (bp_messages p)"
  using assms
proof (induction operations arbitrary: p n)
  case (Cons operation operations)
  then obtain p1 where p1: "execute_block_operation env policy block p (n, operation) = Ok p1"
    and rest: "try_fold (execute_block_operation env policy block) p1 (enumerate (Suc n) operations) = Ok p'"
    by auto
  from block_operation_funds [OF Cons.prems(2) p1] Cons.IH [OF rest] show ?case by simp
qed simp

lemma charge_block_funds:
  "charge_block env policy block credit balance = Ok balance' \<Longrightarrow>
     unat balance' + unat (certificate_price policy) \<le> unat balance + unat credit"
  by (auto simp: charge_block_def)

lemma finish_block_funds:
  assumes "finish_block env block now credit p = Ok (s', outcome)"
  shows "total_funds (es_system (cs_execution_state s')) + unat credit = total_funds (progress_system p) \<and>
    beo_messages outcome = bp_messages p"
  using assms by (auto simp: finish_block_def Let_def with_balance_def total_funds_def progress_system_def)

text \<open>
  C25. Executing a block creates no funds. What the chain holds after the block (unattributed and in
  accounts), what the block's messages credit to other chains, and the price of the
  certificate together do not exceed what the chain held before and what its incoming messages
  credit. The credits that the block receives are advanced to pay its fees and taken back
  at the end, so they are not counted twice; user applications, however they call each other, only
  pay.
\<close>

theorem block_creates_no_funds:
  assumes "execute_block env block now s = Ok (s', outcome)"
    and "distinct (map fst (ss_balances (es_system (cs_execution_state s))))"
  shows "\<exists>epoch committee.
    current_committee (es_system (cs_execution_state s)) = Some (epoch, committee) \<and>
    total_funds (es_system (cs_execution_state s')) + sent (beo_messages outcome) + unat (certificate_price (com_policy committee)) \<le>
      total_funds (es_system (cs_execution_state s)) + (\<Sum>m \<leftarrow> blk_incoming_messages block. message_credit (ev_message (im_event m)))"
proof -
  let ?system = "es_system (cs_execution_state s)"
  obtain epoch committee balance tracker p1 p2 where
    committee: "current_committee (?system\<lparr>ss_timestamp := blk_timestamp block\<rparr>) = Some (epoch, committee)"
    and charge: "charge_block env (com_policy committee) block (incoming_credit (chain_id_of env) block) (ss_balance ?system) = Ok balance"
    and 1: "try_fold (execute_incoming_message env (com_policy committee) block)
      \<lparr>bp_chain = with_balance balance (s\<lparr>cs_execution_state := (cs_execution_state s)\<lparr>es_system := ?system\<lparr>ss_timestamp := blk_timestamp block\<rparr>\<rparr>\<rparr>),
       bp_tracker = tracker, bp_messages = [], bp_message_counts = []\<rparr> (enumerate 0 (blk_incoming_messages block)) = Ok p1"
    and 2: "try_fold (execute_block_operation env (com_policy committee) block) p1 (enumerate 0 (blk_operations block)) = Ok p2"
    and 3: "finish_block env block now (incoming_credit (chain_id_of env) block) p2 = Ok (s', outcome)"
    using assms(1) by (auto simp: execute_block_def Let_def split: option.splits)
  let ?p = "\<lparr>bp_chain = with_balance balance (s\<lparr>cs_execution_state := (cs_execution_state s)\<lparr>es_system := ?system\<lparr>ss_timestamp := blk_timestamp block\<rparr>\<rparr>\<rparr>),
       bp_tracker = tracker, bp_messages = [], bp_message_counts = []\<rparr>"
  have p: "progress_system ?p = ?system\<lparr>ss_timestamp := blk_timestamp block, ss_balance := balance\<rparr>"
    by (simp add: progress_system_def with_balance_def)
  then have wf: "accounts_wf (progress_system ?p)" using assms(2) by (simp add: accounts_wf_def)
  have total: "total_funds (progress_system ?p) + unat (ss_balance ?system) = total_funds ?system + unat balance"
    by (simp add: p total_funds_def)
  have committee': "current_committee ?system = Some (epoch, committee)" 
    using committee by (simp add: current_committee_def split: option.splits)
  note charged = charge_block_funds [OF charge]
  note loops = incoming_messages_funds [OF 1 wf] block_operations_funds [OF 2]
  have "total_funds (es_system (cs_execution_state s')) + sent (beo_messages outcome) + unat (certificate_price (com_policy committee)) \<le>
      total_funds ?system + (\<Sum>m \<leftarrow> blk_incoming_messages block. message_credit (ev_message (im_event m)))"
    using loops finish_block_funds [OF 3] charged total by simp
  with committee' show ?thesis by blast
qed

theorem block_creates_no_funds_witness:
  "total_funds (es_system (cs_execution_state ex_chain1)) + sent [ex_credit] \<le> total_funds (es_system (cs_execution_state ex_chain)) \<and>
   sent [ex_credit] = 3"
proof -
  have "distinct (map fst (ss_balances (es_system (cs_execution_state ex_chain))))" by (simp add: ex_system_def)
  from block_creates_no_funds [OF ex_execute_block this] show ?thesis
    by (auto simp: ex_outcome_def sent_def ex_credit_def message_credit_def)
qed

end
