(* ===== verification/Storage.thy ===== *)
theory Storage
  imports Chain
begin

text \<open>
  \<open>linera-storage/src/lib.rs\<close>: the store of a worker. The entries under the three kinds of
  \<open>BaseKey\<close> are three association lists: the saved chain states, the certificates without
  their values, and the values. Failures of the database itself are not modelled. The debug text
  of a hash and the compiler of application bytecode are arguments.
\<close>

record Storage =
  st_chain_states :: "(ChainId \<times> ChainState) list"
  st_certificates :: "(CryptoHash \<times> LiteCertificate) list"
  st_values :: "(CryptoHash \<times> CertificateValue) list"

definition storage_empty :: Storage where
  "storage_empty = \<lparr>st_chain_states = [], st_certificates = [], st_values = []\<rparr>"

section \<open>Chains\<close>

definition load_chain :: "Storage \<Rightarrow> ChainId \<Rightarrow> ChainState" where
  "load_chain self chain_id = entry_or chain_default (st_chain_states self) chain_id"

definition save_chain :: "ChainId \<Rightarrow> ChainState \<Rightarrow> Storage \<Rightarrow> Storage" where
  "save_chain chain_id chain self = self\<lparr>st_chain_states := AList.update chain_id chain (st_chain_states self)\<rparr>"

definition load_active_chain :: "ChainEnv \<Rightarrow> Storage \<Rightarrow> (ChainError, ChainState) result" where
  "load_active_chain env self =
     (let chain = load_chain self (chain_id_of env)
      in and_then (ensure_is_active env chain) (\<lambda>_. Ok chain))"

definition create_chain ::
    "ChainEnv \<Rightarrow> Committee \<Rightarrow> ChainId \<Rightarrow> ChainDescription \<Rightarrow> PublicKey \<Rightarrow> Amount \<Rightarrow> Timestamp \<Rightarrow> Timestamp \<Rightarrow> Storage \<Rightarrow>
     (ChainError, Storage) result" where
  "create_chain env committee admin_id description public_key balance timestamp now self =
     (let system_env = re_system (ce_runtime env);
          chain_id = chain_id_from (env_hash_description system_env) description;
          chain = load_chain self chain_id
      in assert_that (\<not> chain_is_active chain)
        (let state = cs_execution_state chain;
             system = es_system state;
             ownership = ownership_single (env_hash_key system_env) public_key;
             system = system\<lparr>ss_description := Some description, ss_epoch := Some 0, ss_admin_id := Some admin_id,
               ss_committees := btree_insert 0 committee (ss_committees system), ss_ownership := ownership,
               ss_balance := balance, ss_timestamp := timestamp\<rparr>;
             state = state\<lparr>es_system := system\<rparr>;
             chain = chain\<lparr>cs_execution_state := state, cs_execution_state_hash := Some (ce_crypto_hash env state)\<rparr>
         in and_then (manager_reset (ce_sampler env) ownership 0 now) (\<lambda>manager.
              Ok (save_chain chain_id (chain\<lparr>cs_manager := manager\<rparr>) self))))"

section \<open>Values and certificates\<close>

definition read_value :: "(CryptoHash \<Rightarrow> string) \<Rightarrow> Storage \<Rightarrow> CryptoHash \<Rightarrow> (ViewError, HashedValue) result" where
  "read_value debug self hash =
     map_ok (\<lambda>value. with_hash_unchecked value hash)
       (ok_or (NotFound (''value for hash '' @ debug hash)) (map_of (st_values self) hash))"

text \<open>The loop of \<open>read_values_downward\<close>, with the number of rounds left.\<close>

fun read_values_loop ::
    "(CryptoHash \<Rightarrow> string) \<Rightarrow> Storage \<Rightarrow> CryptoHash option \<Rightarrow> nat \<Rightarrow> (ViewError, HashedValue list) result" where
  "read_values_loop debug self hash 0 = Ok []"
| "read_values_loop debug self None (Suc n) = Ok []"
| "read_values_loop debug self (Some next_hash) (Suc n) =
     and_then (read_value debug self next_hash) (\<lambda>value.
       case value_executed_block (hv_value value) of
         None \<Rightarrow> Ok []
       | Some executed_block \<Rightarrow>
           map_ok (Cons value) (read_values_loop debug self (blk_previous_block_hash (eb_block executed_block)) n))"

definition read_values_downward ::
    "(CryptoHash \<Rightarrow> string) \<Rightarrow> Storage \<Rightarrow> CryptoHash \<Rightarrow> u32 \<Rightarrow> (ViewError, HashedValue list) result" where
  "read_values_downward debug self from_hash limit = read_values_loop debug self (Some from_hash) (unat limit)"

definition write_value :: "HashedValue \<Rightarrow> Storage \<Rightarrow> Storage" where
  "write_value value self = self\<lparr>st_values := AList.update (hv_hash value) (hv_value value) (st_values self)\<rparr>"

definition write_values :: "HashedValue list \<Rightarrow> Storage \<Rightarrow> Storage" where
  "write_values values self = fold write_value values self"

definition read_certificate :: "(CryptoHash \<Rightarrow> string) \<Rightarrow> Storage \<Rightarrow> CryptoHash \<Rightarrow> (ViewError, Certificate) result" where
  "read_certificate debug self hash =
     and_then (ok_or (NotFound (''value for hash '' @ debug hash)) (map_of (st_values self) hash)) (\<lambda>value.
     and_then (ok_or (NotFound (''certificate for hash '' @ debug hash)) (map_of (st_certificates self) hash)) (\<lambda>cert.
       ok_or InconsistentEntries (lite_certificate_with_value cert (with_hash_unchecked value hash))))"

definition read_certificates ::
    "(CryptoHash \<Rightarrow> string) \<Rightarrow> Storage \<Rightarrow> CryptoHash list \<Rightarrow> (ViewError, Certificate list) result" where
  "read_certificates debug self keys =
     try_fold (\<lambda>certs key. map_ok (\<lambda>cert. certs @ [cert]) (read_certificate debug self key)) [] keys"

text \<open>\<open>add_certificate_to_batch\<close>: the certificate without its value, and the value.\<close>

definition write_certificate :: "Certificate \<Rightarrow> Storage \<Rightarrow> Storage" where
  "write_certificate certificate self =
     (let hash = hv_hash (ct_value certificate)
      in self\<lparr>st_certificates := AList.update hash (lite_certificate certificate) (st_certificates self),
              st_values := AList.update hash (hv_value (ct_value certificate)) (st_values self)\<rparr>)"

definition write_certificates :: "Certificate list \<Rightarrow> Storage \<Rightarrow> Storage" where
  "write_certificates certificates self = fold write_certificate certificates self"

section \<open>Applications\<close>

text \<open>\<open>new\<close> is \<open>WasmApplication::new\<close> for the runtime in use, absent when there is none.\<close>

definition storage_load_application ::
    "(Bytecode \<Rightarrow> Bytecode \<Rightarrow> (ExecutionError, UserApplication) result) option \<Rightarrow> (CryptoHash \<Rightarrow> string) \<Rightarrow> Storage \<Rightarrow>
     UserApplicationDescription \<Rightarrow> (ExecutionError, UserApplication) result" where
  "storage_load_application wasm_runtime debug self description =
     and_then (expect wasm_runtime) (\<lambda>new.
       let location = uad_bytecode_location description;
           invalid = Err (InvalidBytecodeId (uad_bytecode_id description))
       in and_then (map_err (\<lambda>error. case error of
              NotFound _ \<Rightarrow> ApplicationBytecodeNotFound description
            | _ \<Rightarrow> execution_error_from_view error) (read_value debug self (bl_certificate_hash location))) (\<lambda>value.
          case hv_value value of
            ConfirmedBlock executed_block \<Rightarrow>
              (case slice_get (blk_operations (eb_block executed_block)) (unat (bl_operation_index location)) of
                 Some (Operation_System (Op_PublishBytecode contract service)) \<Rightarrow> new contract service
               | _ \<Rightarrow> invalid)
          | _ \<Rightarrow> invalid))"

text \<open>The applications loaded so far are shared by all chains of the store.\<close>

definition get_user_application ::
    "(UserApplicationDescription \<Rightarrow> (ExecutionError, UserApplication) result) \<Rightarrow> UserApplicationDescription \<Rightarrow>
     (UserApplicationId \<times> UserApplication) list \<Rightarrow>
     (ExecutionError, (UserApplicationId \<times> UserApplication) list \<times> UserApplication) result" where
  "get_user_application load description user_applications =
     (let key = application_id_from description
      in case map_of user_applications key of
           Some application \<Rightarrow> Ok (user_applications, application)
         | None \<Rightarrow> and_then (load description) (\<lambda>application.
             Ok (AList.update key application user_applications, application)))"

section \<open>What is read back\<close>

lemma load_chain_simps [simp]:
  "load_chain (save_chain i chain s) j = (if i = j then chain else load_chain s j)"
  "load_chain (write_value v s) j = load_chain s j"
  "load_chain (write_certificate c s) j = load_chain s j"
  by (simp_all add: load_chain_def save_chain_def write_value_def write_certificate_def entry_or_def update_conv'
      Let_def)

lemma load_chain_writes [simp]:
  "load_chain (write_values vs s) j = load_chain s j"
  "load_chain (write_certificates cs s) j = load_chain s j"
proof -
  show "load_chain (write_values vs s) j = load_chain s j"
    unfolding write_values_def by (induction vs arbitrary: s) simp_all
  show "load_chain (write_certificates cs s) j = load_chain s j"
    unfolding write_certificates_def by (induction cs arbitrary: s) simp_all
qed

end
