(* ===== verification/Stateful.thy ===== *)
theory Stateful
  imports Prelude
begin

text \<open>
  Fallible computations on a state that survives their errors, for the code that changes shared
  state before it may fail. \<open>sf_wp m Q E s\<close> holds when running \<open>m\<close> from \<open>s\<close> ends in a value
  and a state that satisfy \<open>Q\<close>, or in an error or a panic in a state that satisfies \<open>E\<close>.
\<close>

named_theorems wp_simps

type_synonym ('s, 'e, 'a) stateful = "'s \<Rightarrow> 's \<times> ('e, 'a) result"

definition sf_return :: "'a \<Rightarrow> ('s, 'e, 'a) stateful" where
  "sf_return a s = (s, Ok a)"

definition sf_lift :: "('e, 'a) result \<Rightarrow> ('s, 'e, 'a) stateful" where
  "sf_lift r s = (s, r)"

definition sf_bind :: "('s, 'e, 'a) stateful \<Rightarrow> ('a \<Rightarrow> ('s, 'e, 'b) stateful) \<Rightarrow> ('s, 'e, 'b) stateful" where
  "sf_bind m f s =
     (case m s of (s', Ok a) \<Rightarrow> f a s' | (s', Err e) \<Rightarrow> (s', Err e) | (s', Panic) \<Rightarrow> (s', Panic))"

definition sf_then :: "('s, 'e, unit) stateful \<Rightarrow> ('s, 'e, 'b) stateful \<Rightarrow> ('s, 'e, 'b) stateful" where
  "sf_then m k = sf_bind m (\<lambda>_. k)"

definition sf_get :: "('s \<Rightarrow> 'a) \<Rightarrow> ('s, 'e, 'a) stateful" where
  "sf_get f s = (s, Ok (f s))"

definition sf_modify :: "('s \<Rightarrow> 's) \<Rightarrow> ('s, 'e, unit) stateful" where
  "sf_modify f s = (f s, Ok ())"

definition sf_ensure :: "bool \<Rightarrow> 'e \<Rightarrow> ('s, 'e, 'b) stateful \<Rightarrow> ('s, 'e, 'b) stateful" where
  "sf_ensure b e k = (if b then k else sf_lift (Err e))"

fun sf_fold :: "('a \<Rightarrow> 'x \<Rightarrow> ('s, 'e, 'a) stateful) \<Rightarrow> 'a \<Rightarrow> 'x list \<Rightarrow> ('s, 'e, 'a) stateful" where
  "sf_fold f a [] = sf_return a"
| "sf_fold f a (x # xs) = sf_bind (f a x) (\<lambda>a. sf_fold f a xs)"

section \<open>Weakest preconditions\<close>

definition sf_wp ::
    "('s, 'e, 'a) stateful \<Rightarrow> ('a \<Rightarrow> 's \<Rightarrow> bool) \<Rightarrow> ('s \<Rightarrow> bool) \<Rightarrow> 's \<Rightarrow> bool" where
  "sf_wp m Q E s = (case m s of (s', Ok a) \<Rightarrow> Q a s' | (s', _) \<Rightarrow> E s')"

lemma wp_return [wp_simps]: "sf_wp (sf_return a) Q E = Q a"
  by (simp add: fun_eq_iff sf_wp_def sf_return_def)

lemma wp_lift [wp_simps]:
  "sf_wp (sf_lift r) Q E s \<longleftrightarrow> (\<forall>a. r = Ok a \<longrightarrow> Q a s) \<and> ((\<forall>a. r \<noteq> Ok a) \<longrightarrow> E s)"
  by (cases r) (auto simp: sf_wp_def sf_lift_def)

lemma wp_bind [wp_simps]: "sf_wp (sf_bind m f) Q E s = sf_wp m (\<lambda>a. sf_wp (f a) Q E) E s"
  by (simp add: sf_wp_def sf_bind_def split: prod.splits result.splits)

lemma wp_then [wp_simps]: "sf_wp (sf_then m k) Q E s = sf_wp m (\<lambda>_. sf_wp k Q E) E s"
  by (simp add: sf_then_def wp_bind)

lemma wp_get [wp_simps]: "sf_wp (sf_get f) Q E s = Q (f s) s"
  by (simp add: sf_wp_def sf_get_def)

lemma wp_modify [wp_simps]: "sf_wp (sf_modify f) Q E s = Q () (f s)"
  by (simp add: sf_wp_def sf_modify_def)

lemma wp_ensure [wp_simps]: "sf_wp (sf_ensure b e k) Q E s \<longleftrightarrow> (b \<longrightarrow> sf_wp k Q E s) \<and> (\<not> b \<longrightarrow> E s)"
  by (simp add: sf_ensure_def wp_lift)

lemma wp_if [wp_simps]: "sf_wp (if b then m else k) Q E s \<longleftrightarrow> (b \<longrightarrow> sf_wp m Q E s) \<and> (\<not> b \<longrightarrow> sf_wp k Q E s)"
  by simp

lemma wp_prod [wp_simps]: "sf_wp (case p of (x, y) \<Rightarrow> f x y) Q E s \<longleftrightarrow> (\<forall>x y. p = (x, y) \<longrightarrow> sf_wp (f x y) Q E s)"
  by (cases p) simp

lemma wp_fst: "sf_wp m (\<lambda>_. P) P s \<longleftrightarrow> P (fst (m s))"
  by (simp add: sf_wp_def split: prod.splits result.splits)

lemma wp_mono:
  assumes "sf_wp m Q E s" and "\<And>a s. Q a s \<Longrightarrow> Q' a s" and "\<And>s. E s \<Longrightarrow> E' s"
  shows "sf_wp m Q' E' s"
  using assms by (auto simp: sf_wp_def split: prod.splits result.splits)

lemma wp_conj: "sf_wp m Q E s \<Longrightarrow> sf_wp m Q' E' s \<Longrightarrow> sf_wp m (\<lambda>a s. Q a s \<and> Q' a s) (\<lambda>s. E s \<and> E' s) s"
  by (auto simp: sf_wp_def split: prod.splits result.splits)

lemma wp_fold:
  assumes "\<And>a x s. x \<in> set xs \<Longrightarrow> I a s \<Longrightarrow> sf_wp (f a x) I E s" and "I a s"
  shows "sf_wp (sf_fold f a xs) I E s"
  using assms
proof (induction xs arbitrary: a s)
  case (Cons x xs)
  have "sf_wp (f a x) I E s" using Cons.prems by simp
  then show ?case
    by (simp add: wp_bind) (rule wp_mono, assumption, rule Cons.IH, use Cons.prems in auto)
qed (simp add: wp_return)

text \<open>From a run to its conditions.\<close>

lemma wp_run: "m s = (s', Ok a) \<Longrightarrow> sf_wp m Q E s \<Longrightarrow> Q a s'"
  by (simp add: sf_wp_def)

end
