(* ===== verification/Worker_Types.thy ===== *)
theory Worker_Types
  imports Storage Stateful
begin

text \<open>
  The data of the worker: what clients ask and get, and what workers send each other
  (\<open>linera-core/src/data_types.rs\<close>), the errors, the notifications and the state of a worker
  (\<open>linera-core/src/worker.rs\<close>). A one-shot channel is its identity, and the state records
  the channels a message was sent to. The clock is a sequence of readings of which the state
  counts how many were made.
\<close>

section \<open>Queries and responses\<close>

record BlockHeightRange =
  bhr_start :: BlockHeight
  bhr_limit :: "u64 option"

definition range_single :: "BlockHeight \<Rightarrow> BlockHeightRange" where
  "range_single start = \<lparr>bhr_start = start, bhr_limit = Some 1\<rparr>"

record ChainInfoQuery =
  ciq_chain_id :: ChainId
  ciq_test_next_block_height :: "BlockHeight option"
  ciq_request_committees :: bool
  ciq_request_pending_messages :: bool
  ciq_request_sent_certificates_in_range :: "BlockHeightRange option"
  ciq_request_received_log_excluding_first_nth :: "u64 option"
  ciq_request_manager_values :: bool
  ciq_request_leader_timeout :: bool
  ciq_request_blob :: "CryptoHash option"

definition chain_info_query_new :: "ChainId \<Rightarrow> ChainInfoQuery" where
  "chain_info_query_new chain_id =
     \<lparr>ciq_chain_id = chain_id, ciq_test_next_block_height = None, ciq_request_committees = False,
      ciq_request_pending_messages = False, ciq_request_sent_certificates_in_range = None,
      ciq_request_received_log_excluding_first_nth = None, ciq_request_manager_values = False,
      ciq_request_leader_timeout = False, ciq_request_blob = None\<rparr>"

record ChainInfo =
  ci_chain_id :: ChainId
  ci_epoch :: "Epoch option"
  ci_description :: "ChainDescription option"
  ci_manager :: ChainManagerInfo
  ci_system_balance :: Amount
  ci_block_hash :: "CryptoHash option"
  ci_timestamp :: Timestamp
  ci_next_block_height :: BlockHeight
  ci_state_hash :: "CryptoHash option"
  ci_requested_committees :: "Committees option"
  ci_requested_pending_messages :: "IncomingMessage list"
  ci_requested_sent_certificates :: "Certificate list"
  ci_count_received_log :: nat
  ci_requested_received_log :: "ChainAndHeight list"
  ci_requested_blob :: "HashedValue option"

record ChainInfoResponse =
  cir_info :: ChainInfo
  cir_signature :: "Signature option"

definition chain_info_from :: "ChainEnv \<Rightarrow> ChainState \<Rightarrow> ChainInfo" where
  "chain_info_from env view =
     (let system_state = es_system (cs_execution_state view);
          tip_state = cs_tip_state view
      in \<lparr>ci_chain_id = chain_id_of env, ci_epoch = ss_epoch system_state,
          ci_description = ss_description system_state,
          ci_manager = manager_info_from (ce_sampler env) (cs_manager view),
          ci_system_balance = ss_balance system_state, ci_block_hash = tip_block_hash tip_state,
          ci_timestamp = ss_timestamp system_state, ci_next_block_height = tip_next_block_height tip_state,
          ci_state_hash = cs_execution_state_hash view, ci_requested_committees = None,
          ci_requested_pending_messages = [], ci_requested_sent_certificates = [],
          ci_count_received_log = length (cs_received_log view), ci_requested_received_log = [],
          ci_requested_blob = None\<rparr>)"

text \<open>\<open>sign\<close> is \<open>Signature::new\<close> on a chain info.\<close>

definition chain_info_response_new ::
    "(KeyPair \<Rightarrow> ChainInfo \<Rightarrow> Signature) \<Rightarrow> ChainInfo \<Rightarrow> KeyPair option \<Rightarrow> ChainInfoResponse" where
  "chain_info_response_new sign info key_pair =
     \<lparr>cir_info = info, cir_signature = map_option (\<lambda>kp. sign kp info) key_pair\<rparr>"

definition latest_committee :: "ChainInfoResponse \<Rightarrow> Committee option" where
  "latest_committee self =
     Option.bind (ci_requested_committees (cir_info self)) (\<lambda>committees.
     Option.bind (ci_epoch (cir_info self)) (map_of committees))"

section \<open>Requests between chains\<close>

datatype CrossChainRequest =
    UpdateRecipient "(Medium \<times> BlockHeight list) list" ChainId ChainId "Certificate list"
  | ConfirmUpdatedRecipient ChainId ChainId "(Medium \<times> BlockHeight) list"

definition target_chain_id :: "CrossChainRequest \<Rightarrow> ChainId" where
  "target_chain_id self =
     (case self of
        UpdateRecipient _ _ recipient _ \<Rightarrow> recipient
      | ConfirmUpdatedRecipient sender _ _ \<Rightarrow> sender)"

definition has_messages_lower_or_equal_than :: "CrossChainRequest \<Rightarrow> BlockHeight \<Rightarrow> bool" where
  "has_messages_lower_or_equal_than self height =
     (case self of
        UpdateRecipient height_map _ _ _ \<Rightarrow>
          list_ex (\<lambda>(_, heights). case heights of h # _ \<Rightarrow> h \<le> height | [] \<Rightarrow> False) height_map
      | _ \<Rightarrow> False)"

datatype Reason =
    NewBlock BlockHeight CryptoHash
  | NewIncomingMessage Origin BlockHeight
  | NewRound BlockHeight RoundNumber

record Notification =
  nt_chain_id :: ChainId
  nt_reason :: Reason

record NetworkActions =
  na_cross_chain_requests :: "CrossChainRequest list"
  na_notifications :: "Notification list"

definition actions_default :: NetworkActions where
  "actions_default = \<lparr>na_cross_chain_requests = [], na_notifications = []\<rparr>"

section \<open>Errors\<close>

datatype WorkerError =
    Worker_CryptoError CryptoError
  | Worker_ArithmeticError ArithmeticError
  | Worker_ViewError ViewError
  | Worker_ChainError ChainError
  | Worker_InvalidOwner
  | Worker_InvalidSigner Owner
  | Worker_UnexpectedBlockHeight BlockHeight BlockHeight
  | Worker_MissingEarlierBlocks BlockHeight
  | Worker_InvalidEpoch ChainId Epoch
  | InvalidCrossChainRequest
  | InvalidBlockChaining
  | IncorrectStateHash
  | IncorrectMessages
  | IncorrectMessageCounts
  | InvalidTimestamp
  | MissingCertificateValue
  | InvalidLiteCertificate
  | UnneededValue CryptoHash
  | ApplicationBytecodesNotFound "BytecodeLocation list"

section \<open>The worker\<close>

type_synonym Notifier = nat

record WorkerState =
  wk_key_pair :: "KeyPair option"
  wk_storage :: Storage
  wk_allow_inactive_chains :: bool
  wk_allow_messages_from_deprecated_epochs :: bool
  wk_grace_period_micros :: u64
  wk_recent_values :: "(CryptoHash \<times> HashedValue) list"
  wk_delivery_notifiers :: "(ChainId \<times> (BlockHeight, Notifier list) BTreeMap) list"
  wk_notified :: "Notifier list"
  wk_readings :: nat

definition worker_new :: "KeyPair option \<Rightarrow> Storage \<Rightarrow> WorkerState" where
  "worker_new key_pair storage =
     \<lparr>wk_key_pair = key_pair, wk_storage = storage, wk_allow_inactive_chains = False,
      wk_allow_messages_from_deprecated_epochs = False, wk_grace_period_micros = 0,
      wk_recent_values = [], wk_delivery_notifiers = [], wk_notified = [], wk_readings = 0\<rparr>"

definition new_for_client ::
    "Storage \<Rightarrow> (CryptoHash \<times> HashedValue) list \<Rightarrow> (ChainId \<times> (BlockHeight, Notifier list) BTreeMap) list \<Rightarrow>
     WorkerState" where
  "new_for_client storage recent_values delivery_notifiers =
     (worker_new None storage)\<lparr>wk_recent_values := recent_values, wk_delivery_notifiers := delivery_notifiers\<rparr>"

definition with_allow_inactive_chains :: "bool \<Rightarrow> WorkerState \<Rightarrow> WorkerState" where
  "with_allow_inactive_chains b self = self\<lparr>wk_allow_inactive_chains := b\<rparr>"

definition with_allow_messages_from_deprecated_epochs :: "bool \<Rightarrow> WorkerState \<Rightarrow> WorkerState" where
  "with_allow_messages_from_deprecated_epochs b self = self\<lparr>wk_allow_messages_from_deprecated_epochs := b\<rparr>"

definition with_grace_period_micros :: "u64 \<Rightarrow> WorkerState \<Rightarrow> WorkerState" where
  "with_grace_period_micros grace_period_micros self = self\<lparr>wk_grace_period_micros := grace_period_micros\<rparr>"

text \<open>
  The external functions: signatures and hashes, the environment of each chain, the compiler of
  bytecode, the debug text of hashes, the clock, signing chain infos, and the operations \<open>get\<close>
  and \<open>push\<close> of the cache of crate \<open>lru\<close>, whose content is an association list.
\<close>

record WorkerEnv =
  we_crypto :: Crypto
  we_chain :: "ChainId \<Rightarrow> ChainEnv"
  we_wasm_runtime :: "(Bytecode \<Rightarrow> Bytecode \<Rightarrow> (ExecutionError, UserApplication) result) option"
  we_debug_hash :: "CryptoHash \<Rightarrow> string"
  we_clock :: "nat \<Rightarrow> Timestamp"
  we_sign_info :: "KeyPair \<Rightarrow> ChainInfo \<Rightarrow> Signature"
  we_lru_get :: "CryptoHash \<Rightarrow> (CryptoHash \<times> HashedValue) list \<Rightarrow> (CryptoHash \<times> HashedValue) list \<times> HashedValue option"
  we_lru_push :: "CryptoHash \<Rightarrow> HashedValue \<Rightarrow> (CryptoHash \<times> HashedValue) list \<Rightarrow> (CryptoHash \<times> HashedValue) list"

type_synonym 'a wk = "(WorkerState, WorkerError, 'a) stateful"

text \<open>The environment of a chain: its applications are loaded from the current storage.\<close>

definition chain_env :: "WorkerEnv \<Rightarrow> Storage \<Rightarrow> ChainId \<Rightarrow> ChainEnv" where
  "chain_env env storage chain_id =
     (let chain = we_chain env chain_id;
          load = storage_load_application (we_wasm_runtime env) (we_debug_hash env) storage
      in chain\<lparr>ce_runtime := (ce_runtime chain)\<lparr>re_chain_id := chain_id, re_get_user_application := load\<rparr>\<rparr>)"

lemma chain_id_of_chain_env [simp]: "chain_id_of (chain_env env storage chain_id) = chain_id"
  by (simp add: chain_id_of_def chain_env_def Let_def)

definition current_time :: "WorkerEnv \<Rightarrow> Timestamp wk" where
  "current_time env s = (s\<lparr>wk_readings := wk_readings s + 1\<rparr>, Ok (we_clock env (wk_readings s)))"

instantiation Medium :: linorder
begin

definition less_eq_Medium :: "Medium \<Rightarrow> Medium \<Rightarrow> bool" where
  "x \<le> y \<longleftrightarrow> medium_key x \<le> medium_key y"

definition less_Medium :: "Medium \<Rightarrow> Medium \<Rightarrow> bool" where
  "x < y \<longleftrightarrow> medium_key x < medium_key y"

instance
  by standard (auto simp: less_eq_Medium_def less_Medium_def less_le)

end

end
