(* ===== verification/Worker.thy ===== *)
theory Worker
  imports Worker_Types
begin

text \<open>
  \<open>linera-core/src/worker.rs\<close>: the handlers of a worker. A handler runs while it holds the
  guard of the chain it loads, so it is one step on the state of the worker. What it wrote to
  storage or cached before an error stays; the loaded chain is dropped unless it was saved.
\<close>

section \<open>Helpers\<close>

definition lift_chain :: "(ChainError, 'a) result \<Rightarrow> 'a wk" where
  "lift_chain r = sf_lift (map_err Worker_ChainError r)"

definition lift_view :: "(ViewError, 'a) result \<Rightarrow> 'a wk" where
  "lift_view r = sf_lift (map_err Worker_ViewError r)"

definition storage_chain_env :: "WorkerEnv \<Rightarrow> ChainId \<Rightarrow> ChainEnv wk" where
  "storage_chain_env env chain_id = sf_get (\<lambda>s. chain_env env (wk_storage s) chain_id)"

definition update_storage :: "(Storage \<Rightarrow> Storage) \<Rightarrow> unit wk" where
  "update_storage f = sf_modify (\<lambda>s. s\<lparr>wk_storage := f (wk_storage s)\<rparr>)"

definition worker_load_chain :: "ChainId \<Rightarrow> ChainState wk" where
  "worker_load_chain chain_id = sf_get (\<lambda>s. load_chain (wk_storage s) chain_id)"

definition worker_load_active_chain :: "WorkerEnv \<Rightarrow> ChainId \<Rightarrow> ChainState wk" where
  "worker_load_active_chain env chain_id =
     sf_bind (sf_get wk_storage) (\<lambda>storage. lift_chain (load_active_chain (chain_env env storage chain_id) storage))"

definition full_certificate :: "WorkerEnv \<Rightarrow> LiteCertificate \<Rightarrow> Certificate wk" where
  "full_certificate env certificate =
     sf_bind (sf_get (\<lambda>s. we_lru_get env (lv_value_hash (lc_value certificate)) (wk_recent_values s))) (\<lambda>(cache, value).
     sf_then (sf_modify (\<lambda>s. s\<lparr>wk_recent_values := cache\<rparr>))
    (sf_bind (sf_lift (ok_or MissingCertificateValue value)) (\<lambda>value.
     sf_lift (ok_or InvalidLiteCertificate (lite_certificate_with_value certificate value)))))"

definition recent_value :: "WorkerEnv \<Rightarrow> CryptoHash \<Rightarrow> HashedValue option wk" where
  "recent_value env hash =
     sf_bind (sf_get (\<lambda>s. we_lru_get env hash (wk_recent_values s))) (\<lambda>(cache, value).
     sf_then (sf_modify (\<lambda>s. s\<lparr>wk_recent_values := cache\<rparr>)) (sf_return value))"

definition cache_recent_value :: "WorkerEnv \<Rightarrow> HashedValue \<Rightarrow> bool wk" where
  "cache_recent_value env hashed =
     (let hash = hv_hash hashed
      in sf_bind (sf_get wk_recent_values) (\<lambda>recent_values.
           if map_of recent_values hash \<noteq> None then sf_return False
           else sf_then (sf_modify (\<lambda>s. s\<lparr>wk_recent_values := we_lru_push env hash hashed (wk_recent_values s)\<rparr>))
                  (sf_return True)))"

definition cache_validated :: "WorkerEnv \<Rightarrow> HashedValue \<Rightarrow> unit wk" where
  "cache_validated env hashed =
     sf_bind (cache_recent_value env hashed) (\<lambda>cached.
       case (cached, into_confirmed (we_crypto env) hashed) of
         (True, Some confirmed) \<Rightarrow> sf_bind (cache_recent_value env confirmed) (\<lambda>_. sf_return ())
       | _ \<Rightarrow> sf_return ())"

section \<open>Read-only requests\<close>

definition stage_block_execution :: "WorkerEnv \<Rightarrow> Block \<Rightarrow> (ExecutedBlock \<times> ChainInfoResponse) wk" where
  "stage_block_execution env block =
     sf_bind (worker_load_active_chain env (blk_chain_id block)) (\<lambda>chain.
     sf_bind (current_time env) (\<lambda>now.
     sf_bind (storage_chain_env env (blk_chain_id block)) (\<lambda>cenv.
     sf_bind (lift_chain (execute_block cenv block now chain)) (\<lambda>(chain, outcome).
       sf_return (outcome_with outcome block,
         chain_info_response_new (we_sign_info env) (chain_info_from cenv chain) None)))))"

definition worker_query_application :: "WorkerEnv \<Rightarrow> ChainId \<Rightarrow> Query \<Rightarrow> Response wk" where
  "worker_query_application env chain_id query =
     sf_bind (worker_load_active_chain env chain_id) (\<lambda>chain.
     sf_bind (storage_chain_env env chain_id) (\<lambda>cenv.
     sf_bind (lift_chain (chain_query_application cenv query chain)) (\<lambda>(_, response). sf_return response)))"

definition worker_describe_application :: "WorkerEnv \<Rightarrow> ChainId \<Rightarrow> UserApplicationId \<Rightarrow> UserApplicationDescription wk" where
  "worker_describe_application env chain_id app_id =
     sf_bind (worker_load_active_chain env chain_id) (\<lambda>chain. lift_chain (chain_describe_application app_id chain))"

section \<open>Cross-chain requests of a chain\<close>

definition register_delivery_notifier ::
    "ChainId \<Rightarrow> BlockHeight \<Rightarrow> NetworkActions \<Rightarrow> Notifier option \<Rightarrow> WorkerState \<Rightarrow> WorkerState" where
  "register_delivery_notifier chain_id height actions notify self =
     (case notify of
        None \<Rightarrow> self
      | Some notifier \<Rightarrow>
          if list_ex (\<lambda>request. has_messages_lower_or_equal_than request height) (na_cross_chain_requests actions)
          then let notifiers = entry_or [] (wk_delivery_notifiers self) chain_id;
                   notifiers = btree_insert height (btree_get_or [] notifiers height @ [notifier]) notifiers
               in self\<lparr>wk_delivery_notifiers := AList.update chain_id notifiers (wk_delivery_notifiers self)\<rparr>
          else self\<lparr>wk_notified := wk_notified self @ [notifier]\<rparr>)"

text \<open>\<open>multi_get\<close> of a log, without the entries that do not exist.\<close>

definition log_entries :: "'a list \<Rightarrow> nat list \<Rightarrow> 'a list" where
  "log_entries log indices = List.map_filter (slice_get log) indices"

definition create_cross_chain_request ::
    "WorkerEnv \<Rightarrow> Storage \<Rightarrow> CryptoHash list \<Rightarrow> (Medium \<times> BlockHeight list) list \<Rightarrow> ChainId \<Rightarrow> ChainId \<Rightarrow>
     (WorkerError, CrossChainRequest) result" where
  "create_cross_chain_request env storage confirmed_log height_map sender recipient =
     (let heights = sort (remdups (concat (map snd height_map)));
          keys = log_entries confirmed_log (map unat heights)
      in and_then (map_err Worker_ViewError (read_certificates (we_debug_hash env) storage keys)) (\<lambda>certificates.
           Ok (UpdateRecipient height_map sender recipient certificates)))"

definition heights_by_recipient ::
    "(Target \<times> OutboxState) list \<Rightarrow> (ChainId, (Medium, BlockHeight list) BTreeMap) BTreeMap" where
  "heights_by_recipient outboxes =
     fold (\<lambda>(target, outbox) heights_by_recipient.
         btree_insert (tg_recipient target)
           (btree_insert (tg_medium target) (ob_queue outbox)
              (btree_get_or [] heights_by_recipient (tg_recipient target))) heights_by_recipient)
       outboxes []"

definition create_network_actions ::
    "WorkerEnv \<Rightarrow> Storage \<Rightarrow> ChainId \<Rightarrow> ChainState \<Rightarrow> (WorkerError, NetworkActions) result" where
  "create_network_actions env storage chain_id chain =
     try_fold (\<lambda>actions (recipient, height_map).
         and_then (create_cross_chain_request env storage (cs_confirmed_log chain) height_map chain_id recipient)
           (\<lambda>request. Ok (actions\<lparr>na_cross_chain_requests := na_cross_chain_requests actions @ [request]\<rparr>)))
       actions_default (heights_by_recipient (cs_outboxes chain))"

definition network_actions :: "WorkerEnv \<Rightarrow> ChainId \<Rightarrow> ChainState \<Rightarrow> NetworkActions wk" where
  "network_actions env chain_id chain =
     sf_bind (sf_get wk_storage) (\<lambda>storage. sf_lift (create_network_actions env storage chain_id chain))"

definition chain_response :: "WorkerEnv \<Rightarrow> ChainId \<Rightarrow> ChainState \<Rightarrow> ChainInfoResponse wk" where
  "chain_response env chain_id chain =
     sf_bind (storage_chain_env env chain_id) (\<lambda>cenv.
     sf_get (\<lambda>s. chain_info_response_new (we_sign_info env) (chain_info_from cenv chain) (wk_key_pair s)))"

section \<open>Certificates\<close>

definition check_no_missing_bytecode :: "WorkerEnv \<Rightarrow> Block \<Rightarrow> HashedValue list \<Rightarrow> unit wk" where
  "check_no_missing_bytecode env block blobs =
     (let required_locations = map fst (block_bytecode_locations block)
      in sf_bind (sf_lift (try_fold (\<lambda>required_hashes blob.
             ensure (hv_hash blob \<in> set required_hashes) (UnneededValue (hv_hash blob))
               (Ok (removeAll (hv_hash blob) required_hashes)))
           (map bl_certificate_hash required_locations) blobs)) (\<lambda>_.
         sf_bind (sf_get id) (\<lambda>s.
           let candidates = filter (\<lambda>location.
                 map_of (wk_recent_values s) (bl_certificate_hash location) = None
                 \<and> bl_certificate_hash location \<notin> set (map hv_hash blobs)) required_locations
           in sf_bind (sf_lift (try_fold (\<lambda>locations location.
                 case read_value (we_debug_hash env) (wk_storage s) (bl_certificate_hash location) of
                   Ok _ \<Rightarrow> Ok locations
                 | Err (NotFound _) \<Rightarrow> Ok (locations @ [location])
                 | Err error \<Rightarrow> Err (Worker_ViewError error)
                 | Panic \<Rightarrow> Panic) [] candidates)) (\<lambda>locations.
              if locations = [] then sf_return ()
              else sf_lift (Err (ApplicationBytecodesNotFound locations))))))"

definition save :: "ChainId \<Rightarrow> ChainState \<Rightarrow> unit wk" where
  "save chain_id chain = update_storage (save_chain chain_id chain)"

text \<open>The checks of a certificate against the committee in charge of the chain.\<close>

definition check_committee :: "WorkerEnv \<Rightarrow> ChainState \<Rightarrow> ChainId \<Rightarrow> Epoch \<Rightarrow> Certificate \<Rightarrow> unit wk" where
  "check_committee env chain chain_id epoch certificate =
     sf_bind (sf_lift (expect (current_committee (es_system (cs_execution_state chain))))) (\<lambda>(current_epoch, committee).
     sf_ensure (epoch = current_epoch) (Worker_InvalidEpoch chain_id epoch)
    (sf_bind (lift_chain (certificate_check (we_crypto env) certificate committee)) (\<lambda>_. sf_return ())))"

text \<open>The block is executed, compared with the certificate, and the tip moves to it.\<close>

definition commit_block :: "ChainEnv \<Rightarrow> ExecutedBlock \<Rightarrow> CryptoHash \<Rightarrow> Timestamp \<Rightarrow> ChainState \<Rightarrow> (WorkerError, ChainState) result" where
  "commit_block cenv executed_block hash now chain =
     and_then (map_err Worker_ChainError (execute_block cenv (eb_block executed_block) now chain)) (\<lambda>(chain, verified_outcome).
     ensure (eb_messages executed_block = beo_messages verified_outcome) IncorrectMessages
    (ensure (eb_message_counts executed_block = beo_message_counts verified_outcome) IncorrectMessageCounts
    (ensure (eb_state_hash executed_block = beo_state_hash verified_outcome) IncorrectStateHash
    (and_then (map_err Worker_ArithmeticError (try_add_one (tip_next_block_height (cs_tip_state chain)))) (\<lambda>next_block_height.
       Ok (chain\<lparr>cs_tip_state := \<lparr>tip_block_hash = Some hash, tip_next_block_height = next_block_height\<rparr>,
                cs_confirmed_log := cs_confirmed_log chain @ [hash]\<rparr>))))))"

definition process_confirmed_block ::
    "WorkerEnv \<Rightarrow> Certificate \<Rightarrow> HashedValue list \<Rightarrow> Notifier option \<Rightarrow> (ChainInfoResponse \<times> NetworkActions) wk" where
  "process_confirmed_block env certificate blobs notify =
     (case hv_value (ct_value certificate) of
        ConfirmedBlock executed_block \<Rightarrow>
          (let block = eb_block executed_block;
               chain_id = blk_chain_id block;
               hash = hv_hash (ct_value certificate)
           in sf_bind (worker_load_active_chain env chain_id) (\<lambda>chain.
              let tip = cs_tip_state chain
              in if tip_next_block_height tip < blk_height block
                 then sf_lift (Err (Worker_MissingEarlierBlocks (tip_next_block_height tip)))
                 else if tip_next_block_height tip > blk_height block
                 then sf_bind (chain_response env chain_id chain) (\<lambda>info.
                   sf_bind (network_actions env chain_id chain) (\<lambda>actions.
                   sf_then (sf_modify (register_delivery_notifier chain_id (blk_height block) actions notify))
                     (sf_return (info, actions))))
                 else sf_then (check_committee env chain chain_id (blk_epoch block) certificate)
                  (sf_ensure (tip_block_hash tip = blk_previous_block_hash block) InvalidBlockChaining
                  (sf_then (check_no_missing_bytecode env block blobs)
                  (sf_then (sf_fold (\<lambda>_ blob. sf_bind (cache_recent_value env blob) (\<lambda>_. sf_return ())) () blobs)
                  (sf_then (update_storage (write_certificate certificate \<circ> write_values blobs))
                  (sf_bind (storage_chain_env env chain_id) (\<lambda>cenv.
                   sf_bind (lift_chain (remove_events_from_inboxes cenv block chain)) (\<lambda>chain.
                   sf_bind (current_time env) (\<lambda>now.
                   sf_bind (sf_lift (commit_block cenv executed_block hash now chain)) (\<lambda>chain.
                   sf_bind (chain_response env chain_id chain) (\<lambda>info.
                   sf_bind (network_actions env chain_id chain) (\<lambda>actions.
                   let actions = actions\<lparr>na_notifications := na_notifications actions @
                         [\<lparr>nt_chain_id = chain_id, nt_reason = NewBlock (blk_height block) hash\<rparr>]\<rparr>
                   in sf_then (save chain_id chain)
                     (sf_then (sf_modify (register_delivery_notifier chain_id (blk_height block) actions notify))
                     (sf_bind (cache_recent_value env (ct_value certificate)) (\<lambda>_.
                      sf_return (info, actions)))))))))))))))))
      | _ \<Rightarrow> sf_lift Panic)"

definition process_validated_block ::
    "WorkerEnv \<Rightarrow> Certificate \<Rightarrow> (ChainInfoResponse \<times> NetworkActions \<times> bool) wk" where
  "process_validated_block env certificate =
     (case hv_value (ct_value certificate) of
        ValidatedBlock executed_block \<Rightarrow>
          (let block = eb_block executed_block;
               chain_id = blk_chain_id block
           in sf_bind (worker_load_active_chain env chain_id) (\<lambda>chain.
              sf_then (check_committee env chain chain_id (blk_epoch block) certificate)
             (sf_bind (lift_chain (already_validated_block (cs_tip_state chain) (blk_height block))) (\<lambda>already.
              sf_bind (if already then sf_return True
                  else sf_bind (lift_chain (manager_check_validated_block (cs_manager chain) certificate)) (\<lambda>outcome.
                    sf_return (outcome = Skip))) (\<lambda>skip.
              if skip
              then sf_bind (chain_response env chain_id chain) (\<lambda>info. sf_return (info, actions_default, True))
              else sf_then (cache_validated env (ct_value certificate))
                (let current_round = manager_current_round (cs_manager chain)
                 in sf_bind (current_time env) (\<lambda>now.
                    sf_bind (sf_get wk_key_pair) (\<lambda>key_pair.
                    sf_bind (lift_chain (manager_create_final_vote (we_crypto env) (cs_manager chain) certificate key_pair now)) (\<lambda>manager.
                    let chain = chain\<lparr>cs_manager := manager\<rparr>;
                        round = manager_current_round manager;
                        actions = (if round > current_round
                          then actions_default\<lparr>na_notifications :=
                            [\<lparr>nt_chain_id = chain_id, nt_reason = NewRound (blk_height block) round\<rparr>]\<rparr>
                          else actions_default)
                    in sf_bind (chain_response env chain_id chain) (\<lambda>info.
                       sf_then (save chain_id chain)
                      (sf_then (cache_validated env (ct_value certificate))
                       (sf_return (info, actions, False)))))))))))))
      | _ \<Rightarrow> sf_lift Panic)"

definition process_leader_timeout :: "WorkerEnv \<Rightarrow> Certificate \<Rightarrow> (ChainInfoResponse \<times> NetworkActions) wk" where
  "process_leader_timeout env certificate =
     (case hv_value (ct_value certificate) of
        LeaderTimeout chain_id height epoch \<Rightarrow>
          sf_bind (worker_load_active_chain env chain_id) (\<lambda>chain.
          sf_then (check_committee env chain chain_id epoch certificate)
         (sf_bind (lift_chain (already_validated_block (cs_tip_state chain) height)) (\<lambda>already.
          if already
          then sf_bind (chain_response env chain_id chain) (\<lambda>info. sf_return (info, actions_default))
          else let current_round = manager_current_round (cs_manager chain)
               in sf_bind (current_time env) (\<lambda>now.
                  sf_bind (lift_chain (manager_handle_timeout_certificate (cs_manager chain) certificate now)) (\<lambda>manager.
                  let chain = chain\<lparr>cs_manager := manager\<rparr>;
                      round = manager_current_round manager;
                      actions = (if round > current_round
                        then actions_default\<lparr>na_notifications :=
                          [\<lparr>nt_chain_id = chain_id, nt_reason = NewRound height round\<rparr>]\<rparr>
                        else actions_default)
                  in sf_bind (chain_response env chain_id chain) (\<lambda>info.
                     sf_then (save chain_id chain) (sf_return (info, actions))))))))
      | _ \<Rightarrow> sf_lift Panic)"

section \<open>Messages from other chains\<close>

record CrossChainUpdateHelper =
  uh_allow_messages_from_deprecated_epochs :: bool
  uh_current_epoch :: "Epoch option"
  uh_committees :: Committees

text \<open>The state of the loop of \<open>select_certificates\<close>; \<open>None\<close> is the least option.\<close>

record Selection =
  sel_latest_height :: "BlockHeight option"
  sel_skipped_len :: nat
  sel_trusted_len :: nat

definition is_trusted :: "CrossChainUpdateHelper \<Rightarrow> BlockHeight option \<Rightarrow> CertificateValue \<Rightarrow> bool" where
  "is_trusted self last_anticipated cvalue \<longleftrightarrow>
     uh_allow_messages_from_deprecated_epochs self
     \<or> (case last_anticipated of Some height \<Rightarrow> value_height cvalue \<le> height | None \<Rightarrow> False)
     \<or> (case uh_current_epoch self of Some epoch \<Rightarrow> value_epoch cvalue \<ge> epoch | None \<Rightarrow> True)
     \<or> map_of (uh_committees self) (value_epoch cvalue) \<noteq> None"

definition select_step ::
    "CrossChainUpdateHelper \<Rightarrow> Origin \<Rightarrow> BlockHeight \<Rightarrow> BlockHeight option \<Rightarrow> Selection \<Rightarrow> nat \<times> Certificate \<Rightarrow>
     (WorkerError, Selection) result" where
  "select_step self origin next_height_to_receive last_anticipated selection = (\<lambda>(i, certificate).
     let cvalue = hv_value (ct_value certificate)
     in ensure (is_confirmed cvalue) InvalidCrossChainRequest
       (ensure (or_sender origin = value_chain_id cvalue) InvalidCrossChainRequest
       (ensure (case sel_latest_height selection of None \<Rightarrow> True | Some latest \<Rightarrow> latest < value_height cvalue)
          InvalidCrossChainRequest
       (Ok \<lparr>sel_latest_height = Some (value_height cvalue),
            sel_skipped_len = (if value_height cvalue < next_height_to_receive then i + 1 else sel_skipped_len selection),
            sel_trusted_len = (if is_trusted self last_anticipated cvalue then i + 1
                               else sel_trusted_len selection)\<rparr>))))"

definition select_certificates ::
    "CrossChainUpdateHelper \<Rightarrow> Origin \<Rightarrow> BlockHeight \<Rightarrow> BlockHeight option \<Rightarrow> Certificate list \<Rightarrow>
     (WorkerError, Certificate list) result" where
  "select_certificates self origin next_height_to_receive last_anticipated certificates =
     map_ok (\<lambda>selection.
         if sel_skipped_len selection < sel_trusted_len selection
         then drop (sel_skipped_len selection) (take (sel_trusted_len selection) certificates)
         else [])
       (try_fold (select_step self origin next_height_to_receive last_anticipated)
          \<lparr>sel_latest_height = None, sel_skipped_len = 0, sel_trusted_len = 0\<rparr> (enumerate 0 certificates))"

definition receive_certificate ::
    "WorkerEnv \<Rightarrow> ChainId \<Rightarrow> Origin \<Rightarrow> ChainState \<Rightarrow> Certificate \<Rightarrow> ChainState wk" where
  "receive_certificate env recipient origin chain certificate =
     (case hv_value (ct_value certificate) of
        ConfirmedBlock executed_block \<Rightarrow>
          (let block = eb_block executed_block
           in sf_bind (current_time env) (\<lambda>now.
              sf_bind (storage_chain_env env recipient) (\<lambda>cenv.
              lift_chain (receive_block cenv origin (blk_height block) (blk_timestamp block) (eb_messages executed_block)
                (hv_hash (ct_value certificate)) now chain))))
      | _ \<Rightarrow> sf_return chain)"

definition process_cross_chain_update ::
    "WorkerEnv \<Rightarrow> Origin \<Rightarrow> ChainId \<Rightarrow> Certificate list \<Rightarrow> BlockHeight option wk" where
  "process_cross_chain_update env origin recipient certificates =
     sf_bind (worker_load_chain recipient) (\<lambda>chain.
     sf_bind (lift_chain (next_block_height_to_receive origin chain)) (\<lambda>(chain, next_height_to_receive).
     sf_bind (sf_get id) (\<lambda>s.
     let (chain, last_anticipated) = last_anticipated_block_height origin chain;
         system = es_system (cs_execution_state chain);
         helper = \<lparr>uh_allow_messages_from_deprecated_epochs = wk_allow_messages_from_deprecated_epochs s,
           uh_current_epoch = ss_epoch system, uh_committees = ss_committees system\<rparr>
     in sf_bind (sf_lift (select_certificates helper origin next_height_to_receive last_anticipated certificates)) (\<lambda>certificates.
        if certificates = [] then sf_return None
        else let last_updated_height = value_height (hv_value (ct_value (last certificates)))
             in sf_then (update_storage (write_certificates certificates))
               (sf_bind (sf_fold (receive_certificate env recipient origin) chain certificates) (\<lambda>chain.
                if \<not> wk_allow_inactive_chains s \<and> \<not> chain_is_active chain then sf_return None
                else sf_then (save recipient chain) (sf_return (Some last_updated_height))))))))"

definition heights_contain :: "BlockHeight list \<Rightarrow> Certificate \<Rightarrow> bool" where
  "heights_contain heights cert =
     (case binary_search_by (\<lambda>h. compare_keys h (value_height (hv_value (ct_value cert)))) heights of
        Found _ \<Rightarrow> True | Missing _ \<Rightarrow> False)"

fun take_notifiers :: "BlockHeight \<Rightarrow> (BlockHeight, Notifier list) BTreeMap \<Rightarrow> (BlockHeight, Notifier list) BTreeMap \<times> Notifier list" where
  "take_notifiers height [] = ([], [])"
| "take_notifiers height ((key, notifiers) # entries) =
     (if key > height then ((key, notifiers) # entries, [])
      else let (rest, taken) = take_notifiers height entries in (rest, notifiers @ taken))"

definition notify_deliveries :: "ChainId \<Rightarrow> BlockHeight \<Rightarrow> WorkerState \<Rightarrow> WorkerState" where
  "notify_deliveries sender height self =
     (case map_of (wk_delivery_notifiers self) sender of
        None \<Rightarrow> self
      | Some notifiers \<Rightarrow>
          let (rest, taken) = take_notifiers height notifiers
          in self\<lparr>wk_notified := wk_notified self @ taken,
                  wk_delivery_notifiers := (if rest = [] then AList.delete sender (wk_delivery_notifiers self)
                                            else AList.update sender rest (wk_delivery_notifiers self))\<rparr>)"

definition update_from_medium ::
    "WorkerEnv \<Rightarrow> ChainId \<Rightarrow> ChainId \<Rightarrow> Certificate list \<Rightarrow> (Origin \<times> BlockHeight) list \<Rightarrow> Medium \<times> BlockHeight list \<Rightarrow>
     (Origin \<times> BlockHeight) list wk" where
  "update_from_medium env sender recipient certificates height_by_origin = (\<lambda>(medium, heights).
     let origin = Origin sender medium
     in sf_bind (process_cross_chain_update env origin recipient (filter (heights_contain heights) certificates)) (\<lambda>height.
          sf_return (case height of Some height \<Rightarrow> height_by_origin @ [(origin, height)] | None \<Rightarrow> height_by_origin)))"

definition confirm_medium ::
    "ChainId \<Rightarrow> ChainId \<Rightarrow> ChainState \<times> bool \<Rightarrow> Medium \<times> BlockHeight \<Rightarrow> (ChainState \<times> bool) wk" where
  "confirm_medium sender recipient = (\<lambda>(chain, chain_state_changed) (medium, height).
     sf_bind (lift_chain (mark_messages_as_received (Target recipient medium) height chain)) (\<lambda>(chain, changed).
       if \<not> changed then sf_return (chain, chain_state_changed)
       else sf_then (if all_messages_delivered_up_to height chain then sf_modify (notify_deliveries sender height)
                     else sf_return ())
              (sf_return (chain, True))))"

definition handle_cross_chain_request :: "WorkerEnv \<Rightarrow> CrossChainRequest \<Rightarrow> NetworkActions wk" where
  "handle_cross_chain_request env request =
     (case request of
        UpdateRecipient height_map sender recipient certificates \<Rightarrow>
          sf_bind (sf_fold (update_from_medium env sender recipient certificates) [] height_map) (\<lambda>height_by_origin.
            if height_by_origin = [] then sf_return actions_default
            else sf_return
              \<lparr>na_cross_chain_requests =
                 [ConfirmUpdatedRecipient sender recipient (map (\<lambda>(origin, height). (or_medium origin, height)) height_by_origin)],
               na_notifications = map (\<lambda>(origin, height).
                 \<lparr>nt_chain_id = recipient, nt_reason = NewIncomingMessage origin height\<rparr>) height_by_origin\<rparr>)
      | ConfirmUpdatedRecipient sender recipient latest_heights \<Rightarrow>
          sf_bind (worker_load_chain sender) (\<lambda>chain.
          sf_bind (sf_fold (confirm_medium sender recipient) (chain, False) latest_heights) (\<lambda>(chain, chain_state_changed).
          sf_then (if chain_state_changed then save sender chain else sf_return ())
            (sf_return actions_default))))"

section \<open>The interface of validators\<close>

text \<open>
  The block is executed on a copy that \<open>rollback\<close> then drops: the chain that is saved is the
  loaded one with the new vote.
\<close>

definition handle_block_proposal :: "WorkerEnv \<Rightarrow> BlockProposal \<Rightarrow> (ChainInfoResponse \<times> NetworkActions) wk" where
  "handle_block_proposal env proposal =
     (let block = bar_block (bp_content proposal);
          chain_id = blk_chain_id block
      in sf_bind (worker_load_active_chain env chain_id) (\<lambda>chain.
         sf_bind (sf_lift (expect (current_committee (es_system (cs_execution_state chain))))) (\<lambda>(epoch, committee).
         sf_ensure (blk_epoch block = epoch) (Worker_InvalidEpoch chain_id epoch)
        (sf_bind (case bp_validated proposal of
             Some validated \<Rightarrow>
               sf_bind (lift_chain (certificate_check (we_crypto env) validated committee)) (\<lambda>_. sf_return ())
           | None \<Rightarrow> sf_return ()) (\<lambda>_.
         sf_bind (storage_chain_env env chain_id) (\<lambda>cenv.
         sf_bind (sf_lift (ok_or Worker_InvalidOwner
             (manager_verify_owner (ce_sampler cenv) (cs_manager chain) proposal))) (\<lambda>public_key.
         sf_bind (sf_lift (map_err Worker_CryptoError
             (cr_check_block (we_crypto env) (bp_signature proposal) (bp_content proposal) public_key))) (\<lambda>_.
         sf_bind (case blk_authenticated_signer block of
             Some signer \<Rightarrow> sf_ensure (signer = bp_owner proposal) (Worker_InvalidSigner signer) (sf_return ())
           | None \<Rightarrow> sf_return ()) (\<lambda>_.
         sf_bind (lift_chain (verify_block_chaining (cs_tip_state chain) block)) (\<lambda>_.
         sf_bind (lift_chain (manager_check_proposed_block (cs_manager chain) proposal)) (\<lambda>outcome.
         if outcome = Skip
         then sf_bind (chain_response env chain_id chain) (\<lambda>info. sf_return (info, actions_default))
         else sf_bind (lift_chain (remove_events_from_inboxes cenv block chain)) (\<lambda>staged.
              sf_then (check_no_missing_bytecode env block (bp_blobs proposal))
             (sf_then (update_storage (write_values (bp_blobs proposal)))
             (sf_bind (current_time env) (\<lambda>now.
              sf_bind (sf_get wk_grace_period_micros) (\<lambda>grace_period_micros.
              sf_ensure (saturating_diff_micros (blk_timestamp block) now \<le> grace_period_micros) InvalidTimestamp
             (sf_bind (current_time env) (\<lambda>now.
              sf_bind (storage_chain_env env chain_id) (\<lambda>cenv.
              sf_bind (lift_chain (execute_block cenv block now staged)) (\<lambda>(staged, outcome).
              sf_bind (lift_chain (validate_incoming_messages cenv staged)) (\<lambda>_.
              sf_bind (sf_get wk_key_pair) (\<lambda>key_pair.
              sf_bind (lift_chain (manager_create_vote (we_crypto env) (cs_manager chain) proposal outcome key_pair now)) (\<lambda>manager.
              let chain = chain\<lparr>cs_manager := manager\<rparr>
              in sf_bind (case manager_pending manager of
                     Some vote \<Rightarrow> sf_bind (cache_recent_value env (vote_value vote)) (\<lambda>_. sf_return ())
                   | None \<Rightarrow> sf_return ()) (\<lambda>_.
                 sf_bind (chain_response env chain_id chain) (\<lambda>info.
                 sf_then (save chain_id chain)
                (sf_bind (network_actions env chain_id chain) (\<lambda>actions.
                 sf_return (info, actions))))))))))))))))))))))))))))"

definition handle_certificate ::
    "WorkerEnv \<Rightarrow> Certificate \<Rightarrow> HashedValue list \<Rightarrow> Notifier option \<Rightarrow> (ChainInfoResponse \<times> NetworkActions) wk" where
  "handle_certificate env certificate blobs notify =
     sf_ensure (is_confirmed (hv_value (ct_value certificate)) \<or> blobs = []) (UnneededValue (hv_hash (hd blobs)))
      (case hv_value (ct_value certificate) of
         ValidatedBlock _ \<Rightarrow>
           sf_bind (process_validated_block env certificate) (\<lambda>(info, actions, _). sf_return (info, actions))
       | ConfirmedBlock _ \<Rightarrow> process_confirmed_block env certificate blobs notify
       | LeaderTimeout _ _ _ \<Rightarrow> process_leader_timeout env certificate)"

definition handle_lite_certificate ::
    "WorkerEnv \<Rightarrow> LiteCertificate \<Rightarrow> Notifier option \<Rightarrow> (ChainInfoResponse \<times> NetworkActions) wk" where
  "handle_lite_certificate env certificate notify =
     sf_bind (full_certificate env certificate) (\<lambda>full_cert. handle_certificate env full_cert [] notify)"

text \<open>\<open>LogView::read\<close> on a range of indices.\<close>

definition log_read :: "'a list \<Rightarrow> nat \<Rightarrow> nat \<Rightarrow> 'a list" where
  "log_read log start stop =
     (let stop = min stop (length log) in if start \<ge> stop then [] else take (stop - start) (drop start log))"

definition vote_on_timeout :: "WorkerEnv \<Rightarrow> ChainInfoQuery \<Rightarrow> ChainState \<Rightarrow> ChainState wk" where
  "vote_on_timeout env query chain =
     (case (ciq_request_leader_timeout query, ss_epoch (es_system (cs_execution_state chain))) of
        (True, Some epoch) \<Rightarrow>
          sf_bind (sf_get wk_key_pair) (\<lambda>key_pair.
          sf_bind (current_time env) (\<lambda>now.
            let (manager, voted) = manager_vote_leader_timeout (we_crypto env) (cs_manager chain) (ciq_chain_id query)
                  (tip_next_block_height (cs_tip_state chain)) epoch key_pair now;
                chain = chain\<lparr>cs_manager := manager\<rparr>
            in sf_then (if voted then save (ciq_chain_id query) chain else sf_return ()) (sf_return chain)))
      | _ \<Rightarrow> sf_return chain)"

definition pending_messages :: "ChainEnv \<Rightarrow> ChainState \<Rightarrow> IncomingMessage list" where
  "pending_messages cenv chain =
     concat (map (\<lambda>(origin, inbox).
         map (\<lambda>event. \<lparr>im_origin = origin, im_event = event\<rparr>) (ib_added_events inbox))
       (map_view_index_values (ce_origin_key cenv) (cs_inboxes chain)))"

definition sent_certificates ::
    "WorkerEnv \<Rightarrow> Storage \<Rightarrow> ChainState \<Rightarrow> BlockHeightRange \<Rightarrow> (WorkerError, Certificate list) result" where
  "sent_certificates env storage chain height_range =
     (let start = unat (bhr_start height_range);
          log = cs_confirmed_log chain
      in and_then (case bhr_limit height_range of
             None \<Rightarrow> Ok (length log)
           | Some limit \<Rightarrow> map_ok (\<lambda>stop. min stop (length log))
               (ok_or (Worker_ArithmeticError Overflow) (usize_checked_add start (unat limit)))) (\<lambda>stop.
         map_err Worker_ViewError (read_certificates (we_debug_hash env) storage (log_read log start stop))))"

definition handle_chain_info_query :: "WorkerEnv \<Rightarrow> ChainInfoQuery \<Rightarrow> (ChainInfoResponse \<times> NetworkActions) wk" where
  "handle_chain_info_query env query =
     sf_bind (worker_load_chain (ciq_chain_id query)) (\<lambda>chain.
     sf_bind (vote_on_timeout env query chain) (\<lambda>chain.
     sf_bind (storage_chain_env env (ciq_chain_id query)) (\<lambda>cenv.
     let system = es_system (cs_execution_state chain);
         found = tip_next_block_height (cs_tip_state chain);
         info = chain_info_from cenv chain;
         info = (if ciq_request_committees query then info\<lparr>ci_requested_committees := Some (ss_committees system)\<rparr> else info)
     in sf_then (case ciq_test_next_block_height query of
            Some expected \<Rightarrow> sf_ensure (found = expected) (Worker_UnexpectedBlockHeight expected found) (sf_return ())
          | None \<Rightarrow> sf_return ())
       (let info = (if ciq_request_pending_messages query
              then info\<lparr>ci_requested_pending_messages := pending_messages cenv chain\<rparr> else info)
        in sf_bind (sf_get wk_storage) (\<lambda>storage.
           sf_bind (case ciq_request_sent_certificates_in_range query of
               None \<Rightarrow> sf_return info
             | Some height_range \<Rightarrow> sf_bind (sf_lift (sent_certificates env storage chain height_range)) (\<lambda>certs.
                 sf_return (info\<lparr>ci_requested_sent_certificates := certs\<rparr>))) (\<lambda>info.
           let info = (case ciq_request_received_log_excluding_first_nth query of
                 None \<Rightarrow> info
               | Some start \<Rightarrow> info\<lparr>ci_requested_received_log :=
                   log_read (cs_received_log chain) (unat start) (length (cs_received_log chain))\<rparr>)
           in sf_bind (case ciq_request_blob query of
                 None \<Rightarrow> sf_return info
               | Some hash \<Rightarrow> sf_bind (lift_view (read_value (we_debug_hash env) storage hash)) (\<lambda>blob.
                   sf_return (info\<lparr>ci_requested_blob := Some blob\<rparr>))) (\<lambda>info.
              let info = (if ciq_request_manager_values query
                    then info\<lparr>ci_manager := manager_info_add_values (ci_manager info) (cs_manager chain)\<rparr> else info)
              in sf_bind (sf_get wk_key_pair) (\<lambda>key_pair.
                 sf_bind (network_actions env (ciq_chain_id query) chain) (\<lambda>actions.
                 sf_return (chain_info_response_new (we_sign_info env) info key_pair, actions))))))))))"

end
