(* ===== verification/Selection.thy ===== *)
theory Selection
  imports Worker
begin

text \<open>
  Which certificates of a cross-chain update are received: \<open>select_certificates\<close> against a
  reference definition.
\<close>

definition cert_height :: "Certificate \<Rightarrow> BlockHeight" where
  "cert_height c = value_height (hv_value (ct_value c))"

definition update_wf :: "Origin \<Rightarrow> Certificate list \<Rightarrow> bool" where
  "update_wf origin certificates \<longleftrightarrow>
     (\<forall>c \<in> set certificates. is_confirmed (hv_value (ct_value c)) \<and> value_chain_id (hv_value (ct_value c)) = or_sender origin) \<and>
     sorted_wrt (<) (map cert_height certificates)"

text \<open>The certificates up to the last trusted one, and of these the new ones.\<close>

definition up_to_last :: "('a \<Rightarrow> bool) \<Rightarrow> 'a list \<Rightarrow> 'a list" where
  "up_to_last P xs = rev (dropWhile (Not \<circ> P) (rev xs))"

definition selected ::
    "CrossChainUpdateHelper \<Rightarrow> BlockHeight \<Rightarrow> BlockHeight option \<Rightarrow> Certificate list \<Rightarrow> Certificate list" where
  "selected helper next_height last_anticipated certificates =
     filter (\<lambda>c. next_height \<le> cert_height c)
       (up_to_last (\<lambda>c. is_trusted helper last_anticipated (hv_value (ct_value c))) certificates)"

lemma up_to_last_snoc: "up_to_last P (xs @ [x]) = (if P x then xs @ [x] else up_to_last P xs)"
  by (simp add: up_to_last_def)

lemma up_to_last_take: "up_to_last P xs = take (length (up_to_last P xs)) xs"
proof (induction xs rule: rev_induct)
  case (snoc x xs)
  have "length (up_to_last P xs) \<le> length xs"
    using length_dropWhile_le [of "Not \<circ> P" "rev xs"] by (simp add: up_to_last_def)
  with snoc show ?case by (simp add: up_to_last_snoc)
qed (simp add: up_to_last_def)

lemma in_up_to_last: "x \<in> set (up_to_last P xs) \<Longrightarrow> x \<in> set xs"
  by (metis up_to_last_take in_set_takeD)

lemma update_wf_snoc:
  "update_wf origin (xs @ [x]) \<longleftrightarrow> update_wf origin xs \<and> is_confirmed (hv_value (ct_value x)) \<and>
     value_chain_id (hv_value (ct_value x)) = or_sender origin \<and> (xs \<noteq> [] \<longrightarrow> cert_height (last xs) < cert_height x)"
proof -
  have "(\<forall>y \<in> set xs. cert_height y < cert_height x) \<longleftrightarrow> (xs \<noteq> [] \<longrightarrow> cert_height (last xs) < cert_height x)"
    if "sorted_wrt (<) (map cert_height xs)"
  proof (cases xs rule: rev_cases)
    case (snoc ys y)
    with that show ?thesis by (force simp: sorted_wrt_append intro: less_trans)
  qed simp
  then show ?thesis by (auto simp: update_wf_def sorted_wrt_append)
qed

definition selection_of ::
    "CrossChainUpdateHelper \<Rightarrow> BlockHeight \<Rightarrow> BlockHeight option \<Rightarrow> Certificate list \<Rightarrow> Selection" where
  "selection_of helper next_height last_anticipated certificates =
     \<lparr>sel_latest_height = (if certificates = [] then None else Some (cert_height (last certificates))),
      sel_skipped_len = length (takeWhile (\<lambda>c. cert_height c < next_height) certificates),
      sel_trusted_len = length (up_to_last (\<lambda>c. is_trusted helper last_anticipated (hv_value (ct_value c))) certificates)\<rparr>"

lemma length_takeWhile_all: "\<forall>x \<in> set xs. P x \<Longrightarrow> length (takeWhile P xs) = length xs"
  by (induction xs) auto

lemma takeWhile_below_snoc:
  assumes "update_wf origin (xs @ [x])"
  shows "length (takeWhile (\<lambda>c. cert_height c < h) (xs @ [x])) =
     (if cert_height x < h then length xs + 1 else length (takeWhile (\<lambda>c. cert_height c < h) xs))"
proof (cases "cert_height x < h")
  case True
  have "cert_height y < cert_height x" if "y \<in> set xs" for y
    using assms that by (simp add: update_wf_def sorted_wrt_append)
  with True have "cert_height y < h" if "y \<in> set xs" for y using that by (meson less_trans)
  with True show ?thesis by (simp add: takeWhile_append)
next
  case False
  then show ?thesis
    by (cases "\<forall>c \<in> set xs. cert_height c < h") (auto simp: takeWhile_append length_takeWhile_all)
qed

lemma select_loop:
  "try_fold (select_step helper origin next_height last_anticipated)
     \<lparr>sel_latest_height = None, sel_skipped_len = 0, sel_trusted_len = 0\<rparr> (enumerate 0 certificates) =
   (if update_wf origin certificates then Ok (selection_of helper next_height last_anticipated certificates)
    else Err InvalidCrossChainRequest)"
proof (induction certificates rule: rev_induct)
  case Nil
  show ?case by (simp add: update_wf_def selection_of_def up_to_last_def)
next
  case (snoc x xs)
  let ?sel = "selection_of helper next_height last_anticipated xs"
  have step: "select_step helper origin next_height last_anticipated ?sel (length xs, x) =
     (if update_wf origin (xs @ [x]) then Ok (selection_of helper next_height last_anticipated (xs @ [x]))
      else Err InvalidCrossChainRequest)" if "update_wf origin xs"
  proof (cases "update_wf origin (xs @ [x])")
    case True
    then show ?thesis
      using takeWhile_below_snoc [OF True, of next_height]
      by (auto simp: select_step_def selection_of_def update_wf_snoc up_to_last_snoc cert_height_def Let_def)
  next
    case False
    with that show ?thesis
      by (auto simp: select_step_def selection_of_def update_wf_snoc cert_height_def Let_def ensure_def)
  qed
  show ?case
  proof (cases "update_wf origin xs")
    case True
    with snoc step show ?thesis by (simp add: enumerate_append_eq try_fold_append del: and_then_Ok_iff)
  next
    case False
    with snoc show ?thesis by (simp add: enumerate_append_eq try_fold_append update_wf_snoc)
  qed
qed


text \<open>On a well-formed update the skipped certificates are a prefix of the trusted ones, or cover them.\<close>

lemma filter_above:
  assumes "update_wf origin xs"
  shows "filter (\<lambda>c. h \<le> cert_height c) (take n xs) = drop (length (takeWhile (\<lambda>c. cert_height c < h) xs)) (take n xs)"
  using assms
proof (induction xs arbitrary: n)
  case (Cons x xs)
  have wf: "update_wf origin xs" and above: "\<And>y. y \<in> set xs \<Longrightarrow> cert_height x < cert_height y"
    using Cons.prems by (auto simp: update_wf_def)
  show ?case
  proof (cases "n = 0 \<or> cert_height x < h")
    case True
    with Cons.IH [OF wf, of "n - 1"] show ?thesis by (cases n) auto
  next
    case False
    have "filter (\<lambda>c. h \<le> cert_height c) (take m xs) = take m xs" for m
      using False above by (fastforce simp: filter_id_conv dest: in_set_takeD)
    with False show ?thesis by (cases n) auto
  qed
qed simp

text \<open>
  \<open>select_certificates\<close> rejects an update unless its certificates confirm blocks of the
  sender at increasing heights. Otherwise it returns, of the certificates up to the last
  trusted one, those that were not received before.
\<close>

lemma select_certificates_eq:
  "select_certificates helper origin next_height last_anticipated certificates =
     (if update_wf origin certificates then Ok (selected helper next_height last_anticipated certificates)
      else Err InvalidCrossChainRequest)"
proof -
  let ?T = "up_to_last (\<lambda>c. is_trusted helper last_anticipated (hv_value (ct_value c))) certificates"
  let ?k = "length (takeWhile (\<lambda>c. cert_height c < next_height) certificates)"
  have "selected helper next_height last_anticipated certificates = drop ?k ?T" if "update_wf origin certificates"
    unfolding selected_def using filter_above [OF that, of next_height "length ?T"] up_to_last_take [of _ certificates]
    by metis
  then show ?thesis
    using up_to_last_take [of "\<lambda>c. is_trusted helper last_anticipated (hv_value (ct_value c))" certificates]
    by (auto simp: select_certificates_def select_loop selection_of_def)
qed

end
