(* ===== verification/Worker_Steps.thy ===== *)
theory Worker_Steps
  imports Selection Delivery Consensus
begin

text \<open>
  What the handlers of a worker do to the chains it stores. \<open>chain_step\<close> lists the changes a
  chain can go through, each with the checks that were made before it; every handler, whether it
  succeeds or fails, changes every chain by a sequence of them.
\<close>

section \<open>What is stored\<close>

lemma stored_simps [simp]:
  "st_values (save_chain i c s) = st_values s" "st_certificates (save_chain i c s) = st_certificates s"
  "map_of (st_values (write_certificate cert s)) h =
     (if h = hv_hash (ct_value cert) then Some (hv_value (ct_value cert)) else map_of (st_values s) h)"
  "map_of (st_certificates (write_certificate cert s)) h =
     (if h = hv_hash (ct_value cert) then Some (lite_certificate cert) else map_of (st_certificates s) h)"
  "map_of (st_values (write_value v s)) h = (if h = hv_hash v then Some (hv_value v) else map_of (st_values s) h)"
  "st_certificates (write_value v s) = st_certificates s"
  by (simp_all add: save_chain_def write_certificate_def write_value_def update_conv' Let_def)

section \<open>Changes of a chain\<close>

definition in_charge :: "ChainState \<Rightarrow> Epoch \<Rightarrow> Committee \<Rightarrow> bool" where
  "in_charge c epoch committee \<longleftrightarrow> current_committee (es_system (cs_execution_state c)) = Some (epoch, committee)"

definition valid_for :: "Crypto \<Rightarrow> Committee \<Rightarrow> Certificate \<Rightarrow> bool" where
  "valid_for cr committee certificate \<longleftrightarrow> certificate_check cr certificate committee = Ok (ct_value certificate)"

inductive chain_step ::
    "WorkerEnv \<Rightarrow> KeyPair option \<Rightarrow> Storage \<Rightarrow> ChainId \<Rightarrow> ChainState \<Rightarrow> ChainState \<Rightarrow> bool"
    for env key_pair storage chain_id where
  vote:
    "in_charge c (blk_epoch (bar_block (bp_content proposal))) committee \<Longrightarrow>
     (\<And>v. bp_validated proposal = Some v \<Longrightarrow> valid_for (we_crypto env) committee v) \<Longrightarrow>
     blk_chain_id (bar_block (bp_content proposal)) = chain_id \<Longrightarrow>
     verify_block_chaining (cs_tip_state c) (bar_block (bp_content proposal)) = Ok () \<Longrightarrow>
     manager_check_proposed_block (cs_manager c) proposal = Ok Accept \<Longrightarrow>
     manager_create_vote (we_crypto env) (cs_manager c) proposal outcome key_pair now = Ok manager \<Longrightarrow>
     chain_step env key_pair storage chain_id c (c\<lparr>cs_manager := manager\<rparr>)"
| final_vote:
    "in_charge c (value_epoch (hv_value (ct_value certificate))) committee \<Longrightarrow> valid_for (we_crypto env) committee certificate \<Longrightarrow>
     is_validated (hv_value (ct_value certificate)) \<Longrightarrow> value_chain_id (hv_value (ct_value certificate)) = chain_id \<Longrightarrow>
     value_height (hv_value (ct_value certificate)) = tip_next_block_height (cs_tip_state c) \<Longrightarrow>
     manager_check_validated_block (cs_manager c) certificate = Ok Accept \<Longrightarrow>
     manager_create_final_vote (we_crypto env) (cs_manager c) certificate key_pair now = Ok manager \<Longrightarrow>
     chain_step env key_pair storage chain_id c (c\<lparr>cs_manager := manager\<rparr>)"
| timeout:
    "in_charge c (value_epoch (hv_value (ct_value certificate))) committee \<Longrightarrow> valid_for (we_crypto env) committee certificate \<Longrightarrow>
     is_timeout (hv_value (ct_value certificate)) \<Longrightarrow> value_chain_id (hv_value (ct_value certificate)) = chain_id \<Longrightarrow>
     value_height (hv_value (ct_value certificate)) = tip_next_block_height (cs_tip_state c) \<Longrightarrow>
     manager_handle_timeout_certificate (cs_manager c) certificate now = Ok manager \<Longrightarrow>
     chain_step env key_pair storage chain_id c (c\<lparr>cs_manager := manager\<rparr>)"
| timeout_vote:
    "manager_vote_leader_timeout (we_crypto env) (cs_manager c) chain_id (tip_next_block_height (cs_tip_state c)) epoch
       key_pair now = (manager, voted) \<Longrightarrow>
     chain_step env key_pair storage chain_id c (c\<lparr>cs_manager := manager\<rparr>)"
| commit:
    "hv_value (ct_value certificate) = ConfirmedBlock executed_block \<Longrightarrow>
     in_charge c (blk_epoch (eb_block executed_block)) committee \<Longrightarrow> valid_for (we_crypto env) committee certificate \<Longrightarrow>
     blk_chain_id (eb_block executed_block) = chain_id \<Longrightarrow>
     blk_height (eb_block executed_block) = tip_next_block_height (cs_tip_state c) \<Longrightarrow>
     blk_previous_block_hash (eb_block executed_block) = tip_block_hash (cs_tip_state c) \<Longrightarrow>
     chain_id_of cenv = chain_id \<Longrightarrow>
     remove_events_from_inboxes cenv (eb_block executed_block) c = Ok c1 \<Longrightarrow>
     commit_block cenv executed_block (hv_hash (ct_value certificate)) now c1 = Ok c2 \<Longrightarrow>
     map_of (st_certificates storage) (hv_hash (ct_value certificate)) = Some (lite_certificate certificate) \<Longrightarrow>
     map_of (st_values storage) (hv_hash (ct_value certificate)) = Some (ConfirmedBlock executed_block) \<Longrightarrow>
     chain_step env key_pair storage chain_id c c2"
| receive:
    "hv_value (ct_value (certificate :: Certificate)) = ConfirmedBlock executed_block \<Longrightarrow>
     blk_chain_id (eb_block executed_block) = or_sender origin \<Longrightarrow>
     chain_id_of cenv = chain_id \<Longrightarrow>
     receive_block cenv origin (blk_height (eb_block executed_block)) (blk_timestamp (eb_block executed_block))
       (eb_messages executed_block) (hv_hash (ct_value certificate)) now c = Ok c1 \<Longrightarrow>
     chain_step env key_pair storage chain_id c c1"
| mark:
    "length (cs_outboxes c) < 2 ^ 32 \<Longrightarrow> mark_messages_as_received target height c = Ok (c1, changed) \<Longrightarrow>
     chain_step env key_pair storage chain_id c c1"

inductive_cases chain_stepE: "chain_step env key_pair storage chain_id c c'"

abbreviation chain_steps ::
    "WorkerEnv \<Rightarrow> KeyPair option \<Rightarrow> Storage \<Rightarrow> ChainId \<Rightarrow> ChainState \<Rightarrow> ChainState \<Rightarrow> bool" where
  "chain_steps env key_pair storage chain_id \<equiv> (chain_step env key_pair storage chain_id)\<^sup>*\<^sup>*"

section \<open>Steps of a worker\<close>

text \<open>
  A step runs one handler on any input. An acknowledgement is handled while the chain has less
  than \<open>2 ^ 32\<close> outboxes, the new ones included.
\<close>

definition request_bounded :: "WorkerState \<Rightarrow> CrossChainRequest \<Rightarrow> bool" where
  "request_bounded w request =
     (case request of
        ConfirmUpdatedRecipient sender _ latest_heights \<Rightarrow>
          length (cs_outboxes (load_chain (wk_storage w) sender)) + length latest_heights < 2 ^ 32
      | _ \<Rightarrow> True)"

inductive worker_step :: "WorkerEnv \<Rightarrow> WorkerState \<Rightarrow> WorkerState \<Rightarrow> bool" for env where
  step_proposal: "worker_step env w (fst (handle_block_proposal env proposal w))"
| step_certificate: "worker_step env w (fst (handle_certificate env certificate blobs notify w))"
| step_lite_certificate: "worker_step env w (fst (handle_lite_certificate env lite notify w))"
| step_query: "worker_step env w (fst (handle_chain_info_query env query w))"
| step_request: "request_bounded w request \<Longrightarrow> worker_step env w (fst (handle_cross_chain_request env request w))"

text \<open>The handlers only change storage, caches and notifiers; \<open>advances\<close> says how the chains change.\<close>

definition advances :: "WorkerEnv \<Rightarrow> WorkerState \<Rightarrow> WorkerState \<Rightarrow> bool" where
  "advances env w w' \<longleftrightarrow>
     wk_key_pair w' = wk_key_pair w \<and>
     (\<forall>i. chain_steps env (wk_key_pair w) (wk_storage w') i (load_chain (wk_storage w) i) (load_chain (wk_storage w') i))"

lemma advances_same:
  "wk_key_pair w' = wk_key_pair w \<Longrightarrow> (\<And>i. load_chain (wk_storage w') i = load_chain (wk_storage w) i) \<Longrightarrow> advances env w w'"
  by (simp add: advances_def)

lemma advances_save:
  assumes "chain_steps env (wk_key_pair w) (save_chain i c (wk_storage s)) i (load_chain (wk_storage w) i) c"
    and "wk_key_pair s = wk_key_pair w" "\<And>i. load_chain (wk_storage s) i = load_chain (wk_storage w) i"
    and "wk_storage w' = save_chain i c (wk_storage s)" "wk_key_pair w' = wk_key_pair s"
  shows "advances env w w'"
  using assms by (auto simp: advances_def)

section \<open>Rules for the operations of the worker\<close>

lemma wp_lift_chain [wp_simps]:
  "sf_wp (lift_chain r) Q E s \<longleftrightarrow> (\<forall>a. r = Ok a \<longrightarrow> Q a s) \<and> ((\<forall>a. r \<noteq> Ok a) \<longrightarrow> E s)"
  by (cases r) (simp_all add: lift_chain_def wp_lift)

lemma wp_lift_view [wp_simps]:
  "sf_wp (lift_view r) Q E s \<longleftrightarrow> (\<forall>a. r = Ok a \<longrightarrow> Q a s) \<and> ((\<forall>a. r \<noteq> Ok a) \<longrightarrow> E s)"
  by (cases r) (simp_all add: lift_view_def wp_lift)

lemma wp_current_time [wp_simps]:
  "sf_wp (current_time env) Q E s = Q (we_clock env (wk_readings s)) (s\<lparr>wk_readings := wk_readings s + 1\<rparr>)"
  by (simp add: sf_wp_def current_time_def)

lemma wp_ops [wp_simps]:
  "sf_wp (worker_load_chain i) Q E s = Q (load_chain (wk_storage s) i) s"
  "sf_wp (storage_chain_env env i) Q' E s = Q' (chain_env env (wk_storage s) i) s"
  "sf_wp (update_storage f) Q'' E s = Q'' () (s\<lparr>wk_storage := f (wk_storage s)\<rparr>)"
  "sf_wp (save i c) Q'' E s = Q'' () (s\<lparr>wk_storage := save_chain i c (wk_storage s)\<rparr>)"
  by (simp_all add: worker_load_chain_def storage_chain_env_def update_storage_def save_def wp_simps)

lemma wp_load_active_chain [wp_simps]:
  "sf_wp (worker_load_active_chain env i) Q E s =
     ((chain_is_active (load_chain (wk_storage s) i) \<longrightarrow> Q (load_chain (wk_storage s) i) s) \<and>
      (\<not> chain_is_active (load_chain (wk_storage s) i) \<longrightarrow> E s))"
  by (simp add: worker_load_active_chain_def wp_simps load_active_chain_def ensure_is_active_def Let_def)

text \<open>Operations that leave the state alone, and the cache.\<close>

lemma wp_reader:
  assumes "\<And>s. fst (m s) = s"
  shows "sf_wp m Q E s \<longleftrightarrow> (\<forall>a. m s = (s, Ok a) \<longrightarrow> Q a s) \<and> ((\<forall>a. m s \<noteq> (s, Ok a)) \<longrightarrow> E s)"
  using assms [of s] by (cases "m s") (auto simp: sf_wp_def split: result.splits)

lemma fst_bind_reader:
  "(\<And>s. fst (m s) = s) \<Longrightarrow> (\<And>a s. fst (f a s) = s) \<Longrightarrow> fst (sf_bind m f s) = s"
  by (auto simp: sf_bind_def split: prod.splits result.splits) (metis fst_conv)+

lemma fst_readers [simp]:
  "fst (sf_return a s) = s" "fst (sf_lift r s) = s" "fst (sf_get f s) = s"
  "fst (lift_chain r' s') = s'" "fst (storage_chain_env env i s') = s'"
  by (simp_all add: sf_return_def sf_lift_def sf_get_def lift_chain_def storage_chain_env_def)

lemma fst_check_no_missing_bytecode: "fst (check_no_missing_bytecode env block blobs s) = s"
  unfolding check_no_missing_bytecode_def Let_def by (intro fst_bind_reader) auto

lemma fst_network_actions: "fst (network_actions env i c s) = s"
  unfolding network_actions_def by (intro fst_bind_reader) auto

lemmas wp_readers [wp_simps] =
  wp_reader [OF fst_check_no_missing_bytecode]
  wp_reader [OF fst_network_actions]

lemma wp_chain_response [wp_simps]:
  "sf_wp (chain_response env i c) Q E s =
     Q (chain_info_response_new (we_sign_info env) (chain_info_from (chain_env env (wk_storage s) i) c) (wk_key_pair s)) s"
  by (simp add: chain_response_def wp_simps)

lemma check_valid: "certificate_check cr certificate k = Ok v \<longleftrightarrow> valid_for cr k certificate \<and> v = ct_value certificate"
  by (auto simp: valid_for_def certificate_check_Ok_iff)

lemma wp_check_committee [wp_simps]:
  "sf_wp (check_committee env c i epoch certificate) Q E s =
     ((\<forall>committee. in_charge c epoch committee \<longrightarrow> valid_for (we_crypto env) committee certificate \<longrightarrow> Q () s) \<and>
      ((\<forall>committee. in_charge c epoch committee \<longrightarrow> \<not> valid_for (we_crypto env) committee certificate) \<longrightarrow> E s))"
proof (cases "current_committee (es_system (cs_execution_state c))")
  case (Some p)
  obtain e k where "p = (e, k)" by (cases p)
  with Some show ?thesis
    by (auto simp: check_committee_def wp_simps in_charge_def check_valid)
qed (simp add: check_committee_def wp_simps in_charge_def)

definition cached :: "WorkerEnv \<Rightarrow> HashedValue \<Rightarrow> (CryptoHash \<times> HashedValue) list \<Rightarrow> (CryptoHash \<times> HashedValue) list" where
  "cached env v cache = (if map_of cache (hv_hash v) = None then we_lru_push env (hv_hash v) v cache else cache)"

lemma wp_cache_recent_value [wp_simps]:
  "sf_wp (cache_recent_value env v) Q E s =
     Q (map_of (wk_recent_values s) (hv_hash v) = None) (s\<lparr>wk_recent_values := cached env v (wk_recent_values s)\<rparr>)"
  by (cases "map_of (wk_recent_values s) (hv_hash v)") (simp_all add: cache_recent_value_def wp_simps cached_def Let_def)

lemma wp_cache_all [wp_simps]:
  "sf_wp (sf_fold (\<lambda>_ v. sf_bind (cache_recent_value env v) (\<lambda>_. sf_return ())) () vs) Q E s =
     Q () (s\<lparr>wk_recent_values := fold (cached env) vs (wk_recent_values s)\<rparr>)"
  by (induction vs arbitrary: s) (simp_all add: wp_simps)

definition cached_validated :: "WorkerEnv \<Rightarrow> HashedValue \<Rightarrow> (CryptoHash \<times> HashedValue) list \<Rightarrow> (CryptoHash \<times> HashedValue) list" where
  "cached_validated env v cache =
     (case into_confirmed (we_crypto env) v of
        Some confirmed \<Rightarrow> if map_of cache (hv_hash v) = None then cached env confirmed (cached env v cache) else cached env v cache
      | None \<Rightarrow> cached env v cache)"

lemma wp_cache_validated [wp_simps]:
  "sf_wp (cache_validated env v) Q E s =
     Q () (s\<lparr>wk_recent_values := cached_validated env v (wk_recent_values s)\<rparr>)"
  by (cases "map_of (wk_recent_values s) (hv_hash v)")
    (simp_all add: cache_validated_def wp_simps cached_validated_def split: option.splits)

lemma wp_register [wp_simps]:
  "sf_wp (sf_modify (register_delivery_notifier i h actions notify)) Q E s = Q () (register_delivery_notifier i h actions notify s)"
  by (rule wp_modify)

lemma register_same [simp]:
  "wk_storage (register_delivery_notifier i h actions notify s) = wk_storage s"
  "wk_key_pair (register_delivery_notifier i h actions notify s) = wk_key_pair s"
  by (auto simp: register_delivery_notifier_def Let_def split: option.splits)

lemma wp_check_validated [wp_simps]:
  "sf_wp (case v of None \<Rightarrow> sf_return ()
     | Some c \<Rightarrow> sf_bind (lift_chain (certificate_check cr c committee)) (\<lambda>_. sf_return ())) Q E s \<longleftrightarrow>
   ((\<forall>c. v = Some c \<longrightarrow> valid_for cr committee c) \<longrightarrow> Q () s) \<and>
   ((\<exists>c. v = Some c \<and> \<not> valid_for cr committee c) \<longrightarrow> E s)"
  by (cases v) (auto simp: wp_simps check_valid)

lemma wp_check_signer [wp_simps]:
  "sf_wp (case signer of None \<Rightarrow> sf_return () | Some x \<Rightarrow> sf_ensure (x = owner) (e x) (sf_return ())) Q E s \<longleftrightarrow>
   ((\<forall>x. signer = Some x \<longrightarrow> x = owner) \<longrightarrow> Q () s) \<and> ((\<exists>x. signer = Some x \<and> x \<noteq> owner) \<longrightarrow> E s)"
  by (cases signer) (auto simp: wp_simps)

lemma wp_cache_vote [wp_simps]:
  "sf_wp (case v of None \<Rightarrow> sf_return ()
     | Some v \<Rightarrow> sf_bind (cache_recent_value env (vote_value v)) (\<lambda>_. sf_return ())) Q E s \<longleftrightarrow>
   Q () (s\<lparr>wk_recent_values :=
     case v of None \<Rightarrow> wk_recent_values s | Some v \<Rightarrow> cached env (vote_value v) (wk_recent_values s)\<rparr>)"
  by (cases v) (auto simp: wp_simps)

section \<open>The handlers\<close>

lemma Outcome_not_Skip: "outcome \<noteq> Skip \<longleftrightarrow> outcome = Accept"
  by (cases outcome) simp_all

lemma proposal_advances: "advances env w (fst (handle_block_proposal env proposal w))"
  unfolding wp_fst [symmetric]
  by (simp add: handle_block_proposal_def Let_def wp_simps advances_def Outcome_not_Skip)
    (intro allI impI conjI; rule r_into_rtranclp; rule chain_step.vote [unfolded in_charge_def]; (assumption | rule refl | blast))

lemma already_validated_Ok_iff:
  "already_validated_block tip height = Ok b \<longleftrightarrow>
     height \<le> tip_next_block_height tip \<and> b = (height < tip_next_block_height tip)"
  by (auto simp: already_validated_block_def)

lemmas value_simps = value_epoch_def is_validated_def is_timeout_def value_chain_id_def value_height_def

lemma validated_advances: "advances env w (fst (process_validated_block env certificate w))"
proof (cases "hv_value (ct_value certificate)")
  case (ValidatedBlock executed_block)
  then show ?thesis
    unfolding wp_fst [symmetric]
    apply (simp add: process_validated_block_def Let_def wp_simps advances_def already_validated_Ok_iff Outcome_not_Skip)
    apply (intro allI impI conjI; rule r_into_rtranclp)
    apply (rule chain_step.final_vote; (assumption | simp add: value_simps))
    done
qed (simp_all add: process_validated_block_def wp_fst [symmetric] wp_simps advances_def)

lemma timeout_advances: "advances env w (fst (process_leader_timeout env certificate w))"
proof (cases "hv_value (ct_value certificate)")
  case (LeaderTimeout chain_id height epoch)
  then show ?thesis
    unfolding wp_fst [symmetric]
    apply (simp add: process_leader_timeout_def Let_def wp_simps advances_def already_validated_Ok_iff)
    apply (intro allI impI conjI; rule r_into_rtranclp)
    apply (rule chain_step.timeout; (assumption | simp add: value_simps))
    done
qed (simp_all add: process_leader_timeout_def wp_fst [symmetric] wp_simps advances_def)

lemma confirmed_advances: "advances env w (fst (process_confirmed_block env certificate blobs notify w))"
proof (cases "hv_value (ct_value certificate)")
  case (ConfirmedBlock executed_block)
  then show ?thesis
    unfolding wp_fst [symmetric]
    apply (simp add: process_confirmed_block_def Let_def wp_simps advances_def)
    apply (intro allI impI conjI; rule r_into_rtranclp)
    apply (rule chain_step.commit, assumption, assumption, assumption, rule refl, simp, simp, rule chain_id_of_chain_env,
        assumption, assumption, simp, simp)
    done
qed (simp_all add: process_confirmed_block_def wp_fst [symmetric] wp_simps advances_def)

lemma query_advances: "advances env w (fst (handle_chain_info_query env query w))"
proof -
  let ?Q = "\<lambda>_ s. advances env w s" and ?E = "advances env w"
  have vote: "sf_wp (vote_on_timeout env query (load_chain (wk_storage w) (ciq_chain_id query))) ?Q ?E w"
    apply (cases "ciq_request_leader_timeout query"; cases "ss_epoch (es_system (cs_execution_state (load_chain (wk_storage w) (ciq_chain_id query))))")
    apply (simp_all add: vote_on_timeout_def Let_def wp_simps advances_def)
    apply (intro allI impI conjI; rule r_into_rtranclp)
    apply (rule chain_step.timeout_vote; assumption)
    done
  show ?thesis
    unfolding wp_fst [symmetric] handle_chain_info_query_def wp_bind wp_ops
    apply (rule wp_mono [OF vote])
    apply (simp_all add: Let_def wp_simps split: option.split)
    done
qed

lemma certificate_advances: "advances env w (fst (handle_certificate env certificate blobs notify w))"
proof (cases "is_confirmed (hv_value (ct_value certificate)) \<or> blobs = []")
  case True
  show ?thesis
  proof (cases "hv_value (ct_value certificate)")
    case (ValidatedBlock executed_block)
    with True show ?thesis
      using validated_advances [of env w certificate, folded wp_fst]
      by (simp add: handle_certificate_def sf_ensure_def wp_fst [symmetric] wp_bind)
        (erule wp_mono, simp_all add: wp_simps)
  qed (use True confirmed_advances timeout_advances in \<open>simp_all add: handle_certificate_def sf_ensure_def\<close>)
qed (simp add: handle_certificate_def sf_ensure_def sf_lift_def advances_same)

lemma advances_cong:
  "advances env s t \<Longrightarrow> wk_key_pair s = wk_key_pair w \<Longrightarrow> wk_storage s = wk_storage w \<Longrightarrow> advances env w t"
  by (simp add: advances_def)

lemma lite_certificate_advances: "advances env w (fst (handle_lite_certificate env lite notify w))"
proof -
  have "advances env w (fst (handle_certificate env c [] notify (w\<lparr>wk_recent_values := cache\<rparr>)))" for c cache
    by (rule advances_cong [OF certificate_advances]) simp_all
  then show ?thesis
    unfolding wp_fst [symmetric]
    by (simp add: handle_lite_certificate_def full_certificate_def wp_simps advances_same)
qed

section \<open>Cross-chain requests\<close>

text \<open>The steps of these handlers do not depend on what is stored, so they can be chained.\<close>

definition delivers :: "WorkerEnv \<Rightarrow> WorkerState \<Rightarrow> WorkerState \<Rightarrow> bool" where
  "delivers env w w' \<longleftrightarrow>
     wk_key_pair w' = wk_key_pair w \<and>
     (\<forall>i storage. chain_steps env (wk_key_pair w) storage i (load_chain (wk_storage w) i) (load_chain (wk_storage w') i))"

lemma delivers_advances: "delivers env w w' \<Longrightarrow> advances env w w'"
  by (simp add: delivers_def advances_def)

lemma delivers_refl: "delivers env w w"
  by (simp add: delivers_def)

lemma delivers_trans: "delivers env w s \<Longrightarrow> delivers env s t \<Longrightarrow> delivers env w t"
  unfolding delivers_def by (metis rtranclp_trans)

definition with_inbox :: "Origin \<Rightarrow> ChainState \<Rightarrow> ChainState" where
  "with_inbox origin c = c\<lparr>cs_inboxes := try_load_entry inbox_default origin (cs_inboxes c)\<rparr>"

lemma with_inbox_twice [simp]: "with_inbox origin (with_inbox origin c) = with_inbox origin c"
  by (simp add: with_inbox_def try_load_entry_def entry_or_def update_conv')

lemma next_block_height_with_inbox:
  "next_block_height_to_receive origin c = Ok (c1, h) \<longleftrightarrow>
     c1 = with_inbox origin c \<and>
     inbox_next_block_height_to_receive (entry_or inbox_default (cs_inboxes c) origin) = Ok h"
  by (auto simp: next_block_height_to_receive_def with_inbox_def Let_def entry_or_def try_load_entry_def update_conv')

lemma receive_block_with_inbox:
  "receive_block cenv origin height timestamp messages hash now (with_inbox origin c) =
   receive_block cenv origin height timestamp messages hash now c"
proof -
  have "next_block_height_to_receive origin (with_inbox origin c) = next_block_height_to_receive origin c"
    by (simp add: next_block_height_to_receive_def with_inbox_def Let_def try_load_entry_def entry_or_def update_conv')
  then show ?thesis by (simp add: receive_block_def)
qed

lemma last_anticipated_with_inbox:
  "last_anticipated_block_height origin c = (c1, h) \<Longrightarrow> c1 = with_inbox origin c"
  by (auto simp: last_anticipated_block_height_def with_inbox_def Let_def)

definition confirms_block_of :: "Origin \<Rightarrow> Certificate \<Rightarrow> bool" where
  "confirms_block_of origin cert \<longleftrightarrow>
     (\<exists>executed_block. hv_value (ct_value cert) = ConfirmedBlock executed_block \<and>
        blk_chain_id (eb_block executed_block) = or_sender origin)"

lemma select_confirms:
  assumes "select_certificates helper origin next_height last_anticipated certificates = Ok certs" "c \<in> set certs"
  shows "confirms_block_of origin c"
proof -
  have "c \<in> set certificates" "update_wf origin certificates"
    using assms by (auto simp: select_certificates_eq selected_def dest: in_up_to_last split: if_splits)
  then have "is_confirmed (hv_value (ct_value c))" "value_chain_id (hv_value (ct_value c)) = or_sender origin"
    by (auto simp: update_wf_def)
  then show ?thesis
    by (cases "hv_value (ct_value c)") (auto simp: is_confirmed_def value_chain_id_def confirms_block_of_def)
qed

definition receiving :: "WorkerEnv \<Rightarrow> WorkerState \<Rightarrow> ChainId \<Rightarrow> ChainState \<Rightarrow> WorkerState \<Rightarrow> bool" where
  "receiving env w i c s \<longleftrightarrow>
     wk_key_pair s = wk_key_pair w \<and> (\<forall>j. load_chain (wk_storage s) j = load_chain (wk_storage w) j) \<and>
     (\<forall>storage. chain_steps env (wk_key_pair w) storage i (load_chain (wk_storage w) i) c)"

lemma receive_certificate_receiving:
  assumes "confirms_block_of origin cert" "receiving env w i c s"
  shows "sf_wp (receive_certificate env i origin c cert) (receiving env w i) (delivers env w) s"
proof -
  obtain executed_block where cert: "hv_value (ct_value cert) = ConfirmedBlock executed_block"
    "blk_chain_id (eb_block executed_block) = or_sender origin"
    using assms(1) by (auto simp: confirms_block_of_def)
  have "chain_step env kp storage i c c'" if "receive_block (chain_env env st i) origin (blk_height (eb_block executed_block))
      (blk_timestamp (eb_block executed_block)) (eb_messages executed_block) (hv_hash (ct_value cert)) now c = Ok c'"
    for kp storage st now c'
    by (rule chain_step.receive [OF cert chain_id_of_chain_env that])
  with assms(2) cert show ?thesis
    by (simp add: receive_certificate_def Let_def wp_simps receiving_def delivers_def)
      (blast intro: rtranclp.rtrancl_into_rtrancl)
qed

lemma receive_certificate_with_inbox:
  "confirms_block_of origin cert \<Longrightarrow>
   receive_certificate env i origin (with_inbox origin c) cert = receive_certificate env i origin c cert"
  by (auto simp: confirms_block_of_def receive_certificate_def receive_block_with_inbox)

lemma receive_certificates_receiving:
  assumes "\<And>c. c \<in> set certs \<Longrightarrow> confirms_block_of origin c" "certs \<noteq> []"
    and "wk_key_pair s = wk_key_pair w" "\<And>j. load_chain (wk_storage s) j = load_chain (wk_storage w) j"
  shows "sf_wp (sf_fold (receive_certificate env i origin) (with_inbox origin (load_chain (wk_storage w) i)) certs)
    (receiving env w i) (delivers env w) s"
proof -
  obtain x xs where certs: "certs = x # xs" using assms(2) by (cases certs) auto
  then have "sf_fold (receive_certificate env i origin) (with_inbox origin c) certs =
      sf_fold (receive_certificate env i origin) c certs" for c
    using assms(1) [of x] by (simp add: receive_certificate_with_inbox)
  moreover have "receiving env w i (load_chain (wk_storage w) i) s" using assms(3,4) by (simp add: receiving_def)
  ultimately show ?thesis
    using assms(1) by (simp add: wp_fold receive_certificate_receiving)
qed

lemma cross_chain_update_delivers: "delivers env w (fst (process_cross_chain_update env origin recipient certificates w))"
proof -
  let ?c = "load_chain (wk_storage w) recipient"
  let ?w = "\<lambda>certs. w\<lparr>wk_storage := write_certificates certs (wk_storage w)\<rparr>"
  have fold: "sf_wp (sf_fold (receive_certificate env recipient origin) (with_inbox origin ?c) certs)
      (receiving env w recipient) (delivers env w) (?w certs)"
    if "select_certificates helper origin h l certificates = Ok certs" "certs \<noteq> []" for helper h l certs
    by (rule receive_certificates_receiving) (use that select_confirms in auto)
  have rest: "(receiving env w recipient c s \<longrightarrow> delivers env w (s\<lparr>wk_storage := save_chain recipient c (wk_storage s)\<rparr>)) \<and>
      (receiving env w recipient c s \<longrightarrow> delivers env w s)" for c s
    by (auto simp: receiving_def delivers_def)
  show ?thesis
    unfolding wp_fst [symmetric]
    apply (simp add: process_cross_chain_update_def wp_simps delivers_refl next_block_height_with_inbox Let_def)
    apply (intro allI impI)
    apply (frule last_anticipated_with_inbox)
    apply (clarsimp simp: wp_simps delivers_refl)
    apply (rule wp_mono [OF fold], assumption, assumption)
    apply (auto simp: wp_simps rest)
    done
qed

lemma update_recipient_delivers:
  "sf_wp (sf_fold (update_from_medium env sender recipient certificates) heights height_map)
     (\<lambda>_. delivers env w) (delivers env w) w"
proof (rule wp_fold)
  fix heights medium s
  assume "delivers env w s"
  then have "delivers env w (fst (process_cross_chain_update env origin recipient certs s))" for origin certs
    using cross_chain_update_delivers delivers_trans by blast
  then have "sf_wp (process_cross_chain_update env origin recipient certs) (\<lambda>_. delivers env w) (delivers env w) s" for origin certs
    by (simp add: wp_fst)
  then show "sf_wp (update_from_medium env sender recipient certificates heights medium) (\<lambda>_. delivers env w) (delivers env w) s"
    by (cases medium) (simp add: update_from_medium_def Let_def wp_simps)
qed (rule delivers_refl)

lemma length_AList_update: "length (AList.update k v xs) \<le> Suc (length xs)"
  by (induction xs) auto

lemma mark_messages_length:
  assumes "mark_messages_as_received target height c = Ok (c', b)"
  shows "length (cs_outboxes c') \<le> Suc (length (cs_outboxes c))"
proof -
  note length_AList_update [simp]
  have [simp]: "length (AList.delete target (AList.update target outbox (cs_outboxes c))) \<le> Suc (length (cs_outboxes c))" for outbox
    by (rule order_trans [OF length_delete_le length_AList_update])
  obtain outbox updates where
    "outbox_mark_messages_as_received (entry_or outbox_default (cs_outboxes c) target) height = (outbox, updates)"
    by fastforce
  with assms show ?thesis
    by (cases "updates = []"; cases "ob_queue outbox = []") (auto simp: mark_messages_as_received_def)
qed

lemma notify_same [simp]:
  "wk_storage (notify_deliveries i h s) = wk_storage s" "wk_key_pair (notify_deliveries i h s) = wk_key_pair s"
  by (simp_all add: notify_deliveries_def Let_def split: option.splits prod.splits)

lemma wp_confirm_medium:
  "sf_wp (confirm_medium i recipient (c, changed) (medium, height)) Q E s \<longleftrightarrow>
     (\<forall>c1 b. mark_messages_as_received (Target recipient medium) height c = Ok (c1, b) \<longrightarrow>
        Q (c1, b \<or> changed) (if b \<and> all_messages_delivered_up_to height c1 then notify_deliveries i height s else s)) \<and>
     ((\<forall>a. mark_messages_as_received (Target recipient medium) height c \<noteq> Ok a) \<longrightarrow> E s)"
proof (cases "mark_messages_as_received (Target recipient medium) height c")
  case (Ok p)
  obtain c1 b where "p = (c1, b)" by (cases p)
  with Ok show ?thesis by (cases b) (simp_all add: confirm_medium_def wp_simps)
qed (simp_all add: confirm_medium_def wp_simps)

lemma confirm_receiving:
  assumes "receiving env w i c s" "length (cs_outboxes c) + length latest_heights < 2 ^ 32"
  shows "sf_wp (sf_fold (confirm_medium i recipient) (c, changed) latest_heights)
    (\<lambda>(c, _). receiving env w i c) (delivers env w) s"
  using assms
proof (induction latest_heights arbitrary: c changed s)
  case (Cons x latest_heights)
  obtain medium height where x: "x = (medium, height)" by (cases x)
  have mark: "receiving env w i c1 s' \<and> length (cs_outboxes c1) + length latest_heights < 2 ^ 32"
    if "mark_messages_as_received (Target recipient medium) height c = Ok (c1, b)" "wk_storage s' = wk_storage s" "wk_key_pair s' = wk_key_pair s" for c1 b s'
    using Cons.prems that chain_step.mark [OF _ that(1), of env "wk_key_pair w" _ i] mark_messages_length [OF that(1)]
    by (simp add: receiving_def) (meson rtranclp.rtrancl_into_rtrancl)
  have "delivers env w s" using Cons.prems by (simp add: receiving_def delivers_def)
  then show ?case
    unfolding sf_fold.simps wp_bind x wp_confirm_medium using mark by (intro conjI allI impI Cons.IH) simp_all
qed (simp add: wp_simps)

lemma request_delivers:
  assumes "request_bounded w request"
  shows "delivers env w (fst (handle_cross_chain_request env request w))"
proof (cases request)
  case (UpdateRecipient height_map sender recipient certificates)
  then show ?thesis
    using update_recipient_delivers [of env sender recipient certificates "[]" height_map w]
    by (simp add: handle_cross_chain_request_def wp_fst [symmetric] wp_bind) (erule wp_mono, simp_all add: wp_simps)
next
  case (ConfirmUpdatedRecipient sender recipient latest_heights)
  have "receiving env w sender (load_chain (wk_storage w) sender) w" by (simp add: receiving_def)
  then have "sf_wp (sf_fold (confirm_medium sender recipient) (load_chain (wk_storage w) sender, False) latest_heights)
    (\<lambda>(c, _). receiving env w sender c) (delivers env w) w"
    by (rule confirm_receiving) (use assms in \<open>simp add: ConfirmUpdatedRecipient request_bounded_def\<close>)
  then show ?thesis
    by (simp add: ConfirmUpdatedRecipient handle_cross_chain_request_def wp_fst [symmetric] wp_bind wp_ops)
      (erule wp_mono, auto simp: wp_simps receiving_def delivers_def)
qed

lemma worker_step_advances: "worker_step env w w' \<Longrightarrow> advances env w w'"
  by (induction rule: worker_step.induct)
    (simp_all add: proposal_advances certificate_advances lite_certificate_advances query_advances
      request_delivers delivers_advances)

end
