(* ===== verification/Worker_Refinement.thy ===== *)
theory Worker_Refinement
  imports Worker_Steps
begin

text \<open>
  The handlers of a worker refine the models the other theories reason about: the managers of
  its chains take the steps of a validator in \<open>Consensus\<close>, and the chains it stores
  are runs in the sense of \<open>Delivery\<close>.
\<close>

section \<open>Frames of the changes of a chain\<close>

text \<open>What neither receiving messages nor acknowledging them changes on an active chain.\<close>

definition chain_core :: "ChainState \<Rightarrow> ExecutionState \<times> ChainTipState \<times> ChainManager \<times> CryptoHash list" where
  "chain_core c = (cs_execution_state c, cs_tip_state c, cs_manager c, cs_confirmed_log c)"

lemma open_chain_active: "ss_description system \<noteq> None \<Longrightarrow> system_open_chain env i ownership epoch committees admin_id timestamp system = Panic"
  by (simp add: system_open_chain_def assert_that_def)

lemma receive_message_active:
  assumes "receive_message cenv origin height timestamp hash now (c, events) x = Ok st" "chain_is_active c"
  shows "fst st = c"
proof -
  have "execute_immediate_message cenv i m timestamp now c = Ok c' \<Longrightarrow> c' = c" for i m c'
    using assms(2)
    by (auto simp: execute_immediate_message_def open_chain_active chain_is_active_def system_is_active_def
        split: Message.splits SystemMessage.splits)
  then show ?thesis
    using assms(1) by (auto simp: receive_message_def split: prod.splits if_splits Message.splits)
qed

lemma receive_block_active:
  assumes "receive_block cenv origin height timestamp messages hash now c = Ok c'" "chain_is_active c"
  shows "chain_core c' = chain_core c"
proof -
  from assms(1) obtain h c2 events inbox where
    fold: "try_fold (receive_message cenv origin height timestamp hash now) (with_inbox origin c, []) (enumerate 0 messages) = Ok (c2, events)"
    and c': "c' = c2\<lparr>cs_inboxes := AList.update origin inbox (cs_inboxes c2),
      cs_received_log := cs_received_log c2 @ [\<lparr>cah_chain_id = or_sender origin, cah_height = height\<rparr>]\<rparr>"
    by (auto simp: receive_block_def next_block_height_with_inbox)
  have "chain_is_active (with_inbox origin c)" using assms(2) by (simp add: chain_is_active_def with_inbox_def)
  then have "fst (c2, events) = with_inbox origin c"
    by (intro try_fold_invariant [OF fold, where P = "\<lambda>st. fst st = with_inbox origin c"])
      (auto dest: receive_message_active)
  with c' show ?thesis by (simp add: with_inbox_def chain_core_def)
qed

lemma mark_messages_core:
  assumes "mark_messages_as_received target height c = Ok (c', b)"
  shows "chain_core c' = chain_core c"
proof -
  obtain outbox updates where
    "outbox_mark_messages_as_received (entry_or outbox_default (cs_outboxes c) target) height = (outbox, updates)"
    by fastforce
  with assms show ?thesis
    by (cases "updates = []"; cases "ob_queue outbox = []") (auto simp: mark_messages_as_received_def chain_core_def)
qed

lemma remove_events_core: "remove_events_from_inboxes cenv block c = Ok c' \<Longrightarrow> chain_core c' = chain_core c"
  using remove_events_frame by (fastforce simp: chain_core_def)

text \<open>Executing a block changes neither the tip nor the log; the manager is new afterwards.\<close>

definition frozen :: "ChainState \<Rightarrow> ChainTipState \<times> CryptoHash list" where
  "frozen c = (cs_tip_state c, cs_confirmed_log c)"

lemma frozen_simps [simp]:
  "frozen (c\<lparr>cs_outboxes := x1\<rparr>) = frozen c" "frozen (c\<lparr>cs_outbox_counters := x2\<rparr>) = frozen c"
  "frozen (c\<lparr>cs_channels := x3\<rparr>) = frozen c" "frozen (c\<lparr>cs_execution_state := x4\<rparr>) = frozen c"
  "frozen (c\<lparr>cs_execution_state_hash := x5\<rparr>) = frozen c" "frozen (c\<lparr>cs_manager := x6\<rparr>) = frozen c"
  by (simp_all add: frozen_def)

interpretation tip_frame: block_invariant "\<lambda>_ s. frozen s = k" "\<lambda>_ _ _. True" H for k H
proof unfold_locales
  fix s t h s'
  assume "frozen s = k" "schedule_for s (t, h) = Ok s'"
  then show "frozen s' = k" by (auto simp: schedule_for_def Let_def)
qed simp_all

lemma execute_block_frozen: "execute_block cenv block now c = Ok (c', outcome) \<Longrightarrow> frozen c' = frozen c"
  by (rule tip_frame.keeps_execute_block [OF refl refl])

text \<open>The manager after the block is new, for the ownership the block leaves and the next height.\<close>

lemma execute_block_manager:
  assumes "execute_block cenv block now c = Ok (c', outcome)"
  shows "\<exists>next_height. try_add_one (blk_height block) = Ok next_height \<and>
    manager_reset (ce_sampler cenv) (ss_ownership (es_system (cs_execution_state c'))) next_height now = Ok (cs_manager c')"
proof -
  from assms obtain credit progress where "finish_block cenv block now credit progress = Ok (c', outcome)"
    by (auto simp: execute_block_def Let_def split: option.splits)
  then show ?thesis by (auto simp: finish_block_def Let_def)
qed

text \<open>A block is committed: what the tip, the log and the manager are before and after.\<close>

definition commits :: "WorkerEnv \<Rightarrow> Storage \<Rightarrow> ChainId \<Rightarrow> Committee \<Rightarrow> ChainState \<Rightarrow> ChainState \<Rightarrow> bool" where
  "commits env storage i committee c c' \<longleftrightarrow>
     (\<exists>certificate executed_block smp now.
        hv_value (ct_value certificate) = ConfirmedBlock executed_block \<and> valid_for (we_crypto env) committee certificate \<and>
        blk_chain_id (eb_block executed_block) = i \<and>
        blk_height (eb_block executed_block) = tip_next_block_height (cs_tip_state c) \<and>
        blk_previous_block_hash (eb_block executed_block) = tip_block_hash (cs_tip_state c) \<and>
        tip_block_hash (cs_tip_state c') = Some (hv_hash (ct_value certificate)) \<and>
        try_add_one (tip_next_block_height (cs_tip_state c)) = Ok (tip_next_block_height (cs_tip_state c')) \<and>
        cs_confirmed_log c' = cs_confirmed_log c @ [hv_hash (ct_value certificate)] \<and>
        manager_reset smp (ss_ownership (es_system (cs_execution_state c'))) (tip_next_block_height (cs_tip_state c')) now =
          Ok (cs_manager c') \<and>
        map_of (st_certificates storage) (hv_hash (ct_value certificate)) = Some (lite_certificate certificate) \<and>
        map_of (st_values storage) (hv_hash (ct_value certificate)) = Some (ConfirmedBlock executed_block))"

lemma commit_commits:
  assumes "hv_value (ct_value certificate) = ConfirmedBlock executed_block" "valid_for (we_crypto env) committee certificate"
    "blk_chain_id (eb_block executed_block) = i"
    "blk_height (eb_block executed_block) = tip_next_block_height (cs_tip_state c)"
    "blk_previous_block_hash (eb_block executed_block) = tip_block_hash (cs_tip_state c)"
    "remove_events_from_inboxes cenv (eb_block executed_block) c = Ok c1"
    "commit_block cenv executed_block (hv_hash (ct_value certificate)) now c1 = Ok c2"
    "map_of (st_certificates storage) (hv_hash (ct_value certificate)) = Some (lite_certificate certificate)"
    "map_of (st_values storage) (hv_hash (ct_value certificate)) = Some (ConfirmedBlock executed_block)"
  shows "commits env storage i committee c c2"
proof -
  from assms(7) obtain c3 outcome h where
    exec: "execute_block cenv (eb_block executed_block) now c1 = Ok (c3, outcome)"
    and h: "try_add_one (tip_next_block_height (cs_tip_state c3)) = Ok h"
    and c2: "c2 = c3\<lparr>cs_tip_state := \<lparr>tip_block_hash = Some (hv_hash (ct_value certificate)), tip_next_block_height = h\<rparr>,
      cs_confirmed_log := cs_confirmed_log c3 @ [hv_hash (ct_value certificate)]\<rparr>"
    by (auto simp: commit_block_def simp del: try_add_one_Ok_iff)
  have same: "cs_tip_state c3 = cs_tip_state c" "cs_confirmed_log c3 = cs_confirmed_log c"
    using execute_block_frozen [OF exec] remove_events_core [OF assms(6)] by (simp_all add: frozen_def chain_core_def)
  show ?thesis
    unfolding commits_def using assms(1-5,8,9) h execute_block_manager [OF exec] by (auto simp: c2 same simp del: try_add_one_Ok_iff)
qed

text \<open>Every step but a commit leaves the tip and the log alone.\<close>

lemma receive_block_frozen:
  assumes "receive_block cenv origin height timestamp messages hash now c = Ok c'"
  shows "frozen c' = frozen c"
proof -
  have step: "frozen (fst st') = frozen (fst st)" if "receive_message cenv origin height timestamp hash now st x = Ok st'" for st x st'
    using that by (auto simp: receive_message_def execute_immediate_message_def Let_def
        split: prod.splits if_splits Message.splits SystemMessage.splits)
  from assms obtain c2 events inbox where
    fold: "try_fold (receive_message cenv origin height timestamp hash now) (with_inbox origin c, []) (enumerate 0 messages) = Ok (c2, events)"
    and c': "frozen c' = frozen c2"
    by (auto simp: receive_block_def next_block_height_with_inbox frozen_def)
  have "frozen (fst (c2, events)) = frozen c"
    by (rule try_fold_invariant [OF fold, where P = "\<lambda>st. frozen (fst st) = frozen c"])
      (simp_all add: with_inbox_def frozen_def step [unfolded frozen_def])
  with c' show ?thesis by simp
qed

lemma chain_step_frozen:
  assumes "chain_step env key_pair storage i c c'"
  shows "frozen c' = frozen c \<or> (\<exists>epoch committee. in_charge c epoch committee \<and> commits env storage i committee c c')"
  using assms
proof cases
  case (commit certificate executed_block committee cenv c1 now)
  then show ?thesis using commit_commits [of certificate executed_block env committee i c cenv c1 now c' storage] by blast
next
  case mark
  then show ?thesis using mark_messages_core by (simp add: chain_core_def frozen_def)
qed (auto simp: receive_block_frozen)

lemma chain_steps_height:
  assumes "chain_steps env key_pair storage i c c'"
  shows "unat (tip_next_block_height (cs_tip_state c)) \<le> unat (tip_next_block_height (cs_tip_state c'))"
  using assms
proof (induction rule: rtranclp_induct)
  case (step y z)
  from chain_step_frozen [OF step.hyps(2)] step.IH show ?case by (auto simp: frozen_def commits_def)
qed simp

section \<open>Consensus\<close>

abbreviation refines_node :: "Crypto \<Rightarrow> Committee \<Rightarrow> MultiOwnerManager \<Rightarrow> MultiOwnerManager \<Rightarrow> bool" where
  "refines_node cr committee \<equiv> (node_step cr (valid_for cr committee))\<^sup>*\<^sup>*"

lemma in_charge_unique: "in_charge c epoch committee \<Longrightarrow> in_charge c epoch' committee' \<Longrightarrow> committee' = committee"
  by (simp add: in_charge_def)

lemma vote_refines:
  assumes "manager_check_proposed_block (Manager_Multi m) proposal = Ok Accept"
    "manager_create_vote cr (Manager_Multi m) proposal outcome (Some kp) now = Ok manager"
    "\<And>v. bp_validated proposal = Some v \<Longrightarrow> valid_for cr committee v"
  shows "\<exists>m'. manager = Manager_Multi m' \<and> refines_node cr committee m m'"
  using assms node_step.handle_block_proposal [of proposal "valid_for cr committee" m cr outcome kp now]
  by (auto simp: manager_create_vote_def intro: r_into_rtranclp)

lemma final_vote_refines:
  assumes "valid_for cr committee certificate" "is_validated (hv_value (ct_value certificate))"
    "manager_check_validated_block (Manager_Multi m) certificate = Ok Accept"
    "manager_create_final_vote cr (Manager_Multi m) certificate (Some kp) now = Ok manager"
  shows "\<exists>m'. manager = Manager_Multi m' \<and> refines_node cr committee m m'"
  using assms node_step.process_validated_block [of "valid_for cr committee" certificate m cr kp now]
  by (auto simp: manager_check_validated_block_def manager_create_final_vote_def intro: r_into_rtranclp)

lemma timeout_refines:
  assumes "valid_for cr committee certificate" "is_timeout (hv_value (ct_value certificate))"
    "manager_handle_timeout_certificate (Manager_Multi m) certificate now = Ok manager"
  shows "\<exists>m'. manager = Manager_Multi m' \<and> refines_node cr committee m m'"
  using assms node_step.process_leader_timeout [of "valid_for cr committee" certificate cr m now]
  by (auto simp: manager_handle_timeout_certificate_def intro: r_into_rtranclp)

lemma timeout_vote_refines:
  assumes "manager_vote_leader_timeout cr (Manager_Multi m) i h epoch (Some kp) now = (manager, voted)"
  shows "\<exists>m'. manager = Manager_Multi m' \<and> refines_node cr committee m m'"
  using assms node_step.request_leader_timeout [of cr "valid_for cr committee" m i h epoch kp now]
  by (auto simp: manager_vote_leader_timeout_def intro: r_into_rtranclp split: prod.splits)

text \<open>A step at the same height keeps the system state and refines steps of the manager.\<close>

definition same_height :: "Crypto \<Rightarrow> Committee \<Rightarrow> ChainState \<Rightarrow> ChainState \<Rightarrow> bool" where
  "same_height cr committee c c' \<longleftrightarrow>
     cs_execution_state c' = cs_execution_state c \<and>
     (\<forall>m. cs_manager c = Manager_Multi m \<longrightarrow>
        (\<exists>m'. cs_manager c' = Manager_Multi m' \<and> refines_node cr committee m m'))"

lemma same_height_core: "chain_core c' = chain_core c \<Longrightarrow> same_height cr committee c c'"
  by (auto simp: same_height_def chain_core_def)

lemma chain_step_refines:
  assumes "chain_step env (Some kp) storage i c c'" "chain_is_active c" "in_charge c epoch committee"
    and "cs_tip_state c' = cs_tip_state c"
  shows "same_height (we_crypto env) committee c c'"
  using assms(1)
proof cases
  case (vote proposal committee' outcome now manager)
  with in_charge_unique [OF assms(3) vote(2)] show ?thesis
    by (auto simp: same_height_def intro!: vote_refines)
next
  case (final_vote certificate committee' now manager)
  with in_charge_unique [OF assms(3) final_vote(2)] show ?thesis
    by (auto simp: same_height_def intro!: final_vote_refines)
next
  case (timeout certificate committee' now manager)
  with in_charge_unique [OF assms(3) timeout(2)] show ?thesis
    by (auto simp: same_height_def intro!: timeout_refines)
next
  case (timeout_vote epoch' now manager voted)
  then show ?thesis by (auto simp: same_height_def intro!: timeout_vote_refines)
next
  case (commit certificate executed_block committee' cenv c1 now)
  then have "commits env storage i committee' c c'"
    using commit_commits [of certificate executed_block env committee' i c cenv c1 now c' storage] by simp
  with assms(4) show ?thesis by (auto simp: commits_def)
next
  case (receive certificate executed_block origin cenv now)
  with receive_block_active [OF receive(4) assms(2)] show ?thesis by (simp add: same_height_core)
next
  case (mark target height changed)
  with mark_messages_core [OF mark(2)] show ?thesis by (simp add: same_height_core)
qed

lemma chain_steps_refine:
  assumes "chain_steps env (Some kp) storage i c c'" "chain_is_active c" "in_charge c epoch committee"
    and "tip_next_block_height (cs_tip_state c') = tip_next_block_height (cs_tip_state c)"
  shows "same_height (we_crypto env) committee c c'"
  using assms(1,4)
proof (induction rule: rtranclp_induct)
  case base
  show ?case by (simp add: same_height_def)
next
  case (step y z)
  have height: "unat (tip_next_block_height (cs_tip_state c)) \<le> unat (tip_next_block_height (cs_tip_state y))"
    "unat (tip_next_block_height (cs_tip_state y)) \<le> unat (tip_next_block_height (cs_tip_state z))"
    using chain_steps_height step.hyps by (blast, blast intro: r_into_rtranclp)
  with step.prems have "tip_next_block_height (cs_tip_state y) = tip_next_block_height (cs_tip_state c)"
    by (simp add: word_unat_eq_iff)
  then have y: "same_height (we_crypto env) committee c y" by (rule step.IH)
  then have "chain_is_active y" "in_charge y epoch committee"
    using assms(2,3) by (simp_all add: same_height_def chain_is_active_def in_charge_def)
  moreover have "frozen z = frozen y"
    using chain_step_frozen [OF step.hyps(2)] height step.prems by (auto simp: commits_def)
  ultimately have "same_height (we_crypto env) committee y z"
    using chain_step_refines [OF step.hyps(2)] by (simp add: frozen_def)
  with y show ?case unfolding same_height_def by (metis rtranclp_trans)
qed

text \<open>
  C26. Refinement of the consensus protocol. Whatever request a validator handles, and
  whether the handler succeeds or fails: at an active chain with several owners whose tip
  does not move, the manager takes a sequence of steps of a node of the protocol, in which
  certificates are those that the committee in charge of the chain signed; the committee stays
  in charge.
\<close>

theorem worker_refines_consensus:
  assumes "worker_step env w w'" "wk_key_pair w = Some kp"
    and "chain_is_active (load_chain (wk_storage w) i)" "in_charge (load_chain (wk_storage w) i) epoch committee"
    and "cs_manager (load_chain (wk_storage w) i) = Manager_Multi m"
    and "tip_next_block_height (cs_tip_state (load_chain (wk_storage w') i)) =
      tip_next_block_height (cs_tip_state (load_chain (wk_storage w) i))"
  shows "\<exists>m'. cs_manager (load_chain (wk_storage w') i) = Manager_Multi m' \<and>
    (node_step (we_crypto env) (valid_for (we_crypto env) committee))\<^sup>*\<^sup>* m m' \<and>
    in_charge (load_chain (wk_storage w') i) epoch committee"
proof -
  have "chain_steps env (Some kp) (wk_storage w') i (load_chain (wk_storage w) i) (load_chain (wk_storage w') i)"
    using worker_step_advances [OF assms(1)] assms(2) by (simp add: advances_def)
  from chain_steps_refine [OF this assms(3,4,6)] assms(4,5) show ?thesis
    by (simp add: same_height_def in_charge_def)
qed

end
