(* ===== verification/Worker_Run.thy ===== *)
theory Worker_Run
  imports Worker_Refinement Consensus_Run Delivery_Run
begin

text \<open>
  A concrete worker with one chain, on which the properties of workers are instantiated.
\<close>

definition ex_worker_env :: WorkerEnv where
  "ex_worker_env =
     \<lparr>we_crypto = ex_crypto, we_chain = ex_chain_env, we_wasm_runtime = None, we_debug_hash = (\<lambda>_. []),
      we_clock = (\<lambda>_. max_value), we_sign_info = (\<lambda>_ _. 0), we_lru_get = (\<lambda>hash cache. (cache, map_of cache hash)),
      we_lru_push = (\<lambda>hash hashed cache. (hash, hashed) # cache)\<rparr>"

definition ex_multi_chain :: ChainState where
  "ex_multi_chain = ex_chain\<lparr>cs_manager := Manager_Multi ex_manager0\<rparr>"

definition ex_worker :: WorkerState where
  "ex_worker = worker_new (Some ex_key_pair) (storage_empty\<lparr>st_chain_states := [(1, ex_multi_chain)]\<rparr>)"

definition ex_timeout_query :: ChainInfoQuery where
  "ex_timeout_query = (chain_info_query_new 1)\<lparr>ciq_request_leader_timeout := True\<rparr>"

lemma ex_worker_chain: "load_chain (wk_storage ex_worker) 1 = ex_multi_chain"
  by (simp add: ex_worker_def worker_new_def load_chain_def entry_or_def)

lemma ex_multi_chain_active: "chain_is_active ex_multi_chain" "in_charge ex_multi_chain 0 (committee_new [] policy_default)"
  by (simp_all add: chain_is_active_def system_is_active_def in_charge_def ex_multi_chain_def ex_chain_def ex_system_def
      current_committee_def ownership_is_active_def)

definition ex_manager_timeout :: MultiOwnerManager where
  "ex_manager_timeout = fst (multi_vote_leader_timeout ex_crypto ex_manager0 1 0 0 (Some ex_key_pair) max_value)"

lemma ex_timeout_vote: "multi_vote_leader_timeout ex_crypto ex_manager0 1 0 0 (Some ex_key_pair) max_value = (ex_manager_timeout, True)"
  by (simp add: ex_manager_timeout_def multi_vote_leader_timeout_def ex_manager0_def Let_def linorder_not_less word_le_nat_alt unat_MAX
      del: word_unat_eq_iff)

lemma ex_query_chain:
  "load_chain (wk_storage (fst (handle_chain_info_query ex_worker_env ex_timeout_query ex_worker))) 1 =
     ex_multi_chain\<lparr>cs_manager := Manager_Multi ex_manager_timeout\<rparr>"
proof -
  have "ss_epoch (es_system (cs_execution_state ex_multi_chain)) = Some 0" "cs_manager ex_multi_chain = Manager_Multi ex_manager0"
    "tip_next_block_height (cs_tip_state ex_multi_chain) = 0"
    by (simp_all add: ex_multi_chain_def ex_chain_def ex_system_def chain_default_def tip_default_def)
  moreover have "wk_key_pair ex_worker = Some ex_key_pair" "we_crypto ex_worker_env = ex_crypto" "we_clock ex_worker_env n = max_value" for n
    by (simp_all add: ex_worker_def worker_new_def ex_worker_env_def)
  ultimately show ?thesis
    unfolding wp_fst [symmetric, where P = "\<lambda>s. load_chain (wk_storage s) 1 = _"]
    by (simp add: handle_chain_info_query_def ex_timeout_query_def chain_info_query_new_def vote_on_timeout_def Let_def wp_simps
        ex_worker_chain manager_vote_leader_timeout_def ex_timeout_vote)
qed

theorem worker_refines_consensus_witness:
  "\<exists>m'. cs_manager (load_chain (wk_storage (fst (handle_chain_info_query ex_worker_env ex_timeout_query ex_worker))) 1) = Manager_Multi m' \<and>
     (node_step ex_crypto (valid_for ex_crypto (committee_new [] policy_default)))\<^sup>*\<^sup>* ex_manager0 m' \<and> m' \<noteq> ex_manager0"
proof -
  let ?w = "fst (handle_chain_info_query ex_worker_env ex_timeout_query ex_worker)"
  have "worker_step ex_worker_env ex_worker ?w" by (rule step_query)
  moreover have "wk_key_pair ex_worker = Some ex_key_pair" by (simp add: ex_worker_def worker_new_def)
  moreover have "cs_manager (load_chain (wk_storage ex_worker) 1) = Manager_Multi ex_manager0"
    by (simp add: ex_worker_chain ex_multi_chain_def)
  moreover have "ex_manager_timeout \<noteq> ex_manager0"
  proof -
    obtain v where "ex_manager_timeout = ex_manager0\<lparr>mm_timeout_vote := Some v\<rparr>"
      using ex_timeout_vote [symmetric] by (auto simp: multi_vote_leader_timeout_def Let_def split: if_splits)
    then have "mm_timeout_vote ex_manager_timeout = Some v" by (rule arg_cong [THEN trans]) simp
    moreover have "mm_timeout_vote ex_manager0 = None" by (simp add: ex_manager0_def)
    ultimately show ?thesis by (metis option.distinct(1))
  qed
  ultimately show ?thesis
    using worker_refines_consensus [of ex_worker_env ex_worker ?w ex_key_pair 1 0 "committee_new [] policy_default" ex_manager0]
      ex_multi_chain_active
    by (simp add: ex_query_chain ex_worker_chain) (simp add: ex_worker_env_def)
qed

end
