(* ===== verification/Views.thy ===== *)
theory Views
  imports Batches Execution_Errors
begin

text \<open>
  What the views of \<open>linera-views\<close> share: the context with its keys, serialised reads
  (\<open>common.rs\<close>), the cached hash, and the \<open>View\<close> trait (\<open>views.rs\<close>) as a locale.

  A view lies between a store and the program: it is loaded from the store, changed in
  memory, and then either rolled back or flushed into a batch. The relation
  \<open>rep context store view persisted current\<close> of the locale says that the store holds the
  value \<open>persisted\<close> and that the program sees \<open>current\<close>. The laws of the locale are the
  contract of the trait; the lemmas proved from them are that saving and loading give back
  what the program saw, that a save leaves every other view alone, and that a structure of
  two views, as the derive macro of \<open>linera-views-derive\<close> builds it, is a view again.

  BCS and SHA3 are parameters, held by the context. The one thing that is relied upon is
  \<open>codec_ok\<close>: what was serialised can be deserialised.
\<close>

definition MIN_VIEW_TAG :: u8 where
  "MIN_VIEW_TAG = 1"

type_synonym HasherOutput = bytes

text \<open>\<open>Range<usize>\<close>\<close>

type_synonym Range = "nat \<times> nat"

record 'a Codec =
  to_bcs :: "'a \<Rightarrow> bytes"
  from_bcs :: "bytes \<Rightarrow> 'a option"

definition codec_ok :: "'a Codec \<Rightarrow> bool" where
  "codec_ok codec \<longleftrightarrow> (\<forall>x. from_bcs codec (to_bcs codec x) = Some x)"

text \<open>
  A context for views on values of type \<open>'a\<close>: the base key, the default value of the type, the
  serialisation of what such views store, and the hash function.
\<close>

record 'a Context =
  ctx_base_key :: bytes
  ctx_default :: 'a
  ctx_value :: "'a Codec"
  ctx_usize :: "nat Codec"
  ctx_range :: "Range Codec"
  ctx_hasher_output :: "HasherOutput Codec"
  ctx_vec :: "'a list \<Rightarrow> bytes"
  ctx_sha3 :: "bytes \<Rightarrow> HasherOutput"

definition context_ok :: "('a, 'b) Context_scheme \<Rightarrow> bool" where
  "context_ok context \<longleftrightarrow> codec_ok (ctx_value context) \<and> codec_ok (ctx_usize context) \<and>
     codec_ok (ctx_range context) \<and> codec_ok (ctx_hasher_output context)"

section \<open>Keys and reads\<close>

definition base_tag :: "('a, 'b) Context_scheme \<Rightarrow> u8 \<Rightarrow> bytes" where
  "base_tag context tag = ctx_base_key context @ [tag]"

definition base_tag_index :: "('a, 'b) Context_scheme \<Rightarrow> u8 \<Rightarrow> bytes \<Rightarrow> bytes" where
  "base_tag_index context tag index = ctx_base_key context @ [tag] @ index"

definition derive_tag_key :: "('a, 'b) Context_scheme \<Rightarrow> 'i Codec \<Rightarrow> u8 \<Rightarrow> 'i \<Rightarrow> bytes" where
  "derive_tag_key context codec tag index = ctx_base_key context @ [tag] @ to_bcs codec index"

definition from_bytes_opt :: "'a Codec \<Rightarrow> bytes option \<Rightarrow> (ViewError, 'a option) result" where
  "from_bytes_opt codec key_opt =
     (case key_opt of
        Some bytes \<Rightarrow> map_ok Some (ok_or (Serialization ''bcs'') (from_bcs codec bytes))
      | None \<Rightarrow> Ok None)"

definition view_read_key :: "'a Codec \<Rightarrow> kv_store \<Rightarrow> bytes \<Rightarrow> (ViewError, 'a option) result" where
  "view_read_key codec store key = from_bytes_opt codec (read_key_bytes store key)"

definition view_read_multi_key ::
    "'a Codec \<Rightarrow> kv_store \<Rightarrow> bytes list \<Rightarrow> (ViewError, 'a option list) result" where
  "view_read_multi_key codec store keys =
     try_fold (\<lambda>values entry. map_ok (\<lambda>v. values @ [v]) (from_bytes_opt codec entry))
       [] (read_multi_key_bytes store keys)"

text \<open>
  \<open>read_context\<close>, the same in the log and in the queue: the values stored under a range of
  indices.
\<close>

definition read_context ::
    "('a, 'b) Context_scheme \<Rightarrow> u8 \<Rightarrow> kv_store \<Rightarrow> Range \<Rightarrow> (ViewError, 'a list) result" where
  "read_context context tag store indices =
     (let keys = map (derive_tag_key context (ctx_usize context) tag) [fst indices..<snd indices]
      in and_then (view_read_multi_key (ctx_value context) store keys) (\<lambda>entries.
         try_fold (\<lambda>values entry. case entry of None \<Rightarrow> Err MissingEntries | Some v \<Rightarrow> Ok (values @ [v]))
           [] entries))"

section \<open>The cached hash\<close>

text \<open>The last step of every \<open>flush\<close>, and the body of \<open>hash_mut\<close> and \<open>hash\<close>.\<close>

definition flush_hash ::
    "('a, 'b) Context_scheme \<Rightarrow> u8 \<Rightarrow> HasherOutput option \<Rightarrow> HasherOutput option \<Rightarrow> Batch" where
  "flush_hash context tag stored_hash hash =
     (if stored_hash \<noteq> hash
      then let key = base_tag context tag
           in case hash of
                None \<Rightarrow> [Delete key]
              | Some hash \<Rightarrow> [Put key (to_bcs (ctx_hasher_output context) hash)]
      else [])"

definition cached_hash ::
    "HasherOutput option \<Rightarrow> (ViewError, HasherOutput) result \<Rightarrow> (ViewError, HasherOutput) result" where
  "cached_hash hash compute_hash = (case hash of Some hash \<Rightarrow> Ok hash | None \<Rightarrow> compute_hash)"

text \<open>
  The part of the relation between store and view that concerns the hash: a hash that is kept,
  in memory or in the store, is the hash of what it is kept for, and the store has none that
  the view does not know.
\<close>

definition hash_rep ::
    "('a, 'b) Context_scheme \<Rightarrow> u8 \<Rightarrow> kv_store \<Rightarrow> HasherOutput option \<Rightarrow> HasherOutput option \<Rightarrow>
     HasherOutput \<Rightarrow> HasherOutput \<Rightarrow> bool" where
  "hash_rep context tag store stored_hash hash persisted current \<longleftrightarrow>
     btree_get store (base_tag context tag) \<in>
       {None, map_option (to_bcs (ctx_hasher_output context)) stored_hash} \<and>
     stored_hash \<in> {None, Some persisted} \<and> hash \<in> {None, Some current}"

section \<open>The trait\<close>

fun operation_key :: "WriteOperation \<Rightarrow> bytes" where
  "operation_key (Delete key) = key"
| "operation_key (DeletePrefix key_prefix) = key_prefix"
| "operation_key (Put key v) = key"

definition within :: "bytes \<Rightarrow> Batch \<Rightarrow> bool" where
  "within base_key batch \<longleftrightarrow> list_all (\<lambda>operation. prefix base_key (operation_key operation)) batch"

definition agree_on :: "bytes \<Rightarrow> kv_store \<Rightarrow> kv_store \<Rightarrow> bool" where
  "agree_on base_key store store' \<longleftrightarrow>
     (\<forall>key. prefix base_key key \<longrightarrow> btree_get store key = btree_get store' key)"

text \<open>\<open>View::delete\<close>, the same for every view.\<close>

definition view_delete :: "bytes \<Rightarrow> Batch" where
  "view_delete base_key = [DeletePrefix base_key]"

lemma agree_on_prefix: "prefix p q \<Longrightarrow> agree_on p store store' \<Longrightarrow> agree_on q store store'"
  by (auto simp: agree_on_def intro: prefix_order.trans)

lemma within_append [simp]: "within p (b @ b') \<longleftrightarrow> within p b \<and> within p b'"
  by (simp add: within_def)

lemma within_prefix: "prefix p q \<Longrightarrow> within q b \<Longrightarrow> within p b"
  by (auto simp: within_def list_all_iff intro: prefix_order.trans)

lemma write_batch_wf [simp]: "btree_wf store \<Longrightarrow> btree_wf (write_batch b store)"
  unfolding write_batch_def by (induction b arbitrary: store) auto

lemma write_batch_append [simp]: "write_batch (b @ b') store = write_batch b' (write_batch b store)"
  by (simp add: write_batch_def)

lemma untouched_within: "within p b \<Longrightarrow> \<not> prefix p k \<Longrightarrow> op \<in> set b \<Longrightarrow> \<not> touches op k"
  by (cases op) (auto simp: within_def list_all_iff dest: prefix_order.trans)

lemma write_within:
  assumes "btree_wf store" and "within p b" and "p \<parallel> q"
  shows "agree_on q store (write_batch b store)"
proof -
  have "\<not> prefix p k" if "prefix q k" for k
    using that assms(3) prefix_same_cases by (auto simp: parallel_def)
  then show ?thesis
    using assms(1,2) by (auto simp: agree_on_def write_batch_get fold_effect_untouched untouched_within)
qed

lemma write_within_get:
  "btree_wf store \<Longrightarrow> within p b \<Longrightarrow> \<not> prefix p k \<Longrightarrow> btree_get (write_batch b store) k = btree_get store k"
  by (simp add: write_batch_get fold_effect_untouched untouched_within)

subsection \<open>Keys of one view\<close>

lemma prefix_base_tag [simp]:
  "prefix (ctx_base_key context) (base_tag context tag)"
  "prefix (ctx_base_key context) (derive_tag_key context codec tag index)"
  "prefix (ctx_base_key context) (base_tag_index context tag key)"
  by (simp_all add: base_tag_def derive_tag_key_def base_tag_index_def)

lemma prefix_tag_iff [simp]:
  "prefix (base_tag context tag) (base_tag context tag') \<longleftrightarrow> tag = tag'"
  "prefix (base_tag context tag) (derive_tag_key context codec tag' index) \<longleftrightarrow> tag = tag'"
  "prefix (base_tag context tag) (base_tag_index context tag' key) \<longleftrightarrow> tag = tag'"
  by (simp_all add: base_tag_def derive_tag_key_def base_tag_index_def)

lemma tag_key_eq_iff [simp]:
  "base_tag context tag = base_tag context tag' \<longleftrightarrow> tag = tag'"
  "base_tag_index context tag key = base_tag_index context tag' key' \<longleftrightarrow> tag = tag' \<and> key = key'"
  by (simp_all add: base_tag_def base_tag_index_def)

lemma codec_ok_inj [simp]: "codec_ok codec \<Longrightarrow> to_bcs codec x = to_bcs codec y \<longleftrightarrow> x = y"
  by (metis codec_ok_def option.inject)

lemma derive_tag_key_eq_iff [simp]:
  "codec_ok codec \<Longrightarrow> derive_tag_key context codec tag i = derive_tag_key context codec tag' j \<longleftrightarrow> tag = tag' \<and> i = j"
  by (simp add: derive_tag_key_def)

lemma derive_tag_key_neq [simp]:
  "tag \<noteq> tag' \<Longrightarrow> derive_tag_key context codec tag i \<noteq> base_tag context tag'"
  "tag \<noteq> tag' \<Longrightarrow> base_tag context tag' \<noteq> derive_tag_key context codec tag i"
  by (simp_all add: derive_tag_key_def base_tag_def)

lemma from_bytes_opt_simps [simp]:
  "from_bytes_opt codec None = Ok None"
  "codec_ok codec \<Longrightarrow> from_bytes_opt codec (Some (to_bcs codec x)) = Ok (Some x)"
  by (simp_all add: from_bytes_opt_def codec_ok_def)

lemma from_bytes_opt_map [simp]: "codec_ok codec \<Longrightarrow> from_bytes_opt codec (map_option (to_bcs codec) x) = Ok x"
  by (cases x) simp_all

lemma try_fold_Ok_map:
  "\<forall>x \<in> set xs. \<forall>acc. f acc (h x) = Ok (acc @ [g x]) \<Longrightarrow> try_fold f acc (map h xs) = Ok (acc @ map g xs)"
  by (induction xs arbitrary: acc) simp_all

lemma view_read_multi_key_Ok:
  "codec_ok codec \<Longrightarrow> \<forall>i \<in> set indices. btree_get store (key i) = map_option (to_bcs codec) (g i) \<Longrightarrow>
   view_read_multi_key codec store (map key indices) = Ok (map g indices)"
  unfolding view_read_multi_key_def read_multi_key_bytes_def map_map
  by (subst try_fold_Ok_map [where g = g]) simp_all

subsection \<open>The hash\<close>

lemma flush_hash_get:
  "btree_wf store \<Longrightarrow> k \<noteq> base_tag context tag \<Longrightarrow>
   btree_get (write_batch (flush_hash context tag stored_hash hash) store) k = btree_get store k"
  by (auto simp: write_batch_get flush_hash_def effect_def Let_def split: option.splits)

lemma flush_hash_within: "within (ctx_base_key context) (flush_hash context tag stored_hash hash)"
  by (simp add: flush_hash_def within_def Let_def split: option.splits)

lemma hash_rep_flush:
  assumes "btree_wf store" and "hash_rep context tag store stored_hash hash persisted current"
  shows "hash_rep context tag (write_batch (flush_hash context tag stored_hash hash) store) hash hash current current"
  using assms
  by (cases "stored_hash = hash") (auto simp: hash_rep_def write_batch_get flush_hash_def effect_def Let_def split: option.splits)

lemma hash_rep_store:
  "hash_rep context tag store stored_hash hash persisted current \<Longrightarrow>
   btree_get store' (base_tag context tag) \<in> {None, btree_get store (base_tag context tag)} \<Longrightarrow>
   hash_rep context tag store' stored_hash hash persisted current"
  by (auto simp: hash_rep_def)

lemma hash_rep_reset:
  "hash_rep context tag store stored_hash hash persisted current \<Longrightarrow>
   hash_rep context tag store stored_hash None persisted current'"
  "hash_rep context tag store stored_hash hash persisted current \<Longrightarrow>
   hash_rep context tag store stored_hash stored_hash persisted persisted"
  by (auto simp: hash_rep_def)

lemma hash_rep_load:
  assumes "hash_rep context tag store stored_hash hash persisted current" and "codec_ok (ctx_hasher_output context)"
  obtains h where "from_bytes_opt (ctx_hasher_output context) (btree_get store (base_tag context tag)) = Ok h"
    and "hash_rep context tag store h h persisted persisted"
  using assms by (auto simp: hash_rep_def)

subsection \<open>Values under consecutive indices\<close>

definition stored_at :: "('a, 'b) Context_scheme \<Rightarrow> u8 \<Rightarrow> kv_store \<Rightarrow> nat \<Rightarrow> 'a list \<Rightarrow> bool" where
  "stored_at context tag store start ys \<longleftrightarrow>
     (\<forall>i < length ys. btree_get store (derive_tag_key context (ctx_usize context) tag (start + i)) =
       Some (to_bcs (ctx_value context) (ys ! i)))"

lemma read_context_stored:
  assumes "context_ok context" and "stored_at context tag store start ys" and "start \<le> a" and "b \<le> start + length ys"
  shows "read_context context tag store (a, b) = Ok (take (b - a) (drop (a - start) ys))"
proof -
  let ?key = "derive_tag_key context (ctx_usize context) tag"
  have "btree_get store (?key i) = map_option (to_bcs (ctx_value context)) (Some (ys ! (i - start)))"
    if "i \<in> set [a..<b]" for i
    using assms(2) [unfolded stored_at_def, rule_format, of "i - start"] assms(3,4) that by auto
  then have "view_read_multi_key (ctx_value context) store (map ?key [a..<b]) =
      Ok (map (\<lambda>i. Some (ys ! (i - start))) [a..<b])"
    using assms(1) by (intro view_read_multi_key_Ok) (simp_all add: context_ok_def)
  moreover have "map (\<lambda>i. ys ! (i - start)) [a..<b] = take (b - a) (drop (a - start) ys)"
    using assms(3,4) by (intro nth_equalityI) auto
  ultimately show ?thesis
    by (simp add: read_context_def try_fold_Ok_map [where g = "\<lambda>i. ys ! (i - start)"] comp_def)
qed

lemma read_index_stored:
  "context_ok context \<Longrightarrow> stored_at context tag store start ys \<Longrightarrow> i < length ys \<Longrightarrow>
   view_read_key (ctx_value context) store (derive_tag_key context (ctx_usize context) tag (start + i)) = Ok (Some (ys ! i))"
  by (simp add: view_read_key_def read_key_bytes_def stored_at_def context_ok_def)

text \<open>The loop of \<open>flush\<close> that appends the new values of a log or a queue.\<close>

definition put_values ::
    "('a, 'b) Context_scheme \<Rightarrow> u8 \<Rightarrow> 'a list \<Rightarrow> Batch \<Rightarrow> nat \<Rightarrow> Batch \<times> nat" where
  "put_values context tag vs batch index =
     fold (\<lambda>v (batch, index). (batch @ [Put (derive_tag_key context (ctx_usize context) tag index)
         (to_bcs (ctx_value context) v)], index + 1)) vs (batch, index)"

lemma put_values_Nil [simp]: "put_values context tag [] batch index = (batch, index)"
  by (simp add: put_values_def)

lemma put_values_Cons [simp]:
  "put_values context tag (v # vs) batch index =
     put_values context tag vs
       (batch @ [Put (derive_tag_key context (ctx_usize context) tag index) (to_bcs (ctx_value context) v)]) (index + 1)"
  by (simp add: put_values_def)

lemma put_values_batch:
  "put_values context tag vs batch index = (batch @ fst (put_values context tag vs [] index), index + length vs)"
proof (induction vs arbitrary: batch index)
  case (Cons v vs)
  show ?case
    using Cons [of "batch @ [_]" "index + 1"] Cons [of "[_]" "index + 1"] by (simp only: put_values_Cons) simp
qed simp

lemma put_values_snd [simp]: "snd (put_values context tag vs batch index) = index + length vs"
  by (subst put_values_batch) simp

lemma put_values_fst [simp]:
  "fst (put_values context tag vs (operation # batch) index) =
     (operation # batch) @ fst (put_values context tag vs [] index)"
  by (subst put_values_batch) simp

lemma put_values_within: "within (base_tag context tag) (fst (put_values context tag vs [] index))"
proof (induction vs arbitrary: index)
  case (Cons v vs)
  then show ?case
    by (subst put_values_Cons, subst put_values_batch) (simp add: within_def)
qed (simp add: within_def)

lemma stored_at_put_values:
  "btree_wf store \<Longrightarrow> context_ok context \<Longrightarrow> stored_at context tag store start ys \<Longrightarrow> index = start + length ys \<Longrightarrow>
   stored_at context tag (write_batch (fst (put_values context tag vs [] index)) store) start (ys @ vs)"
proof (induction vs arbitrary: store ys index)
  case (Cons v vs)
  let ?put = "Put (derive_tag_key context (ctx_usize context) tag index) (to_bcs (ctx_value context) v)"
  have "stored_at context tag (write_batch [?put] store) start (ys @ [v])"
    using Cons.prems by (auto simp: stored_at_def write_batch_get effect_def nth_append context_ok_def less_Suc_eq)
  then have "stored_at context tag (write_batch (fst (put_values context tag vs [] (index + 1)))
      (write_batch [?put] store)) start ((ys @ [v]) @ vs)"
    using Cons.prems by (intro Cons.IH) simp_all
  then show ?case
    by (simp only: put_values_Cons) (subst put_values_batch, simp add: write_batch_def)
qed (simp add: write_batch_def)

lemma stored_at_store:
  "stored_at context tag store start ys \<Longrightarrow> agree_on (base_tag context tag) store store' \<Longrightarrow>
   stored_at context tag store' start ys"
  by (simp add: stored_at_def agree_on_def)

text \<open>
  The contract. \<open>base_of\<close> gives the base key of a context, \<open>usable\<close> what a view asks of its
  context, and \<open>blank\<close> the value of a view that was never written.
\<close>

locale persistent_view =
  fixes rep :: "'x \<Rightarrow> kv_store \<Rightarrow> 'v \<Rightarrow> 'c \<Rightarrow> 'c \<Rightarrow> bool"
    and base_of :: "'x \<Rightarrow> bytes"
    and usable :: "'x \<Rightarrow> bool"
    and blank :: "'x \<Rightarrow> 'c"
    and load :: "'x \<Rightarrow> kv_store \<Rightarrow> (ViewError, 'v) result"
    and rollback :: "'v \<Rightarrow> 'v"
    and clear :: "'x \<Rightarrow> 'v \<Rightarrow> 'v"
    and flush :: "'x \<Rightarrow> 'v \<Rightarrow> 'v \<times> Batch"
  assumes rep_load: "rep x store v ys xs \<Longrightarrow> \<exists>v'. load x store = Ok v' \<and> rep x store v' ys ys"
    and rep_fresh: "usable x \<Longrightarrow> \<forall>key. prefix (base_of x) key \<longrightarrow> btree_get store key = None \<Longrightarrow>
      \<exists>v. load x store = Ok v \<and> rep x store v (blank x) (blank x)"
    and rep_rollback: "rep x store v ys xs \<Longrightarrow> rep x store (rollback v) ys ys"
    and rep_clear: "rep x store v ys xs \<Longrightarrow> rep x store (clear x v) ys (blank x)"
    and rep_flush: "btree_wf store \<Longrightarrow> rep x store v ys xs \<Longrightarrow>
      rep x (write_batch (snd (flush x v)) store) (fst (flush x v)) xs xs"
    and flush_within: "within (base_of x) (snd (flush x v))"
    and rep_local: "agree_on (base_of x) store store' \<Longrightarrow> rep x store v ys xs \<Longrightarrow> rep x store' v ys xs"
    and rep_usable: "rep x store v ys xs \<Longrightarrow> usable x"
begin

text \<open>Saving and loading give back what the program saw.\<close>

lemma save_then_load:
  assumes "btree_wf store" and "rep x store v ys xs"
  obtains w where "load x (write_batch (snd (flush x v)) store) = Ok w"
    and "rep x (write_batch (snd (flush x v)) store) w xs xs"
  using rep_load [OF rep_flush [OF assms]] by blast

text \<open>A view is not affected by what is written elsewhere.\<close>

lemma rep_elsewhere:
  "btree_wf store \<Longrightarrow> rep x store v ys xs \<Longrightarrow> within p b \<Longrightarrow> p \<parallel> base_of x \<Longrightarrow>
   rep x (write_batch b store) v ys xs"
  by (blast intro: rep_local write_within)

text \<open>A deleted view is loaded as if it had never been written.\<close>

lemma load_deleted:
  assumes "btree_wf store" and "usable x"
  obtains v where "load x (write_batch (view_delete (base_of x)) store) = Ok v"
    and "rep x (write_batch (view_delete (base_of x)) store) v (blank x) (blank x)"
  using rep_fresh [OF assms(2), of "write_batch (view_delete (base_of x)) store"] assms(1)
  by (auto simp: view_delete_def write_batch_get effect_def)

end

section \<open>Structures of views\<close>

text \<open>
  The code generated by the derive macro for a structure, here for two fields (more fields by
  repetition): every operation of the trait calls that of the fields in turn, on the same
  batch. Each field has a context of its own.
\<close>

definition struct_load ::
    "('x \<Rightarrow> kv_store \<Rightarrow> (ViewError, 'v) result) \<Rightarrow> ('y \<Rightarrow> kv_store \<Rightarrow> (ViewError, 'w) result) \<Rightarrow>
     'x \<times> 'y \<Rightarrow> kv_store \<Rightarrow> (ViewError, 'v \<times> 'w) result" where
  "struct_load load1 load2 contexts store =
     and_then (load1 (fst contexts) store) (\<lambda>v. map_ok (Pair v) (load2 (snd contexts) store))"

definition struct_rollback :: "('v \<Rightarrow> 'v) \<Rightarrow> ('w \<Rightarrow> 'w) \<Rightarrow> 'v \<times> 'w \<Rightarrow> 'v \<times> 'w" where
  "struct_rollback rollback1 rollback2 self = (rollback1 (fst self), rollback2 (snd self))"

definition struct_clear :: "('x \<Rightarrow> 'v \<Rightarrow> 'v) \<Rightarrow> ('y \<Rightarrow> 'w \<Rightarrow> 'w) \<Rightarrow> 'x \<times> 'y \<Rightarrow> 'v \<times> 'w \<Rightarrow> 'v \<times> 'w" where
  "struct_clear clear1 clear2 contexts self =
     (clear1 (fst contexts) (fst self), clear2 (snd contexts) (snd self))"

definition struct_flush ::
    "('x \<Rightarrow> 'v \<Rightarrow> 'v \<times> Batch) \<Rightarrow> ('y \<Rightarrow> 'w \<Rightarrow> 'w \<times> Batch) \<Rightarrow> 'x \<times> 'y \<Rightarrow> 'v \<times> 'w \<Rightarrow> ('v \<times> 'w) \<times> Batch" where
  "struct_flush flush1 flush2 contexts self =
     (let (v, batch) = flush1 (fst contexts) (fst self);
          (w, batch') = flush2 (snd contexts) (snd self)
      in ((v, w), batch @ batch'))"

text \<open>\<open>RootView::save\<close>\<close>

definition save_view :: "('x \<Rightarrow> 'v \<Rightarrow> 'v \<times> Batch) \<Rightarrow> 'x \<Rightarrow> 'v \<Rightarrow> kv_store \<Rightarrow> 'v \<times> kv_store" where
  "save_view flush context self store =
     (let (self, batch) = flush context self in (self, write_batch batch store))"

definition struct_rep ::
    "('x \<Rightarrow> kv_store \<Rightarrow> 'v \<Rightarrow> 'c \<Rightarrow> 'c \<Rightarrow> bool) \<Rightarrow> ('y \<Rightarrow> kv_store \<Rightarrow> 'w \<Rightarrow> 'd \<Rightarrow> 'd \<Rightarrow> bool) \<Rightarrow>
     ('x \<Rightarrow> bytes) \<Rightarrow> ('y \<Rightarrow> bytes) \<Rightarrow> 'x \<times> 'y \<Rightarrow> kv_store \<Rightarrow> 'v \<times> 'w \<Rightarrow> 'c \<times> 'd \<Rightarrow> 'c \<times> 'd \<Rightarrow> bool" where
  "struct_rep rep1 rep2 base1 base2 contexts store self persisted current \<longleftrightarrow>
     rep1 (fst contexts) store (fst self) (fst persisted) (fst current) \<and>
     rep2 (snd contexts) store (snd self) (snd persisted) (snd current) \<and>
     base1 (fst contexts) \<parallel> base2 (snd contexts)"

definition struct_base :: "('x \<Rightarrow> bytes) \<Rightarrow> ('y \<Rightarrow> bytes) \<Rightarrow> 'x \<times> 'y \<Rightarrow> bytes" where
  "struct_base base1 base2 contexts = longest_common_prefix (base1 (fst contexts)) (base2 (snd contexts))"

definition struct_usable ::
    "('x \<Rightarrow> bytes) \<Rightarrow> ('y \<Rightarrow> bytes) \<Rightarrow> ('x \<Rightarrow> bool) \<Rightarrow> ('y \<Rightarrow> bool) \<Rightarrow> 'x \<times> 'y \<Rightarrow> bool" where
  "struct_usable base1 base2 usable1 usable2 contexts \<longleftrightarrow>
     usable1 (fst contexts) \<and> usable2 (snd contexts) \<and> base1 (fst contexts) \<parallel> base2 (snd contexts)"

definition struct_blank :: "('x \<Rightarrow> 'c) \<Rightarrow> ('y \<Rightarrow> 'd) \<Rightarrow> 'x \<times> 'y \<Rightarrow> 'c \<times> 'd" where
  "struct_blank blank1 blank2 contexts = (blank1 (fst contexts), blank2 (snd contexts))"

lemmas struct_defs = struct_load_def struct_rollback_def struct_clear_def struct_flush_def struct_rep_def
  struct_base_def struct_usable_def struct_blank_def

locale two_views =
  first_view: persistent_view rep1 base1 usable1 blank1 load1 rollback1 clear1 flush1 +
  second_view: persistent_view rep2 base2 usable2 blank2 load2 rollback2 clear2 flush2
  for rep1 :: "'x \<Rightarrow> kv_store \<Rightarrow> 'v \<Rightarrow> 'c \<Rightarrow> 'c \<Rightarrow> bool"
    and base1 usable1 blank1 load1 rollback1 clear1 flush1
    and rep2 :: "'y \<Rightarrow> kv_store \<Rightarrow> 'w \<Rightarrow> 'd \<Rightarrow> 'd \<Rightarrow> bool"
    and base2 usable2 blank2 load2 rollback2 clear2 flush2
begin

lemma struct_base_prefix:
  "prefix (struct_base base1 base2 x) (base1 (fst x))" "prefix (struct_base base1 base2 x) (base2 (snd x))"
  by (simp_all add: struct_base_def longest_common_prefix_prefix1 longest_common_prefix_prefix2)

lemma struct_rep_flush:
  assumes wf: "btree_wf store" and rep: "struct_rep rep1 rep2 base1 base2 x store v ys xs"
  shows "struct_rep rep1 rep2 base1 base2 x (write_batch (snd (struct_flush flush1 flush2 x v)) store)
    (fst (struct_flush flush1 flush2 x v)) xs xs"
proof -
  let ?first = "flush1 (fst x) (fst v)" and ?second = "flush2 (snd x) (snd v)"
  let ?store = "write_batch (snd ?first) store"
  have r: "rep1 (fst x) store (fst v) (fst ys) (fst xs)" "rep2 (snd x) store (snd v) (snd ys) (snd xs)"
    "base1 (fst x) \<parallel> base2 (snd x)"
    using rep by (simp_all add: struct_rep_def)
  have "rep1 (fst x) ?store (fst ?first) (fst xs) (fst xs)"
    using first_view.rep_flush [OF wf r(1)] .
  then have "rep1 (fst x) (write_batch (snd ?second) ?store) (fst ?first) (fst xs) (fst xs)"
    using wf second_view.flush_within parallel_commute r(3) by (blast intro: first_view.rep_elsewhere write_batch_wf)
  moreover have "rep2 (snd x) ?store (snd v) (snd ys) (snd xs)"
    using second_view.rep_elsewhere [OF wf r(2) first_view.flush_within r(3)] .
  then have "rep2 (snd x) (write_batch (snd ?second) ?store) (fst ?second) (snd xs) (snd xs)"
    using wf by (blast intro: second_view.rep_flush write_batch_wf)
  ultimately show ?thesis
    using r(3) by (simp add: struct_rep_def struct_flush_def case_prod_beta)
qed

end

sublocale two_views < struct: persistent_view "struct_rep rep1 rep2 base1 base2" "struct_base base1 base2"
  "struct_usable base1 base2 usable1 usable2" "struct_blank blank1 blank2" "struct_load load1 load2"
  "struct_rollback rollback1 rollback2" "struct_clear clear1 clear2" "struct_flush flush1 flush2"
proof
  fix x store v ys xs
  assume rep: "struct_rep rep1 rep2 base1 base2 x store v ys xs"
  then show "\<exists>v'. struct_load load1 load2 x store = Ok v' \<and> struct_rep rep1 rep2 base1 base2 x store v' ys ys"
    using first_view.rep_load second_view.rep_load by (fastforce simp: struct_rep_def struct_load_def)
  show "struct_rep rep1 rep2 base1 base2 x store (struct_rollback rollback1 rollback2 v) ys ys"
    using rep first_view.rep_rollback second_view.rep_rollback by (fastforce simp: struct_rep_def struct_rollback_def)
  show "struct_rep rep1 rep2 base1 base2 x store (struct_clear clear1 clear2 x v) ys (struct_blank blank1 blank2 x)"
    using rep first_view.rep_clear second_view.rep_clear
    by (fastforce simp: struct_rep_def struct_clear_def struct_blank_def)
  show "struct_usable base1 base2 usable1 usable2 x"
    using rep first_view.rep_usable second_view.rep_usable by (auto simp: struct_rep_def struct_usable_def)
next
  fix x and store :: kv_store
  assume usable: "struct_usable base1 base2 usable1 usable2 x"
    and none: "\<forall>key. prefix (struct_base base1 base2 x) key \<longrightarrow> btree_get store key = None"
  have "\<forall>key. prefix (base1 (fst x)) key \<longrightarrow> btree_get store key = None"
    "\<forall>key. prefix (base2 (snd x)) key \<longrightarrow> btree_get store key = None"
    using none struct_base_prefix prefix_order.trans by blast+
  then have "\<exists>v. load1 (fst x) store = Ok v \<and> rep1 (fst x) store v (blank1 (fst x)) (blank1 (fst x))"
    "\<exists>w. load2 (snd x) store = Ok w \<and> rep2 (snd x) store w (blank2 (snd x)) (blank2 (snd x))"
    using usable first_view.rep_fresh second_view.rep_fresh by (simp_all add: struct_usable_def)
  then show "\<exists>v. struct_load load1 load2 x store = Ok v \<and>
      struct_rep rep1 rep2 base1 base2 x store v (struct_blank blank1 blank2 x) (struct_blank blank1 blank2 x)"
    using usable by (auto simp: struct_defs)
next
  fix x v
  show "within (struct_base base1 base2 x) (snd (struct_flush flush1 flush2 x v))"
    using within_prefix [OF struct_base_prefix(1) first_view.flush_within]
      within_prefix [OF struct_base_prefix(2) second_view.flush_within]
    by (simp add: struct_flush_def case_prod_beta)
next
  fix x store store' v ys xs
  assume agree: "agree_on (struct_base base1 base2 x) store store'"
    and rep: "struct_rep rep1 rep2 base1 base2 x store v ys xs"
  show "struct_rep rep1 rep2 base1 base2 x store' v ys xs"
    using rep agree_on_prefix [OF struct_base_prefix(1) agree] agree_on_prefix [OF struct_base_prefix(2) agree]
      first_view.rep_local second_view.rep_local by (auto simp: struct_rep_def)
qed (use struct_rep_flush in blast)

end
