(* ===== verification/Register_View.thy ===== *)
theory Register_View
  imports Views
begin

text \<open>
  \<open>RegisterView\<close> (\<open>register_view.rs\<close>): a single value. The view refines a variable, and it is a
  \<open>persistent_view\<close>.
\<close>

datatype RegisterKeyTag = Register_Value | Register_Hash

fun register_tag :: "RegisterKeyTag \<Rightarrow> u8" where
  "register_tag Register_Value = MIN_VIEW_TAG"
| "register_tag Register_Hash = MIN_VIEW_TAG + 1"

record 'a RegisterView =
  rv_stored_value :: 'a
  rv_update :: "'a option"
  rv_stored_hash :: "HasherOutput option"
  rv_hash :: "HasherOutput option"

definition register_load :: "'a Context \<Rightarrow> kv_store \<Rightarrow> (ViewError, 'a RegisterView) result" where
  "register_load context store =
     (let key1 = base_tag context (register_tag Register_Value);
          key2 = base_tag context (register_tag Register_Hash);
          values_bytes = read_multi_key_bytes store [key1, key2]
      in and_then (from_bytes_opt (ctx_value context) (values_bytes ! 0)) (\<lambda>stored_value.
         and_then (from_bytes_opt (ctx_hasher_output context) (values_bytes ! 1)) (\<lambda>hash.
         Ok \<lparr>rv_stored_value = (case stored_value of Some v \<Rightarrow> v | None \<Rightarrow> ctx_default context),
             rv_update = None, rv_stored_hash = hash, rv_hash = hash\<rparr>)))"

definition register_rollback :: "'a RegisterView \<Rightarrow> 'a RegisterView" where
  "register_rollback self = self\<lparr>rv_update := None, rv_hash := rv_stored_hash self\<rparr>"

definition register_flush :: "'a Context \<Rightarrow> 'a RegisterView \<Rightarrow> 'a RegisterView \<times> Batch" where
  "register_flush context self =
     (let (self, batch) =
            (case rv_update self of
               Some v \<Rightarrow>
                 (self\<lparr>rv_update := None, rv_stored_value := v\<rparr>,
                  [Put (base_tag context (register_tag Register_Value)) (to_bcs (ctx_value context) v)])
             | None \<Rightarrow> (self, []))
      in (self\<lparr>rv_stored_hash := rv_hash self\<rparr>,
          batch @ flush_hash context (register_tag Register_Hash) (rv_stored_hash self) (rv_hash self)))"

definition register_clear :: "'a Context \<Rightarrow> 'a RegisterView \<Rightarrow> 'a RegisterView" where
  "register_clear context self = self\<lparr>rv_update := Some (ctx_default context), rv_hash := None\<rparr>"

definition register_get :: "'a RegisterView \<Rightarrow> 'a" where
  "register_get self = (case rv_update self of None \<Rightarrow> rv_stored_value self | Some v \<Rightarrow> v)"

definition register_set :: "'a \<Rightarrow> 'a RegisterView \<Rightarrow> 'a RegisterView" where
  "register_set v self = self\<lparr>rv_update := Some v, rv_hash := None\<rparr>"

text \<open>\<open>get_mut\<close>, with what the caller does through the reference as \<open>f\<close>.\<close>

definition register_get_mut :: "('a \<Rightarrow> 'a) \<Rightarrow> 'a RegisterView \<Rightarrow> 'a RegisterView" where
  "register_get_mut f self =
     (let self = self\<lparr>rv_hash := None\<rparr>
      in case rv_update self of
           Some v \<Rightarrow> self\<lparr>rv_update := Some (f v)\<rparr>
         | None \<Rightarrow> self\<lparr>rv_update := Some (f (rv_stored_value self))\<rparr>)"

definition register_compute_hash :: "'a Context \<Rightarrow> 'a RegisterView \<Rightarrow> HasherOutput" where
  "register_compute_hash context self = ctx_sha3 context (to_bcs (ctx_value context) (register_get self))"

definition register_hash_mut ::
    "'a Context \<Rightarrow> 'a RegisterView \<Rightarrow> (ViewError, 'a RegisterView \<times> HasherOutput) result" where
  "register_hash_mut context self =
     map_ok (\<lambda>hash. (self\<lparr>rv_hash := Some hash\<rparr>, hash))
       (cached_hash (rv_hash self) (Ok (register_compute_hash context self)))"

section \<open>The view as a variable\<close>

definition register_digest :: "'a Context \<Rightarrow> 'a \<Rightarrow> HasherOutput" where
  "register_digest context x = ctx_sha3 context (to_bcs (ctx_value context) x)"

definition register_rep :: "'a Context \<Rightarrow> kv_store \<Rightarrow> 'a RegisterView \<Rightarrow> 'a \<Rightarrow> 'a \<Rightarrow> bool" where
  "register_rep context store self y x \<longleftrightarrow>
     context_ok context \<and>
     (btree_get store (base_tag context (register_tag Register_Value)) = Some (to_bcs (ctx_value context) y) \<or>
      btree_get store (base_tag context (register_tag Register_Value)) = None \<and> y = ctx_default context) \<and>
     rv_stored_value self = y \<and> register_get self = x \<and>
     hash_rep context (register_tag Register_Hash) store (rv_stored_hash self) (rv_hash self)
       (register_digest context y) (register_digest context x)"

lemma register_tag_eq_iff [simp]: "register_tag tag = register_tag tag' \<longleftrightarrow> tag = tag'"
  by (cases tag; cases tag') (simp_all add: MIN_VIEW_TAG_def)

declare register_tag.simps [simp del]

lemma register_rep_get: "register_rep context store self y x \<Longrightarrow> register_get self = x"
  by (simp add: register_rep_def)

lemma register_rep_set: "register_rep context store self y x \<Longrightarrow> register_rep context store (register_set v self) y v"
  by (auto simp: register_rep_def register_set_def register_get_def intro: hash_rep_reset(1))

lemma register_rep_get_mut:
  "register_rep context store self y x \<Longrightarrow> register_rep context store (register_get_mut f self) y (f x)"
  by (auto simp: register_rep_def register_get_mut_def register_get_def Let_def intro: hash_rep_reset(1) split: option.splits)

lemma register_rep_hash:
  assumes "register_rep context store self y x"
  obtains self' where "register_hash_mut context self = Ok (self', register_digest context x)"
    and "register_rep context store self' y x"
  using assms
  by (auto simp: register_rep_def register_hash_mut_def cached_hash_def register_compute_hash_def register_digest_def
      register_get_def hash_rep_def split: option.splits)

lemma register_rep_load:
  assumes "register_rep context store self y x"
  shows "\<exists>self'. register_load context store = Ok self' \<and> register_rep context store self' y y"
proof -
  obtain h where "from_bytes_opt (ctx_hasher_output context)
      (btree_get store (base_tag context (register_tag Register_Hash))) = Ok h"
    "hash_rep context (register_tag Register_Hash) store h h (register_digest context y) (register_digest context y)"
    using assms by (auto simp: register_rep_def context_ok_def elim: hash_rep_load)
  then show ?thesis
    using assms
    by (auto simp: register_load_def register_rep_def register_get_def context_ok_def read_multi_key_bytes_def)
qed

lemma register_rep_flush:
  assumes "btree_wf store" and rep: "register_rep context store self y x"
  shows "register_rep context (write_batch (snd (register_flush context self)) store) (fst (register_flush context self)) x x"
proof -
  let ?val = "base_tag context (register_tag Register_Value)" and ?hash = "register_tag Register_Hash"
  let ?batch = "case rv_update self of Some v \<Rightarrow> [Put ?val (to_bcs (ctx_value context) v)] | None \<Rightarrow> []"
  let ?flush = "flush_hash context ?hash (rv_stored_hash self) (rv_hash self)"
  have flush: "register_flush context self =
      (self\<lparr>rv_update := None, rv_stored_value := x, rv_stored_hash := rv_hash self\<rparr>, ?batch @ ?flush)"
    using rep by (cases self) (auto simp: register_flush_def register_rep_def register_get_def split: option.splits)
  have "hash_rep context ?hash (write_batch ?batch store) (rv_stored_hash self) (rv_hash self)
      (register_digest context y) (register_digest context x)"
    using rep assms(1) unfolding register_rep_def
    by - (rule hash_rep_store [where store = store], simp_all add: write_batch_get effect_def split: option.splits)
  then have "hash_rep context ?hash (write_batch (?batch @ ?flush) store) (rv_hash self) (rv_hash self)
      (register_digest context x) (register_digest context x)"
    using hash_rep_flush assms(1) by (simp only: write_batch_append) (blast intro: write_batch_wf)
  moreover have "btree_get (write_batch (?batch @ ?flush) store) ?val = btree_get (write_batch ?batch store) ?val"
    using assms(1) by (simp only: write_batch_append) (intro flush_hash_get write_batch_wf, simp_all)
  ultimately show ?thesis
    using rep assms(1) unfolding flush
    by (auto simp: register_rep_def register_get_def write_batch_get effect_def split: option.splits)
qed

interpretation register: persistent_view register_rep ctx_base_key context_ok ctx_default register_load register_rollback
  register_clear register_flush
proof
  fix x :: "'a Context" and store and v :: "'a RegisterView" and ys xs
  assume rep: "register_rep x store v ys xs"
  show "\<exists>v'. register_load x store = Ok v' \<and> register_rep x store v' ys ys" using rep by (rule register_rep_load)
  show "register_rep x store (register_rollback v) ys ys"
    using rep by (auto simp: register_rep_def register_rollback_def register_get_def intro: hash_rep_reset(2))
  show "register_rep x store (register_clear x v) ys (ctx_default x)"
    using rep by (auto simp: register_rep_def register_clear_def register_get_def intro: hash_rep_reset(1))
  show "context_ok x" using rep by (simp add: register_rep_def)
next
  fix x :: "'a Context" and store :: kv_store
  assume "context_ok x" and "\<forall>key. prefix (ctx_base_key x) key \<longrightarrow> btree_get store key = None"
  then show "\<exists>v. register_load x store = Ok v \<and> register_rep x store v (ctx_default x) (ctx_default x)"
    by (auto simp: register_load_def register_rep_def register_get_def hash_rep_def read_multi_key_bytes_def)
next
  fix x :: "'a Context" and v
  show "within (ctx_base_key x) (snd (register_flush x v))"
    by (auto simp: register_flush_def flush_hash_within within_def split: option.splits prod.splits)
       (auto simp: flush_hash_within [unfolded within_def])
next
  fix x :: "'a Context" and store store' and v :: "'a RegisterView" and ys xs
  assume "agree_on (ctx_base_key x) store store'" and "register_rep x store v ys xs"
  then show "register_rep x store' v ys xs"
    by (simp add: register_rep_def hash_rep_def agree_on_def)
qed (rule register_rep_flush)

end
