(* ===== verification/Log_View.thy ===== *)
theory Log_View
  imports Views
begin

text \<open>
  \<open>LogView\<close> (\<open>log_view.rs\<close>): an append-only log. The view refines a list, and it is a
  \<open>persistent_view\<close>.
\<close>

datatype LogKeyTag = Log_Store | Log_Index | Log_Hash

fun log_tag :: "LogKeyTag \<Rightarrow> u8" where
  "log_tag Log_Store = MIN_VIEW_TAG"
| "log_tag Log_Index = MIN_VIEW_TAG + 1"
| "log_tag Log_Hash = MIN_VIEW_TAG + 2"

record 'a LogView =
  lv_was_cleared :: bool
  lv_stored_count :: nat
  lv_new_values :: "'a list"
  lv_stored_hash :: "HasherOutput option"
  lv_hash :: "HasherOutput option"

definition log_load :: "'a Context \<Rightarrow> kv_store \<Rightarrow> (ViewError, 'a LogView) result" where
  "log_load context store =
     (let key1 = base_tag context (log_tag Log_Store);
          key2 = base_tag context (log_tag Log_Hash);
          values_bytes = read_multi_key_bytes store [key1, key2]
      in and_then (from_bytes_opt (ctx_usize context) (values_bytes ! 0)) (\<lambda>stored_count.
         and_then (from_bytes_opt (ctx_hasher_output context) (values_bytes ! 1)) (\<lambda>hash.
         Ok \<lparr>lv_was_cleared = False, lv_stored_count = (case stored_count of Some n \<Rightarrow> n | None \<Rightarrow> 0),
             lv_new_values = [], lv_stored_hash = hash, lv_hash = hash\<rparr>)))"

definition log_rollback :: "'a LogView \<Rightarrow> 'a LogView" where
  "log_rollback self = self\<lparr>lv_was_cleared := False, lv_new_values := [], lv_hash := lv_stored_hash self\<rparr>"

definition log_flush :: "'a Context \<Rightarrow> 'a LogView \<Rightarrow> 'a LogView \<times> Batch" where
  "log_flush context self =
     (let (self, batch) =
            (if lv_was_cleared self
             then let self = self\<lparr>lv_was_cleared := False\<rparr>
                  in if lv_stored_count self > 0
                     then (self\<lparr>lv_stored_count := 0\<rparr>, [DeletePrefix (ctx_base_key context)])
                     else (self, [])
             else (self, []));
          (self, batch) =
            (if lv_new_values self \<noteq> []
             then let (batch, stored_count) = put_values context (log_tag Log_Index) (lv_new_values self) batch (lv_stored_count self)
                  in (self\<lparr>lv_stored_count := stored_count, lv_new_values := []\<rparr>,
                      batch @ [Put (base_tag context (log_tag Log_Store)) (to_bcs (ctx_usize context) stored_count)])
             else (self, batch))
      in (self\<lparr>lv_stored_hash := lv_hash self\<rparr>,
          batch @ flush_hash context (log_tag Log_Hash) (lv_stored_hash self) (lv_hash self)))"

definition log_clear :: "'a Context \<Rightarrow> 'a LogView \<Rightarrow> 'a LogView" where
  "log_clear context self = self\<lparr>lv_was_cleared := True, lv_new_values := [], lv_hash := None\<rparr>"

definition log_push :: "'a \<Rightarrow> 'a LogView \<Rightarrow> 'a LogView" where
  "log_push v self = self\<lparr>lv_new_values := lv_new_values self @ [v], lv_hash := None\<rparr>"

definition log_count :: "'a LogView \<Rightarrow> nat" where
  "log_count self =
     (if lv_was_cleared self then length (lv_new_values self)
      else lv_stored_count self + length (lv_new_values self))"

text \<open>\<open>Vec::get\<close>\<close>

definition vec_get :: "'a list \<Rightarrow> nat \<Rightarrow> 'a option" where
  "vec_get xs i = (if i < length xs then Some (xs ! i) else None)"

definition log_get :: "'a Context \<Rightarrow> kv_store \<Rightarrow> 'a LogView \<Rightarrow> nat \<Rightarrow> (ViewError, 'a option) result" where
  "log_get context store self index =
     (if lv_was_cleared self then Ok (vec_get (lv_new_values self) index)
      else if index < lv_stored_count self
      then view_read_key (ctx_value context) store (derive_tag_key context (ctx_usize context) (log_tag Log_Index) index)
      else Ok (vec_get (lv_new_values self) (index - lv_stored_count self)))"

text \<open>
  \<open>multi_get\<close> collects the positions that have to be read from the store, reads them at once
  and fills them in.
\<close>

definition log_multi_get ::
    "'a Context \<Rightarrow> kv_store \<Rightarrow> 'a LogView \<Rightarrow> nat list \<Rightarrow> (ViewError, 'a option list) result" where
  "log_multi_get context store self indices =
     (if lv_was_cleared self then Ok (map (vec_get (lv_new_values self)) indices)
      else
        let (keys, positions, result) =
              fold (\<lambda>(pos, index) (keys, positions, result).
                if index < lv_stored_count self
                then (keys @ [derive_tag_key context (ctx_usize context) (log_tag Log_Index) index],
                      positions @ [pos], result @ [None])
                else (keys, positions, result @ [vec_get (lv_new_values self) (index - lv_stored_count self)]))
                (List.enumerate 0 indices) ([], [], [])
        in and_then (view_read_multi_key (ctx_value context) store keys) (\<lambda>entries.
           try_fold (\<lambda>result (pos, v). assert_that (pos < length result) (Ok (result[pos := v])))
             result (zip positions entries)))"

datatype UsizeBound = Usize_Included nat | Usize_Excluded nat | Usize_Unbounded

fun range_start :: "UsizeBound \<Rightarrow> nat" where
  "range_start (Usize_Included s) = s"
| "range_start (Usize_Excluded s) = s + 1"
| "range_start Usize_Unbounded = 0"

fun range_end :: "UsizeBound \<Rightarrow> nat \<Rightarrow> nat" where
  "range_end (Usize_Included e) n = e + 1"
| "range_end (Usize_Excluded e) n = e"
| "range_end Usize_Unbounded n = n"

definition log_view_read ::
    "'a Context \<Rightarrow> kv_store \<Rightarrow> 'a LogView \<Rightarrow> UsizeBound \<Rightarrow> UsizeBound \<Rightarrow> (ViewError, 'a list) result" where
  "log_view_read context store self start_bound end_bound =
     (let effective_stored_count = (if lv_was_cleared self then 0 else lv_stored_count self);
          stop = min (range_end end_bound (log_count self)) (log_count self);
          start = range_start start_bound
      in if start \<ge> stop then Ok []
         else if start < effective_stored_count
         then if stop \<le> effective_stored_count
              then read_context context (log_tag Log_Index) store (start, stop)
              else map_ok (\<lambda>vs. vs @ take (stop - effective_stored_count) (lv_new_values self))
                     (read_context context (log_tag Log_Index) store (start, effective_stored_count))
         else Ok (take (stop - start) (drop (start - effective_stored_count) (lv_new_values self))))"

definition log_compute_hash :: "'a Context \<Rightarrow> kv_store \<Rightarrow> 'a LogView \<Rightarrow> (ViewError, HasherOutput) result" where
  "log_compute_hash context store self =
     map_ok (\<lambda>elements. ctx_sha3 context (ctx_vec context elements))
       (log_view_read context store self Usize_Unbounded Usize_Unbounded)"

definition log_hash_mut ::
    "'a Context \<Rightarrow> kv_store \<Rightarrow> 'a LogView \<Rightarrow> (ViewError, 'a LogView \<times> HasherOutput) result" where
  "log_hash_mut context store self =
     map_ok (\<lambda>hash. (self\<lparr>lv_hash := Some hash\<rparr>, hash))
       (cached_hash (lv_hash self) (log_compute_hash context store self))"

section \<open>The view as a list\<close>

definition vec_digest :: "'a Context \<Rightarrow> 'a list \<Rightarrow> HasherOutput" where
  "vec_digest context xs = ctx_sha3 context (ctx_vec context xs)"

definition log_rep :: "'a Context \<Rightarrow> kv_store \<Rightarrow> 'a LogView \<Rightarrow> 'a list \<Rightarrow> 'a list \<Rightarrow> bool" where
  "log_rep context store self ys xs \<longleftrightarrow>
     context_ok context \<and>
     (btree_get store (base_tag context (log_tag Log_Store)) = Some (to_bcs (ctx_usize context) (length ys)) \<or>
      btree_get store (base_tag context (log_tag Log_Store)) = None \<and> ys = []) \<and>
     lv_stored_count self = length ys \<and> stored_at context (log_tag Log_Index) store 0 ys \<and>
     (if lv_was_cleared self then [] else ys) @ lv_new_values self = xs \<and>
     hash_rep context (log_tag Log_Hash) store (lv_stored_hash self) (lv_hash self)
       (vec_digest context ys) (vec_digest context xs)"

lemma log_tag_eq_iff [simp]: "log_tag tag = log_tag tag' \<longleftrightarrow> tag = tag'"
  by (cases tag; cases tag') (simp_all add: MIN_VIEW_TAG_def)

declare log_tag.simps [simp del]

lemma vec_get_append: "vec_get (xs @ ys) i = (if i < length xs then Some (xs ! i) else vec_get ys (i - length xs))"
  by (auto simp: vec_get_def nth_append)

lemma log_rep_push: "log_rep context store self ys xs \<Longrightarrow> log_rep context store (log_push v self) ys (xs @ [v])"
  by (auto simp: log_rep_def log_push_def intro: hash_rep_reset(1))

lemma log_rep_count: "log_rep context store self ys xs \<Longrightarrow> log_count self = length xs"
  by (auto simp: log_rep_def log_count_def)

lemma log_rep_get: "log_rep context store self ys xs \<Longrightarrow> log_get context store self i = Ok (vec_get xs i)"
  using read_index_stored [where start = 0]
  by (fastforce simp: log_rep_def log_get_def vec_get_append)

lemma log_rep_read:
  assumes "log_rep context store self ys xs"
  shows "log_view_read context store self start_bound end_bound =
    Ok (drop (range_start start_bound) (take (range_end end_bound (length xs)) xs))"
proof -
  let ?start = "range_start start_bound" and ?stop = "range_end end_bound (length xs)"
  have rep: "context_ok context" "lv_stored_count self = length ys"
    "stored_at context (log_tag Log_Index) store 0 ys" "(if lv_was_cleared self then [] else ys) @ lv_new_values self = xs"
    using assms(1) by (simp_all add: log_rep_def)
  have context_read: "read_context context (log_tag Log_Index) store (a, b) = Ok (take (b - a) (drop a ys))"
    if "b \<le> length ys" for a b
    using read_context_stored [OF rep(1,3)] that by simp
  have "log_view_read context store self start_bound end_bound =
      (let n = (if lv_was_cleared self then 0 else length ys); stop = min ?stop (length xs)
       in if ?start \<ge> stop then Ok []
          else if ?start < n
          then if stop \<le> n then Ok (take (stop - ?start) (drop ?start ys))
               else Ok (drop ?start ys @ take (stop - n) (lv_new_values self))
          else Ok (take (stop - ?start) (drop (?start - n) (lv_new_values self))))"
    using rep(2) by (simp add: log_view_read_def log_rep_count [OF assms(1)] context_read Let_def)
  also have "\<dots> = Ok (drop ?start (take ?stop xs))"
    using rep(4) by (auto simp: Let_def drop_take min_def take_append drop_append)
  finally show ?thesis .
qed

lemma collect_missing:
  "fold (\<lambda>(pos, index) (keys, positions, result).
       if P index then (keys @ [key index], positions @ [pos], result @ [None])
       else (keys, positions, result @ [h index]))
     (List.enumerate n indices) (ks, ps, rs) =
   (ks @ map key (filter P indices), ps @ map fst (filter (P \<circ> snd) (List.enumerate n indices)),
    rs @ map (\<lambda>i. if P i then None else h i) indices)"
  by (induction indices arbitrary: n ks ps rs) simp_all

lemma fill_missing:
  "length pre = n \<Longrightarrow>
   try_fold (\<lambda>result (pos, v). assert_that (pos < length result) (Ok (result[pos := v])))
     (pre @ map (\<lambda>i. if P i then None else h i) indices)
     (zip (map fst (filter (P \<circ> snd) (List.enumerate n indices))) (map g (filter P indices))) =
   Ok (pre @ map (\<lambda>i. if P i then g i else h i) indices)"
proof (induction indices arbitrary: n pre)
  case (Cons i indices)
  show ?case
    using Cons.IH [of "pre @ [if P i then g i else h i]" "Suc n"] Cons.prems
    by (cases "P i") (auto simp: assert_that_def)
qed simp

lemma log_rep_multi_get:
  assumes "log_rep context store self ys xs"
  shows "log_multi_get context store self indices = Ok (map (vec_get xs) indices)"
proof (cases "lv_was_cleared self")
  case False
  let ?n = "length ys" and ?h = "\<lambda>i. vec_get (lv_new_values self) (i - length ys)"
  have rep: "context_ok context" "lv_stored_count self = ?n" "stored_at context (log_tag Log_Index) store 0 ys"
    "xs = ys @ lv_new_values self"
    using assms False by (simp_all add: log_rep_def)
  have "view_read_multi_key (ctx_value context) store
      (map (derive_tag_key context (ctx_usize context) (log_tag Log_Index)) (filter (\<lambda>i. i < ?n) indices)) =
      Ok (map (\<lambda>i. Some (ys ! i)) (filter (\<lambda>i. i < ?n) indices))"
    using rep(1,3) by (intro view_read_multi_key_Ok) (auto simp: context_ok_def stored_at_def)
  then show ?thesis
    using False fill_missing [where P = "\<lambda>i. i < ?n" and h = ?h and n = 0 and pre = "[]"]
    unfolding log_multi_get_def rep(2) collect_missing by (simp add: rep(4) vec_get_append [abs_def])
qed (use assms in \<open>simp add: log_multi_get_def log_rep_def\<close>)

lemma log_rep_hash:
  assumes "log_rep context store self ys xs"
  obtains self' where "log_hash_mut context store self = Ok (self', vec_digest context xs)"
    and "log_rep context store self' ys xs"
  using assms log_rep_read [OF assms, of Usize_Unbounded Usize_Unbounded]
  by (cases "lv_hash self")
    (auto simp: log_rep_def log_hash_mut_def cached_hash_def log_compute_hash_def vec_digest_def hash_rep_def)

lemma log_rep_load:
  assumes "log_rep context store self ys xs"
  shows "\<exists>self'. log_load context store = Ok self' \<and> log_rep context store self' ys ys"
proof -
  obtain h where "from_bytes_opt (ctx_hasher_output context) (btree_get store (base_tag context (log_tag Log_Hash))) = Ok h"
    "hash_rep context (log_tag Log_Hash) store h h (vec_digest context ys) (vec_digest context ys)"
    using assms by (auto simp: log_rep_def context_ok_def elim: hash_rep_load)
  then show ?thesis
    using assms by (auto simp: log_load_def log_rep_def context_ok_def read_multi_key_bytes_def)
qed

text \<open>
  The batch of \<open>log_flush\<close> in three parts: the deletion of what was cleared, the new values with
  the new count, and the hash.
\<close>

lemma log_flush_eq:
  fixes self
  defines "clearing \<equiv> lv_was_cleared self \<and> lv_stored_count self > 0"
  defines "old \<equiv> if lv_was_cleared self then 0 else lv_stored_count self"
  shows "log_flush context self =
    (self\<lparr>lv_was_cleared := False, lv_stored_count := old + length (lv_new_values self), lv_new_values := [],
       lv_stored_hash := lv_hash self\<rparr>,
     (if clearing then [DeletePrefix (ctx_base_key context)] else []) @
     (if lv_new_values self = [] then []
      else fst (put_values context (log_tag Log_Index) (lv_new_values self) [] old) @
        [Put (base_tag context (log_tag Log_Store)) (to_bcs (ctx_usize context) (old + length (lv_new_values self)))]) @
     flush_hash context (log_tag Log_Hash) (lv_stored_hash self) (lv_hash self))"
  unfolding clearing_def old_def
  by (simp add: log_flush_def Let_def case_prod_beta)

definition log_layout :: "'a Context \<Rightarrow> kv_store \<Rightarrow> 'a list \<Rightarrow> bool" where
  "log_layout context store ys \<longleftrightarrow>
     (btree_get store (base_tag context (log_tag Log_Store)) = Some (to_bcs (ctx_usize context) (length ys)) \<or>
      btree_get store (base_tag context (log_tag Log_Store)) = None \<and> ys = []) \<and>
     stored_at context (log_tag Log_Index) store 0 ys"

lemma log_layout_append:
  assumes "btree_wf store" and "context_ok context" and "log_layout context store ys"
    and "batch = fst (put_values context (log_tag Log_Index) new [] (length ys)) @
      [Put (base_tag context (log_tag Log_Store)) (to_bcs (ctx_usize context) (length ys + length new))]"
  shows "log_layout context (write_batch batch store) (ys @ new)"
    and "btree_get (write_batch batch store) (base_tag context (log_tag Log_Hash)) =
      btree_get store (base_tag context (log_tag Log_Hash))"
proof -
  let ?store = "write_batch (fst (put_values context (log_tag Log_Index) new [] (length ys))) store"
  have "stored_at context (log_tag Log_Index) ?store 0 (ys @ new)"
    using assms(1-3) by (intro stored_at_put_values) (simp_all add: log_layout_def)
  then show "log_layout context (write_batch batch store) (ys @ new)"
    using assms(1,2) unfolding assms(4) write_batch_append
    by (simp add: log_layout_def stored_at_def write_batch_get [of ?store] effect_def context_ok_def)
  show "btree_get (write_batch batch store) (base_tag context (log_tag Log_Hash)) =
      btree_get store (base_tag context (log_tag Log_Hash))"
    using assms(1) unfolding assms(4) write_batch_append
    by (simp add: write_batch_get [of ?store] effect_def write_within_get [OF _ put_values_within])
qed

lemma log_rep_flush:
  assumes wf: "btree_wf store" and rep: "log_rep context store self ys xs"
  shows "log_rep context (write_batch (snd (log_flush context self)) store) (fst (log_flush context self)) xs xs"
proof -
  let ?hash = "base_tag context (log_tag Log_Hash)"
  define base where "base = (if lv_was_cleared self then [] else ys)"
  define store1 where "store1 = write_batch (if lv_was_cleared self \<and> lv_stored_count self > 0
    then [DeletePrefix (ctx_base_key context)] else []) store"
  define store2 where "store2 = write_batch (if lv_new_values self = [] then []
      else fst (put_values context (log_tag Log_Index) (lv_new_values self) [] (length base)) @
        [Put (base_tag context (log_tag Log_Store)) (to_bcs (ctx_usize context) (length base + length (lv_new_values self)))]) store1"
  have xs: "xs = base @ lv_new_values self" and ok: "context_ok context"
    using rep by (auto simp: log_rep_def base_def)
  have wf1: "btree_wf store1" and wf2: "btree_wf store2"
    using wf by (simp_all add: store1_def store2_def)
  have store1: "log_layout context store1 base" "btree_get store1 ?hash \<in> {None, btree_get store ?hash}"
    using rep wf by (auto simp: log_rep_def log_layout_def store1_def base_def write_batch_get effect_def stored_at_def)
  have store2: "log_layout context store2 xs" "btree_get store2 ?hash = btree_get store1 ?hash"
    using store1(1) log_layout_append [OF wf1 ok store1(1) refl, of "lv_new_values self"]
    by (auto simp: store2_def xs write_batch_def)
  have "hash_rep context (log_tag Log_Hash) store2 (lv_stored_hash self) (lv_hash self) (vec_digest context ys) (vec_digest context xs)"
    using rep store1(2) store2(2) by - (rule hash_rep_store [where store = store], simp_all add: log_rep_def)
  note hash = hash_rep_flush [OF wf2 this]
  have flush: "fst (log_flush context self) = self\<lparr>lv_was_cleared := False, lv_stored_count := length xs, lv_new_values := [],
       lv_stored_hash := lv_hash self\<rparr>"
    "write_batch (snd (log_flush context self)) store =
      write_batch (flush_hash context (log_tag Log_Hash) (lv_stored_hash self) (lv_hash self)) store2"
    using rep by (simp_all add: log_flush_eq store2_def store1_def log_rep_def xs base_def)
  have "log_layout context (write_batch (flush_hash context (log_tag Log_Hash) (lv_stored_hash self) (lv_hash self)) store2) xs"
    using store2(1) wf2 by (simp add: log_layout_def stored_at_def flush_hash_get)
  then show ?thesis
    using hash ok unfolding flush by (simp add: log_rep_def log_layout_def)
qed

lemma log_flush_within: "within (ctx_base_key context) (snd (log_flush context self))"
proof -
  have "within (ctx_base_key context) (fst (put_values context (log_tag Log_Index) vs [] n))" for vs n
    by (rule within_prefix [OF _ put_values_within]) simp
  then show ?thesis
    by (simp add: log_flush_eq flush_hash_within) (simp add: within_def)
qed

interpretation log: persistent_view log_rep ctx_base_key context_ok "\<lambda>_. []" log_load log_rollback log_clear log_flush
proof
  fix x :: "'a Context" and store and v :: "'a LogView" and ys xs
  assume rep: "log_rep x store v ys xs"
  show "\<exists>v'. log_load x store = Ok v' \<and> log_rep x store v' ys ys" using rep by (rule log_rep_load)
  show "log_rep x store (log_rollback v) ys ys"
    using rep by (auto simp: log_rep_def log_rollback_def intro: hash_rep_reset(2))
  show "log_rep x store (log_clear x v) ys []"
    using rep by (auto simp: log_rep_def log_clear_def intro: hash_rep_reset(1))
  show "context_ok x" using rep by (simp add: log_rep_def)
next
  fix x :: "'a Context" and store :: kv_store
  assume "context_ok x" and "\<forall>key. prefix (ctx_base_key x) key \<longrightarrow> btree_get store key = None"
  then show "\<exists>v. log_load x store = Ok v \<and> log_rep x store v [] []"
    by (auto simp: log_load_def log_rep_def hash_rep_def read_multi_key_bytes_def stored_at_def)
next
  fix x :: "'a Context" and store store' and v :: "'a LogView" and ys xs
  assume "agree_on (ctx_base_key x) store store'" and "log_rep x store v ys xs"
  then show "log_rep x store' v ys xs"
    by (simp add: log_rep_def hash_rep_def agree_on_def stored_at_def)
qed (rule log_rep_flush log_flush_within; assumption?)+

end
