(* ===== verification/Queue_View.thy ===== *)
theory Queue_View
  imports Log_View
begin

text \<open>
  \<open>QueueView\<close> (\<open>queue_view.rs\<close>): a queue whose front is deleted and whose back is appended to. The
  view refines a list, and it is a \<open>persistent_view\<close>.
\<close>

datatype QueueKeyTag = Queue_Store | Queue_Index | Queue_Hash

fun queue_tag :: "QueueKeyTag \<Rightarrow> u8" where
  "queue_tag Queue_Store = MIN_VIEW_TAG"
| "queue_tag Queue_Index = MIN_VIEW_TAG + 1"
| "queue_tag Queue_Hash = MIN_VIEW_TAG + 2"

record 'a QueueView =
  qv_stored_indices :: Range
  qv_front_delete_count :: nat
  qv_was_cleared :: bool
  qv_new_back_values :: "'a list"
  qv_stored_hash :: "HasherOutput option"
  qv_hash :: "HasherOutput option"

definition queue_load :: "'a Context \<Rightarrow> kv_store \<Rightarrow> (ViewError, 'a QueueView) result" where
  "queue_load context store =
     (let key1 = base_tag context (queue_tag Queue_Store);
          key2 = base_tag context (queue_tag Queue_Hash);
          values_bytes = read_multi_key_bytes store [key1, key2]
      in and_then (from_bytes_opt (ctx_range context) (values_bytes ! 0)) (\<lambda>stored_indices.
         and_then (from_bytes_opt (ctx_hasher_output context) (values_bytes ! 1)) (\<lambda>hash.
         Ok \<lparr>qv_stored_indices = (case stored_indices of Some r \<Rightarrow> r | None \<Rightarrow> (0, 0)),
             qv_front_delete_count = 0, qv_was_cleared = False, qv_new_back_values = [],
             qv_stored_hash = hash, qv_hash = hash\<rparr>)))"

definition queue_rollback :: "'a QueueView \<Rightarrow> 'a QueueView" where
  "queue_rollback self =
     self\<lparr>qv_was_cleared := False, qv_front_delete_count := 0, qv_new_back_values := [], qv_hash := qv_stored_hash self\<rparr>"

text \<open>
  The subtraction cannot underflow: the invariant below bounds \<open>front_delete_count\<close>.
\<close>

definition queue_stored_count :: "'a QueueView \<Rightarrow> nat" where
  "queue_stored_count self =
     (if qv_was_cleared self then 0
      else (snd (qv_stored_indices self) - fst (qv_stored_indices self)) - qv_front_delete_count self)"

definition queue_flush :: "'a Context \<Rightarrow> 'a QueueView \<Rightarrow> 'a QueueView \<times> Batch" where
  "queue_flush context self =
     (let index_key = derive_tag_key context (ctx_usize context) (queue_tag Queue_Index);
          (start, stop) = qv_stored_indices self;
          (self, batch, save_stored_indices) =
            (if queue_stored_count self = 0
             then (self\<lparr>qv_stored_indices := (0, 0)\<rparr>, [DeletePrefix (base_tag context (queue_tag Queue_Index))], True)
             else if qv_front_delete_count self > 0
             then (self\<lparr>qv_stored_indices := (start + qv_front_delete_count self, stop)\<rparr>,
                   map (\<lambda>index. Delete (index_key index)) (take (qv_front_delete_count self) [start..<stop]), True)
             else (self, [], False));
          (self, batch, save_stored_indices) =
            (if qv_new_back_values self \<noteq> []
             then let (batch, stop) = put_values context (queue_tag Queue_Index) (qv_new_back_values self) batch
                        (snd (qv_stored_indices self))
                  in (self\<lparr>qv_stored_indices := (fst (qv_stored_indices self), stop), qv_new_back_values := []\<rparr>, batch, True)
             else (self, batch, save_stored_indices));
          batch = (if save_stored_indices
                   then batch @ [Put (base_tag context (queue_tag Queue_Store)) (to_bcs (ctx_range context) (qv_stored_indices self))]
                   else batch)
      in (self\<lparr>qv_front_delete_count := 0, qv_was_cleared := False, qv_stored_hash := qv_hash self\<rparr>,
          batch @ flush_hash context (queue_tag Queue_Hash) (qv_stored_hash self) (qv_hash self)))"

definition queue_clear :: "'a Context \<Rightarrow> 'a QueueView \<Rightarrow> 'a QueueView" where
  "queue_clear context self = self\<lparr>qv_was_cleared := True, qv_new_back_values := [], qv_hash := None\<rparr>"

definition queue_get :: "'a Context \<Rightarrow> kv_store \<Rightarrow> nat \<Rightarrow> (ViewError, 'a option) result" where
  "queue_get context store index =
     view_read_key (ctx_value context) store (derive_tag_key context (ctx_usize context) (queue_tag Queue_Index) index)"

definition queue_front :: "'a Context \<Rightarrow> kv_store \<Rightarrow> 'a QueueView \<Rightarrow> (ViewError, 'a option) result" where
  "queue_front context store self =
     (let stored_remainder = queue_stored_count self
      in if stored_remainder > 0 then queue_get context store (snd (qv_stored_indices self) - stored_remainder)
         else Ok (vec_get (qv_new_back_values self) 0))"

definition queue_back :: "'a Context \<Rightarrow> kv_store \<Rightarrow> 'a QueueView \<Rightarrow> (ViewError, 'a option) result" where
  "queue_back context store self =
     (if qv_new_back_values self \<noteq> [] then Ok (Some (last (qv_new_back_values self)))
      else if queue_stored_count self > 0 then queue_get context store (snd (qv_stored_indices self) - 1)
      else Ok None)"

definition queue_delete_front :: "'a QueueView \<Rightarrow> 'a QueueView" where
  "queue_delete_front self =
     (let self = self\<lparr>qv_hash := None\<rparr>
      in if queue_stored_count self > 0 then self\<lparr>qv_front_delete_count := qv_front_delete_count self + 1\<rparr>
         else self\<lparr>qv_new_back_values := drop 1 (qv_new_back_values self)\<rparr>)"

definition queue_push_back :: "'a \<Rightarrow> 'a QueueView \<Rightarrow> 'a QueueView" where
  "queue_push_back v self = self\<lparr>qv_hash := None, qv_new_back_values := qv_new_back_values self @ [v]\<rparr>"

definition queue_count :: "'a QueueView \<Rightarrow> nat" where
  "queue_count self = queue_stored_count self + length (qv_new_back_values self)"

definition queue_read_front :: "'a Context \<Rightarrow> kv_store \<Rightarrow> 'a QueueView \<Rightarrow> nat \<Rightarrow> (ViewError, 'a list) result" where
  "queue_read_front context store self n =
     (let n = (if n > queue_count self then queue_count self else n)
      in if n = 0 then Ok []
         else if \<not> qv_was_cleared self
         then let stored_remainder = queue_stored_count self;
                  stop = snd (qv_stored_indices self);
                  start = stop - stored_remainder
              in if n \<le> stored_remainder
                 then read_context context (queue_tag Queue_Index) store (start, start + n)
                 else map_ok (\<lambda>vs. vs @ take (n - stored_remainder) (qv_new_back_values self))
                        (read_context context (queue_tag Queue_Index) store (start, stop))
         else Ok (take n (qv_new_back_values self)))"

definition queue_read_back :: "'a Context \<Rightarrow> kv_store \<Rightarrow> 'a QueueView \<Rightarrow> nat \<Rightarrow> (ViewError, 'a list) result" where
  "queue_read_back context store self n =
     (let n = (if n > queue_count self then queue_count self else n)
      in if n = 0 then Ok []
         else let new_back_len = length (qv_new_back_values self)
              in if n \<le> new_back_len \<or> qv_was_cleared self
                 then Ok (drop (new_back_len - n) (qv_new_back_values self))
                 else let stop = snd (qv_stored_indices self)
                      in map_ok (\<lambda>vs. vs @ qv_new_back_values self)
                           (read_context context (queue_tag Queue_Index) store (stop + new_back_len - n, stop)))"

definition queue_elements :: "'a Context \<Rightarrow> kv_store \<Rightarrow> 'a QueueView \<Rightarrow> (ViewError, 'a list) result" where
  "queue_elements context store self = queue_read_front context store self (queue_count self)"

definition queue_compute_hash :: "'a Context \<Rightarrow> kv_store \<Rightarrow> 'a QueueView \<Rightarrow> (ViewError, HasherOutput) result" where
  "queue_compute_hash context store self =
     map_ok (\<lambda>elements. ctx_sha3 context (ctx_vec context elements))
       (queue_read_front context store self (queue_count self))"

definition queue_hash_mut ::
    "'a Context \<Rightarrow> kv_store \<Rightarrow> 'a QueueView \<Rightarrow> (ViewError, 'a QueueView \<times> HasherOutput) result" where
  "queue_hash_mut context store self =
     map_ok (\<lambda>hash. (self\<lparr>qv_hash := Some hash\<rparr>, hash))
       (cached_hash (qv_hash self) (queue_compute_hash context store self))"

text \<open>\<open>VecDeque::rotate_right\<close>\<close>

definition rotate_right :: "nat \<Rightarrow> 'a list \<Rightarrow> 'a list" where
  "rotate_right n xs = drop (length xs - n) xs @ take (length xs - n) xs"

definition queue_load_all :: "'a Context \<Rightarrow> kv_store \<Rightarrow> 'a QueueView \<Rightarrow> (ViewError, 'a QueueView) result" where
  "queue_load_all context store self =
     (if \<not> qv_was_cleared self
      then let stored_remainder = queue_stored_count self;
               stop = snd (qv_stored_indices self);
               start = stop - stored_remainder
           in map_ok (\<lambda>elements. self\<lparr>qv_new_back_values := rotate_right (stop - start) (qv_new_back_values self @ elements),
                                       qv_was_cleared := True\<rparr>)
                (read_context context (queue_tag Queue_Index) store (start, stop))
      else Ok self)"

text \<open>\<open>iter_mut\<close>, with what the caller does to each element as \<open>f\<close>.\<close>

definition queue_iter_mut ::
    "'a Context \<Rightarrow> kv_store \<Rightarrow> ('a \<Rightarrow> 'a) \<Rightarrow> 'a QueueView \<Rightarrow> (ViewError, 'a QueueView) result" where
  "queue_iter_mut context store f self =
     map_ok (\<lambda>self. self\<lparr>qv_new_back_values := map f (qv_new_back_values self)\<rparr>) (queue_load_all context store self)"

section \<open>The view as a list\<close>

definition queue_rep :: "'a Context \<Rightarrow> kv_store \<Rightarrow> 'a QueueView \<Rightarrow> 'a list \<Rightarrow> 'a list \<Rightarrow> bool" where
  "queue_rep context store self ys xs \<longleftrightarrow>
     context_ok context \<and>
     (btree_get store (base_tag context (queue_tag Queue_Store)) = Some (to_bcs (ctx_range context) (qv_stored_indices self)) \<or>
      btree_get store (base_tag context (queue_tag Queue_Store)) = None \<and> qv_stored_indices self = (0, 0)) \<and>
     snd (qv_stored_indices self) = fst (qv_stored_indices self) + length ys \<and>
     stored_at context (queue_tag Queue_Index) store (fst (qv_stored_indices self)) ys \<and>
     qv_front_delete_count self \<le> length ys \<and>
     (if qv_was_cleared self then [] else drop (qv_front_delete_count self) ys) @ qv_new_back_values self = xs \<and>
     hash_rep context (queue_tag Queue_Hash) store (qv_stored_hash self) (qv_hash self)
       (vec_digest context ys) (vec_digest context xs)"

lemma queue_tag_eq_iff [simp]: "queue_tag tag = queue_tag tag' \<longleftrightarrow> tag = tag'"
  by (cases tag; cases tag') (simp_all add: MIN_VIEW_TAG_def)

declare queue_tag.simps [simp del]

text \<open>What is left of the stored values.\<close>

definition remaining :: "'a list \<Rightarrow> 'a QueueView \<Rightarrow> 'a list" where
  "remaining ys self = (if qv_was_cleared self then [] else drop (qv_front_delete_count self) ys)"

lemma queue_repD:
  assumes "queue_rep context store self ys xs"
  shows "context_ok context" and "queue_stored_count self = length (remaining ys self)"
    and "xs = remaining ys self @ qv_new_back_values self"
    and "stored_at context (queue_tag Queue_Index) store (fst (qv_stored_indices self)) ys"
    and "snd (qv_stored_indices self) = fst (qv_stored_indices self) + length ys"
    and "length (remaining ys self) \<le> length ys"
  using assms by (auto simp: queue_rep_def queue_stored_count_def remaining_def)

lemma queue_read_remaining:
  assumes rep: "queue_rep context store self ys xs" and "\<not> qv_was_cleared self" and "j \<le> length (remaining ys self)"
  shows "read_context context (queue_tag Queue_Index) store
      (snd (qv_stored_indices self) - length (remaining ys self) + i, snd (qv_stored_indices self) - length (remaining ys self) + j) =
    Ok (take (j - i) (drop i (remaining ys self)))"
  using assms
  by (subst read_context_stored [OF queue_repD(1,4) [OF rep]])
    (auto simp: remaining_def queue_rep_def add.commute)

lemma queue_rep_count: "queue_rep context store self ys xs \<Longrightarrow> queue_count self = length xs"
  using queue_repD(2,3) by (fastforce simp: queue_count_def)

lemma queue_rep_read_front:
  assumes rep: "queue_rep context store self ys xs"
  shows "queue_read_front context store self n = Ok (take n xs)"
proof -
  let ?r = "remaining ys self" and ?stop = "snd (qv_stored_indices self)"
  have cleared: "?r = []" if "qv_was_cleared self" using that by (simp add: remaining_def)
  have read: "read_context context (queue_tag Queue_Index) store (?stop - length ?r, ?stop - length ?r + j) = Ok (take j ?r)"
    if "\<not> qv_was_cleared self" "j \<le> length ?r" for j
    using queue_read_remaining [OF rep that, of 0] by simp
  have stop: "?stop - length ?r + length ?r = ?stop" using queue_repD(5,6) [OF rep] by simp
  show ?thesis
    using cleared read read [of "length ?r"] stop
    by (auto simp: queue_read_front_def Let_def queue_rep_count [OF rep] queue_repD(2) [OF rep] queue_repD(3) [OF rep])
qed

lemma queue_rep_read_back:
  assumes rep: "queue_rep context store self ys xs"
  shows "queue_read_back context store self n = Ok (drop (length xs - n) xs)"
proof -
  let ?r = "remaining ys self" and ?stop = "snd (qv_stored_indices self)" and ?new = "qv_new_back_values self"
  have cleared: "?r = []" if "qv_was_cleared self" using that by (simp add: remaining_def)
  have read: "read_context context (queue_tag Queue_Index) store (?stop + length ?new - k, ?stop) =
      Ok (drop (length ?r + length ?new - k) ?r)"
    if "\<not> qv_was_cleared self" "length ?new < k" "k \<le> length ?r + length ?new" for k
    using queue_read_remaining [OF rep that(1) order.refl, of "length ?r + length ?new - k"] that(2,3)
      queue_repD(5,6) [OF rep] by (simp add: add.assoc)
  show ?thesis
    using cleared read
    by (auto simp: queue_read_back_def Let_def queue_rep_count [OF rep] queue_repD(3) [OF rep])
qed

lemma queue_rep_elements: "queue_rep context store self ys xs \<Longrightarrow> queue_elements context store self = Ok xs"
  by (simp add: queue_elements_def queue_rep_read_front queue_rep_count)

lemma queue_get_remaining:
  assumes rep: "queue_rep context store self ys xs" and "i < length (remaining ys self)"
  shows "queue_get context store (snd (qv_stored_indices self) - length (remaining ys self) + i) = Ok (Some (remaining ys self ! i))"
proof -
  have "snd (qv_stored_indices self) - length (remaining ys self) + i =
      fst (qv_stored_indices self) + (qv_front_delete_count self + i)"
    and "remaining ys self ! i = ys ! (qv_front_delete_count self + i)" and "qv_front_delete_count self + i < length ys"
    using assms by (auto simp: queue_rep_def remaining_def split: if_splits)
  then show ?thesis
    using read_index_stored [OF queue_repD(1,4) [OF rep]] by (simp only: queue_get_def)
qed

lemma queue_rep_front:
  assumes rep: "queue_rep context store self ys xs"
  shows "queue_front context store self = Ok (vec_get xs 0)"
  using queue_get_remaining [OF rep, of 0]
  by (auto simp: queue_front_def Let_def queue_repD(2,3) [OF rep] vec_get_def nth_append)

lemma queue_rep_back:
  assumes rep: "queue_rep context store self ys xs"
  shows "queue_back context store self = Ok (if xs = [] then None else Some (last xs))"
proof (cases "qv_new_back_values self = [] \<and> remaining ys self \<noteq> []")
  case True
  then have "snd (qv_stored_indices self) - 1 =
      snd (qv_stored_indices self) - length (remaining ys self) + (length (remaining ys self) - 1)"
    using queue_repD(5,6) [OF rep] by (cases "remaining ys self") auto
  then show ?thesis
    using True queue_get_remaining [OF rep, of "length (remaining ys self) - 1"]
    by (simp add: queue_back_def queue_repD(2,3) [OF rep] last_conv_nth)
qed (auto simp: queue_back_def queue_repD(2,3) [OF rep])

lemma queue_rep_push_back:
  "queue_rep context store self ys xs \<Longrightarrow> queue_rep context store (queue_push_back v self) ys (xs @ [v])"
  by (auto simp: queue_rep_def queue_push_back_def intro: hash_rep_reset(1))

lemma queue_rep_delete_front:
  assumes rep: "queue_rep context store self ys xs"
  shows "queue_rep context store (queue_delete_front self) ys (tl xs)"
proof -
  have "queue_stored_count (self\<lparr>qv_hash := None\<rparr>) = length (remaining ys self)"
    using queue_repD(2) [OF rep] by (auto simp: queue_stored_count_def)
  then have "queue_delete_front self =
      (if remaining ys self = [] then self\<lparr>qv_hash := None, qv_new_back_values := tl (qv_new_back_values self)\<rparr>
       else self\<lparr>qv_hash := None, qv_front_delete_count := qv_front_delete_count self + 1\<rparr>)"
    by (simp add: queue_delete_front_def drop_Suc)
  then show ?thesis
    using rep
    by (auto simp: queue_rep_def remaining_def drop_Suc tl_drop [symmetric] tl_append split: list.splits intro: hash_rep_reset(1))
qed

lemma queue_rep_load_all:
  assumes rep: "queue_rep context store self ys xs"
  shows "queue_load_all context store self = Ok (self\<lparr>qv_new_back_values := xs, qv_was_cleared := True\<rparr>)"
proof (cases "qv_was_cleared self")
  case True
  then show ?thesis
    using queue_repD(3) [OF rep] by (cases self) (simp add: queue_load_all_def remaining_def)
next
  case False
  let ?r = "remaining ys self" and ?stop = "snd (qv_stored_indices self)"
  have stop: "?stop - length ?r + length ?r = ?stop" using queue_repD(5,6) [OF rep] by simp
  then show ?thesis
    using False queue_read_remaining [OF rep False order.refl, of 0]
    by (simp add: queue_load_all_def queue_repD(2,3) [OF rep] rotate_right_def)
qed

lemma queue_rep_loaded:
  "queue_rep context store self ys xs \<Longrightarrow> queue_rep context store (self\<lparr>qv_new_back_values := xs, qv_was_cleared := True\<rparr>) ys xs"
  by (simp add: queue_rep_def)

lemma queue_rep_hash:
  assumes "queue_rep context store self ys xs"
  obtains self' where "queue_hash_mut context store self = Ok (self', vec_digest context xs)"
    and "queue_rep context store self' ys xs"
  using assms queue_rep_read_front [OF assms, of "queue_count self"] queue_rep_count [OF assms]
  by (cases "qv_hash self")
    (auto simp: queue_rep_def queue_hash_mut_def cached_hash_def queue_compute_hash_def vec_digest_def hash_rep_def)

section \<open>Writing the queue\<close>

definition queue_entries :: "'a Context \<Rightarrow> kv_store \<Rightarrow> Range \<Rightarrow> 'a list \<Rightarrow> bool" where
  "queue_entries context store indices ys \<longleftrightarrow>
     snd indices = fst indices + length ys \<and> stored_at context (queue_tag Queue_Index) store (fst indices) ys"

text \<open>The first part of the batch: the deletion of the front.\<close>

definition deletions :: "'a Context \<Rightarrow> 'a QueueView \<Rightarrow> Batch" where
  "deletions context self =
     (if queue_stored_count self = 0 then [DeletePrefix (base_tag context (queue_tag Queue_Index))]
      else map (\<lambda>index. Delete (derive_tag_key context (ctx_usize context) (queue_tag Queue_Index) index))
        (take (qv_front_delete_count self) [fst (qv_stored_indices self)..<snd (qv_stored_indices self)]))"

definition kept_indices :: "'a QueueView \<Rightarrow> Range" where
  "kept_indices self =
     (if queue_stored_count self = 0 then (0, 0)
      else (fst (qv_stored_indices self) + qv_front_delete_count self, snd (qv_stored_indices self)))"

lemma queue_flush_eq:
  fixes self
  defines "indices \<equiv> (fst (kept_indices self), snd (kept_indices self) + length (qv_new_back_values self))"
  defines "saving \<equiv> queue_stored_count self = 0 \<or> qv_front_delete_count self > 0 \<or> qv_new_back_values self \<noteq> []"
  shows "queue_flush context self =
    (self\<lparr>qv_stored_indices := indices, qv_new_back_values := [], qv_front_delete_count := 0, qv_was_cleared := False,
       qv_stored_hash := qv_hash self\<rparr>,
     deletions context self @
     fst (put_values context (queue_tag Queue_Index) (qv_new_back_values self) [] (snd (kept_indices self))) @
     (if saving then [Put (base_tag context (queue_tag Queue_Store)) (to_bcs (ctx_range context) indices)] else []) @
     flush_hash context (queue_tag Queue_Hash) (qv_stored_hash self) (qv_hash self))"
  unfolding indices_def saving_def
  by (cases "qv_new_back_values self = []")
    (auto simp: queue_flush_def deletions_def kept_indices_def Let_def case_prod_beta
      put_values_batch [where batch = "map f zs" for f zs])

lemma deletions_within: "within (base_tag context (queue_tag Queue_Index)) (deletions context self)"
  by (simp add: deletions_def within_def list_all_iff)

lemma queue_entries_deletions:
  assumes wf: "btree_wf store" and rep: "queue_rep context store self ys xs"
  shows "queue_entries context (write_batch (deletions context self) store) (kept_indices self) (remaining ys self)"
proof (cases "queue_stored_count self = 0")
  case True
  then show ?thesis
    using queue_repD(2) [OF rep] by (simp add: queue_entries_def kept_indices_def stored_at_def)
next
  case False
  let ?start = "fst (qv_stored_indices self)" and ?n = "qv_front_delete_count self"
  have r: "remaining ys self = drop ?n ys" "?n \<le> length ys" "snd (qv_stored_indices self) = ?start + length ys"
    "context_ok context" "stored_at context (queue_tag Queue_Index) store ?start ys"
    using False rep by (auto simp: queue_rep_def remaining_def queue_stored_count_def split: if_splits)
  have "\<not> touches op (derive_tag_key context (ctx_usize context) (queue_tag Queue_Index) (?start + (?n + i)))"
    if "op \<in> set (deletions context self)" for op i
    using that False r by (auto simp: deletions_def context_ok_def take_map [symmetric])
  then have "btree_get (write_batch (deletions context self) store)
      (derive_tag_key context (ctx_usize context) (queue_tag Queue_Index) (?start + (?n + i))) =
      btree_get store (derive_tag_key context (ctx_usize context) (queue_tag Queue_Index) (?start + (?n + i)))" for i
    using wf by (simp add: write_batch_get fold_effect_untouched)
  then show ?thesis
    using False r by (simp add: queue_entries_def kept_indices_def stored_at_def add.assoc)
qed

lemma queue_rep_flush:
  assumes wf: "btree_wf store" and rep: "queue_rep context store self ys xs"
  shows "queue_rep context (write_batch (snd (queue_flush context self)) store) (fst (queue_flush context self)) xs xs"
proof -
  let ?hash = "base_tag context (queue_tag Queue_Hash)" and ?store_key = "base_tag context (queue_tag Queue_Store)"
  define new where "new = qv_new_back_values self"
  define indices where "indices = (fst (kept_indices self), snd (kept_indices self) + length new)"
  define saving where "saving \<longleftrightarrow> queue_stored_count self = 0 \<or> qv_front_delete_count self > 0 \<or> new \<noteq> []"
  define store1 where "store1 = write_batch (deletions context self) store"
  define store2 where "store2 = write_batch (fst (put_values context (queue_tag Queue_Index) new [] (snd (kept_indices self)))) store1"
  define store3 where "store3 = write_batch (if saving then [Put ?store_key (to_bcs (ctx_range context) indices)] else []) store2"
  define store4 where "store4 = write_batch (flush_hash context (queue_tag Queue_Hash) (qv_stored_hash self) (qv_hash self)) store3"
  have wf1: "btree_wf store1" and wf2: "btree_wf store2" and wf3: "btree_wf store3"
    using wf by (simp_all add: store1_def store2_def store3_def)
  have ok: "context_ok context" and xs: "xs = remaining ys self @ new"
    using queue_repD(1,3) [OF rep] by (simp_all add: new_def)
  have entries1: "queue_entries context store1 (kept_indices self) (remaining ys self)"
    unfolding store1_def by (rule queue_entries_deletions [OF wf rep])
  then have "stored_at context (queue_tag Queue_Index) store2 (fst (kept_indices self)) xs"
    unfolding store2_def xs using wf1 ok by (intro stored_at_put_values) (simp_all add: queue_entries_def)
  moreover have get3: "btree_get store3 k = btree_get store2 k" if "k \<noteq> ?store_key" for k
    using that wf2 by (simp add: store3_def write_batch_get effect_def)
  ultimately have entries4: "queue_entries context store4 indices xs"
    using entries1 wf3 by (simp add: queue_entries_def stored_at_def store4_def indices_def xs flush_hash_get)
  have other: "btree_get store2 (base_tag context tag) = btree_get store (base_tag context tag)" if "tag \<noteq> queue_tag Queue_Index" for tag
    using wf that
    by (simp add: store2_def store1_def write_within_get [OF _ deletions_within] write_within_get [OF _ put_values_within])
  have "btree_get store4 ?store_key = Some (to_bcs (ctx_range context) indices) \<or>
      btree_get store4 ?store_key = None \<and> indices = (0, 0)"
  proof (cases saving)
    case True
    then show ?thesis
      using wf2 wf3 by (simp add: store4_def flush_hash_get) (simp add: store3_def write_batch_get effect_def)
  next
    case False
    then have "indices = qv_stored_indices self" by (simp add: saving_def indices_def kept_indices_def)
    then show ?thesis
      using False wf2 rep other [of "queue_tag Queue_Store"]
      by (simp add: store4_def store3_def flush_hash_get write_batch_def [of "[]"] queue_rep_def)
  qed
  moreover have "hash_rep context (queue_tag Queue_Hash) store3 (qv_stored_hash self) (qv_hash self)
      (vec_digest context ys) (vec_digest context xs)"
    using rep other [of "queue_tag Queue_Hash"]
    by - (rule hash_rep_store [where store = store], simp_all add: queue_rep_def get3)
  note hash_rep_flush [OF wf3 this, folded store4_def]
  moreover have "fst (queue_flush context self) = self\<lparr>qv_stored_indices := indices, qv_new_back_values := [],
      qv_front_delete_count := 0, qv_was_cleared := False, qv_stored_hash := qv_hash self\<rparr>"
    and "write_batch (snd (queue_flush context self)) store = store4"
    by (simp_all add: queue_flush_eq store4_def store3_def store2_def store1_def saving_def indices_def new_def)
  ultimately show ?thesis
    using ok entries4 by (simp add: queue_rep_def queue_entries_def)
qed

lemma queue_flush_within: "within (ctx_base_key context) (snd (queue_flush context self))"
proof -
  have "within (ctx_base_key context) b" if "within (base_tag context (queue_tag Queue_Index)) b" for b
    using that by (rule within_prefix [rotated]) simp
  then show ?thesis
    by (simp add: queue_flush_eq flush_hash_within deletions_within put_values_within) (simp add: within_def)
qed

interpretation queue: persistent_view queue_rep ctx_base_key context_ok "\<lambda>_. []" queue_load queue_rollback queue_clear queue_flush
proof
  fix x :: "'a Context" and store and v :: "'a QueueView" and ys xs
  assume rep: "queue_rep x store v ys xs"
  obtain h where "from_bytes_opt (ctx_hasher_output x) (btree_get store (base_tag x (queue_tag Queue_Hash))) = Ok h"
    "hash_rep x (queue_tag Queue_Hash) store h h (vec_digest x ys) (vec_digest x ys)"
    using rep by (auto simp: queue_rep_def context_ok_def elim: hash_rep_load)
  then show "\<exists>v'. queue_load x store = Ok v' \<and> queue_rep x store v' ys ys"
    using rep by (auto simp: queue_load_def queue_rep_def context_ok_def read_multi_key_bytes_def)
  show "queue_rep x store (queue_rollback v) ys ys"
    using rep by (auto simp: queue_rep_def queue_rollback_def intro: hash_rep_reset(2))
  show "queue_rep x store (queue_clear x v) ys []"
    using rep by (auto simp: queue_rep_def queue_clear_def intro: hash_rep_reset(1))
  show "context_ok x" using rep by (simp add: queue_rep_def)
next
  fix x :: "'a Context" and store :: kv_store
  assume "context_ok x" and "\<forall>key. prefix (ctx_base_key x) key \<longrightarrow> btree_get store key = None"
  then show "\<exists>v. queue_load x store = Ok v \<and> queue_rep x store v [] []"
    by (auto simp: queue_load_def queue_rep_def hash_rep_def read_multi_key_bytes_def stored_at_def)
next
  fix x :: "'a Context" and store store' and v :: "'a QueueView" and ys xs
  assume "agree_on (ctx_base_key x) store store'" and "queue_rep x store v ys xs"
  then show "queue_rep x store' v ys xs"
    by (simp add: queue_rep_def hash_rep_def agree_on_def stored_at_def)
qed (rule queue_rep_flush queue_flush_within; assumption?)+

end
