(* ===== verification/Message_Views.thy ===== *)
theory Message_Views
  imports Register_View Queue_View Inbox Outbox
begin

text \<open>
  Inboxes and outboxes as they are stored: \<open>OutboxStateView\<close> (\<open>outbox.rs\<close>) and
  \<open>InboxStateView\<close> (\<open>inbox.rs\<close>) are structures of register and queue views, and their operations
  read the queues through the views. Both refine the operations on plain lists of the theories
  \<open>Outbox\<close> and \<open>Inbox\<close>, and both survive being saved and loaded again.

  The loops that read the front of a queue end whatever the store holds: each round removes an
  element from a queue whose length is known to the view.
\<close>

type_synonym OutboxStateView = "BlockHeight RegisterView \<times> BlockHeight QueueView"
type_synonym OutboxContext = "BlockHeight Context \<times> BlockHeight Context"

type_synonym InboxStateView = "(Cursor RegisterView \<times> Cursor RegisterView) \<times> (Event QueueView \<times> Event QueueView)"
type_synonym InboxContext = "(Cursor Context \<times> Cursor Context) \<times> (Event Context \<times> Event Context)"

section \<open>The outbox\<close>

definition outbox_view_load :: "OutboxContext \<Rightarrow> kv_store \<Rightarrow> (ViewError, OutboxStateView) result" where
  "outbox_view_load = struct_load register_load queue_load"

definition outbox_view_flush :: "OutboxContext \<Rightarrow> OutboxStateView \<Rightarrow> OutboxStateView \<times> Batch" where
  "outbox_view_flush = struct_flush register_flush queue_flush"

definition outbox_view_schedule_message ::
    "BlockHeight \<Rightarrow> OutboxStateView \<Rightarrow> (ArithmeticError, OutboxStateView \<times> bool) result" where
  "outbox_view_schedule_message height self =
     (let (next_height_to_schedule, queue) = self
      in if height < register_get next_height_to_schedule then Ok (self, False)
         else map_ok (\<lambda>next_height. ((register_set next_height next_height_to_schedule, queue_push_back height queue), True))
                (try_add_one height))"

lemma queue_front_count:
  "queue_front context store queue = Ok (Some v) \<Longrightarrow> queue_count (queue_delete_front queue) < queue_count queue"
  by (auto simp: queue_front_def queue_count_def queue_delete_front_def queue_stored_count_def Let_def vec_get_def
      split: if_splits)

function outbox_view_dequeue ::
    "BlockHeight Context \<Rightarrow> kv_store \<Rightarrow> BlockHeight \<Rightarrow> BlockHeight QueueView \<Rightarrow> BlockHeight list \<Rightarrow>
     (ViewError, BlockHeight QueueView \<times> BlockHeight list) result" where
  "outbox_view_dequeue context store height queue updates =
     (case queue_front context store queue of
        Ok (Some h) \<Rightarrow>
          if h > height then Ok (queue, updates)
          else outbox_view_dequeue context store height (queue_delete_front queue) (updates @ [h])
      | Ok None \<Rightarrow> Ok (queue, updates)
      | Err e \<Rightarrow> Err e
      | Panic \<Rightarrow> Panic)"
  by auto
termination
  by (relation "measure (\<lambda>(_, _, _, queue, _). queue_count queue)") (simp_all add: queue_front_count)

declare outbox_view_dequeue.simps [simp del]

definition outbox_view_mark_messages_as_received ::
    "OutboxContext \<Rightarrow> kv_store \<Rightarrow> BlockHeight \<Rightarrow> OutboxStateView \<Rightarrow>
     (ViewError, OutboxStateView \<times> BlockHeight list) result" where
  "outbox_view_mark_messages_as_received contexts store height self =
     map_ok (\<lambda>(queue, updates). ((fst self, queue), updates))
       (outbox_view_dequeue (snd contexts) store height (snd self) [])"

section \<open>The inbox\<close>

definition inbox_view_load :: "InboxContext \<Rightarrow> kv_store \<Rightarrow> (ViewError, InboxStateView) result" where
  "inbox_view_load = struct_load (struct_load register_load register_load) (struct_load queue_load queue_load)"

definition inbox_view_flush :: "InboxContext \<Rightarrow> InboxStateView \<Rightarrow> InboxStateView \<times> Batch" where
  "inbox_view_flush = struct_flush (struct_flush register_flush register_flush) (struct_flush queue_flush queue_flush)"

function inbox_view_discard ::
    "Event Context \<Rightarrow> kv_store \<Rightarrow> Cursor \<Rightarrow> Event QueueView \<Rightarrow> (InboxError, Event QueueView) result" where
  "inbox_view_discard context store cursor added_events =
     (case queue_front context store added_events of
        Ok (Some previous_event) \<Rightarrow>
          if cursor_from previous_event \<ge> cursor then Ok added_events
          else ensure (ev_is_skippable previous_event) (UnskippableEvent previous_event)
                 (inbox_view_discard context store cursor (queue_delete_front added_events))
      | Ok None \<Rightarrow> Ok added_events
      | Err e \<Rightarrow> Err (Inbox_ViewError e)
      | Panic \<Rightarrow> Panic)"
  by auto
termination
  by (relation "measure (\<lambda>(_, _, _, queue). queue_count queue)") (simp_all add: queue_front_count)

declare inbox_view_discard.simps [simp del]

definition inbox_view_remove_event ::
    "InboxContext \<Rightarrow> kv_store \<Rightarrow> InboxStateView \<Rightarrow> Event \<Rightarrow> (InboxError, InboxStateView) result" where
  "inbox_view_remove_event contexts store self event =
     (let cursor = cursor_from event;
          ((next_cursor_to_add, next_cursor_to_remove), (added_events, removed_events)) = self;
          (added, removed) = snd contexts
      in ensure (cursor \<ge> register_get next_cursor_to_remove) (IncorrectOrder event (register_get next_cursor_to_remove))
        (and_then (inbox_view_discard added store cursor added_events) (\<lambda>added_events.
         and_then (map_err Inbox_ViewError (queue_front added store added_events)) (\<lambda>front.
         and_then
           (case front of
              Some previous_event \<Rightarrow>
                ensure (event = previous_event) (UnexpectedEvent event previous_event)
                  (Ok (queue_delete_front added_events, removed_events))
            | None \<Rightarrow> Ok (added_events, queue_push_back event removed_events))
           (\<lambda>events.
         map_ok (\<lambda>next_cursor. ((next_cursor_to_add, register_set next_cursor next_cursor_to_remove), events))
           (map_err Inbox_ArithmeticError (cursor_try_add_one cursor)))))))"

definition inbox_view_add_event ::
    "InboxContext \<Rightarrow> kv_store \<Rightarrow> InboxStateView \<Rightarrow> Event \<Rightarrow> (InboxError, InboxStateView) result" where
  "inbox_view_add_event contexts store self event =
     (let cursor = cursor_from event;
          ((next_cursor_to_add, next_cursor_to_remove), (added_events, removed_events)) = self;
          (added, removed) = snd contexts
      in ensure (cursor \<ge> register_get next_cursor_to_add) (IncorrectOrder event (register_get next_cursor_to_add))
        (and_then (map_err Inbox_ViewError (queue_front removed store removed_events)) (\<lambda>front.
         and_then
           (case front of
              Some previous_event \<Rightarrow>
                if cursor_from previous_event = cursor
                then ensure (event = previous_event) (UnexpectedEvent event previous_event)
                       (Ok (added_events, queue_delete_front removed_events))
                else ensure (cursor < cursor_from previous_event \<and> ev_is_skippable event)
                       (UnexpectedEvent event previous_event) (Ok (added_events, removed_events))
            | None \<Rightarrow> Ok (queue_push_back event added_events, removed_events))
           (\<lambda>events.
         map_ok (\<lambda>next_cursor. ((register_set next_cursor next_cursor_to_add, next_cursor_to_remove), events))
           (map_err Inbox_ArithmeticError (cursor_try_add_one cursor))))))"

section \<open>The structures as views\<close>

interpretation outbox_view: two_views
  register_rep ctx_base_key context_ok ctx_default register_load register_rollback register_clear register_flush
  queue_rep ctx_base_key context_ok "\<lambda>_. []" queue_load queue_rollback queue_clear queue_flush
  by (intro two_views.intro register.persistent_view_axioms queue.persistent_view_axioms)

interpretation cursors_view: two_views
  register_rep ctx_base_key context_ok ctx_default register_load register_rollback register_clear register_flush
  register_rep ctx_base_key context_ok ctx_default register_load register_rollback register_clear register_flush
  by (intro two_views.intro register.persistent_view_axioms)

interpretation events_view: two_views
  queue_rep ctx_base_key context_ok "\<lambda>_. []" queue_load queue_rollback queue_clear queue_flush
  queue_rep ctx_base_key context_ok "\<lambda>_. []" queue_load queue_rollback queue_clear queue_flush
  by (intro two_views.intro queue.persistent_view_axioms)

interpretation inbox_view: two_views
  "struct_rep register_rep register_rep ctx_base_key ctx_base_key" "struct_base ctx_base_key ctx_base_key"
  "struct_usable ctx_base_key ctx_base_key context_ok context_ok" "struct_blank ctx_default ctx_default"
  "struct_load register_load register_load" "struct_rollback register_rollback register_rollback"
  "struct_clear register_clear register_clear" "struct_flush register_flush register_flush"
  "struct_rep queue_rep queue_rep ctx_base_key ctx_base_key" "struct_base ctx_base_key ctx_base_key"
  "struct_usable ctx_base_key ctx_base_key context_ok context_ok" "struct_blank (\<lambda>_. []) (\<lambda>_. [])"
  "struct_load queue_load queue_load" "struct_rollback queue_rollback queue_rollback"
  "struct_clear queue_clear queue_clear" "struct_flush queue_flush queue_flush"
  by (intro two_views.intro cursors_view.struct.persistent_view_axioms events_view.struct.persistent_view_axioms)

definition outbox_rel :: "OutboxContext \<Rightarrow> kv_store \<Rightarrow> OutboxState \<Rightarrow> OutboxStateView \<Rightarrow> OutboxState \<Rightarrow> bool" where
  "outbox_rel contexts store persisted self ob \<longleftrightarrow>
     struct_rep register_rep queue_rep ctx_base_key ctx_base_key contexts store self
       (ob_next_height_to_schedule persisted, ob_queue persisted) (ob_next_height_to_schedule ob, ob_queue ob)"

definition inbox_tuple :: "InboxState \<Rightarrow> (Cursor \<times> Cursor) \<times> (Event list \<times> Event list)" where
  "inbox_tuple ib = ((ib_next_cursor_to_add ib, ib_next_cursor_to_remove ib), (ib_added_events ib, ib_removed_events ib))"

definition inbox_rel :: "InboxContext \<Rightarrow> kv_store \<Rightarrow> InboxState \<Rightarrow> InboxStateView \<Rightarrow> InboxState \<Rightarrow> bool" where
  "inbox_rel contexts store persisted self ib \<longleftrightarrow>
     struct_rep (struct_rep register_rep register_rep ctx_base_key ctx_base_key)
       (struct_rep queue_rep queue_rep ctx_base_key ctx_base_key)
       (struct_base ctx_base_key ctx_base_key) (struct_base ctx_base_key ctx_base_key)
       contexts store self (inbox_tuple persisted) (inbox_tuple ib)"

section \<open>Refinement\<close>

lemma and_then_rel:
  "rel_result (=) R r r' \<Longrightarrow> (\<And>x y. R x y \<Longrightarrow> rel_result (=) S (k x) (k' y)) \<Longrightarrow>
   rel_result (=) S (and_then r k) (and_then r' k')"
  by (cases r; cases r') auto

lemma ensure_rel: "(b \<Longrightarrow> rel_result (=) R r r') \<Longrightarrow> rel_result (=) R (ensure b e r) (ensure b e r')"
  by (simp add: ensure_def)

lemma map_ok_rel: "(\<And>x. r = Ok x \<Longrightarrow> R (f x) (g x)) \<Longrightarrow> rel_result (=) R (map_ok f r) (and_then r (\<lambda>x. Ok (g x)))"
  by (cases r) auto

lemma dequeue_refines:
  assumes "queue_rep context store queue ys xs"
  shows "rel_result (=) (\<lambda>(queue, updates) (rest, updates'). queue_rep context store queue ys rest \<and> updates = updates')
    (outbox_view_dequeue context store height queue updates) (Ok (dequeue_up_to height xs updates))"
  using assms
proof (induction xs arbitrary: queue updates)
  case Nil
  then show ?case by (subst outbox_view_dequeue.simps) (simp add: queue_rep_front vec_get_def)
next
  case (Cons h xs)
  then show ?case
    using queue_rep_delete_front [OF Cons.prems]
    by (subst outbox_view_dequeue.simps) (simp add: queue_rep_front [OF Cons.prems] vec_get_def)
qed

lemma discard_refines:
  assumes "queue_rep context store queue ys xs"
  shows "rel_result (=) (\<lambda>queue rest. queue_rep context store queue ys rest)
    (inbox_view_discard context store cursor queue) (discard_lower cursor xs)"
  using assms
proof (induction xs arbitrary: queue)
  case Nil
  then show ?case by (subst inbox_view_discard.simps) (simp add: queue_rep_front vec_get_def)
next
  case (Cons event xs)
  then show ?case
    using queue_rep_delete_front [OF Cons.prems]
    by (subst inbox_view_discard.simps) (simp add: queue_rep_front [OF Cons.prems] vec_get_def ensure_rel)
qed

lemma schedule_message_refines:
  assumes "outbox_rel contexts store persisted self ob"
  shows "rel_result (=) (rel_prod (outbox_rel contexts store persisted) (=))
    (outbox_view_schedule_message height self) (schedule_message ob height)"
  using assms
  by (auto simp: outbox_view_schedule_message_def schedule_message_def outbox_rel_def struct_rep_def register_rep_get
      case_prod_beta intro!: map_ok_rel register_rep_set queue_rep_push_back)

lemma mark_messages_refines:
  assumes "outbox_rel contexts store persisted self ob"
  shows "rel_result (=) (rel_prod (outbox_rel contexts store persisted) (=))
    (outbox_view_mark_messages_as_received contexts store height self) (Ok (outbox_mark_messages_as_received ob height))"
  using assms dequeue_refines [of "snd contexts" store "snd self" "ob_queue persisted" "ob_queue ob" height "[]"]
  by (cases "outbox_view_dequeue (snd contexts) store height (snd self) []")
    (auto simp: outbox_view_mark_messages_as_received_def outbox_mark_messages_as_received_def outbox_rel_def struct_rep_def
      case_prod_beta)

lemma inbox_relD:
  assumes "inbox_rel contexts store persisted ((a, r), (added, removed)) ib"
  shows "register_rep (fst (fst contexts)) store a (ib_next_cursor_to_add persisted) (ib_next_cursor_to_add ib)"
    and "register_rep (snd (fst contexts)) store r (ib_next_cursor_to_remove persisted) (ib_next_cursor_to_remove ib)"
    and "queue_rep (fst (snd contexts)) store added (ib_added_events persisted) (ib_added_events ib)"
    and "queue_rep (snd (snd contexts)) store removed (ib_removed_events persisted) (ib_removed_events ib)"
  using assms by (simp_all add: inbox_rel_def struct_rep_def inbox_tuple_def)

lemma inbox_relI:
  assumes "inbox_rel contexts store persisted self ib"
    and "register_rep (fst (fst contexts)) store a (ib_next_cursor_to_add persisted) (ib_next_cursor_to_add ib')"
    and "register_rep (snd (fst contexts)) store r (ib_next_cursor_to_remove persisted) (ib_next_cursor_to_remove ib')"
    and "queue_rep (fst (snd contexts)) store added (ib_added_events persisted) (ib_added_events ib')"
    and "queue_rep (snd (snd contexts)) store removed (ib_removed_events persisted) (ib_removed_events ib')"
  shows "inbox_rel contexts store persisted ((a, r), (added, removed)) ib'"
  using assms by (simp add: inbox_rel_def struct_rep_def inbox_tuple_def)

lemma remove_event_refines:
  assumes rel: "inbox_rel contexts store persisted self ib"
  shows "rel_result (=) (inbox_rel contexts store persisted) (inbox_view_remove_event contexts store self event) (remove_event ib event)"
proof -
  obtain a r added removed where self: "self = ((a, r), (added, removed))" by (metis surj_pair)
  note reps = inbox_relD [OF rel [unfolded self]]
  have step: "rel_result (=) (inbox_rel contexts store persisted)
      (and_then (map_err Inbox_ViewError (queue_front (fst (snd contexts)) store queue)) (\<lambda>front.
         and_then (case front of
              Some previous_event \<Rightarrow> ensure (event = previous_event) (UnexpectedEvent event previous_event)
                  (Ok (queue_delete_front queue, removed))
            | None \<Rightarrow> Ok (queue, queue_push_back event removed)) (\<lambda>events.
         map_ok (\<lambda>next_cursor. ((a, register_set next_cursor r), events))
           (map_err Inbox_ArithmeticError (cursor_try_add_one (cursor_from event))))))
      (and_then (case rest of
              previous_event # rest \<Rightarrow> ensure (event = previous_event) (UnexpectedEvent event previous_event)
                  (Ok (ib\<lparr>ib_added_events := rest\<rparr>))
            | [] \<Rightarrow> Ok (ib\<lparr>ib_added_events := [], ib_removed_events := ib_removed_events ib @ [event]\<rparr>)) (\<lambda>self.
         and_then (map_err Inbox_ArithmeticError (cursor_try_add_one (cursor_from event))) (\<lambda>next_cursor.
           Ok (self\<lparr>ib_next_cursor_to_remove := next_cursor\<rparr>))))"
    if queue: "queue_rep (fst (snd contexts)) store queue (ib_added_events persisted) rest" for queue rest
    using reps queue queue_rep_delete_front [OF queue] queue_rep_push_back [OF reps(4), of event]
    by (cases rest) (auto simp: queue_rep_front [OF queue] vec_get_def ensure_def
        intro!: map_ok_rel inbox_relI [OF rel] register_rep_set)
  show ?thesis
    unfolding inbox_view_remove_event_def remove_event_def self Let_def case_prod_beta fst_conv snd_conv
      register_rep_get [OF reps(2)]
    by (intro ensure_rel and_then_rel [OF discard_refines [OF reps(3)]] step)
qed

lemma add_event_refines:
  assumes rel: "inbox_rel contexts store persisted self ib"
  shows "rel_result (=) (inbox_rel contexts store persisted) (inbox_view_add_event contexts store self event) (add_event ib event)"
proof -
  obtain a r added removed where self: "self = ((a, r), (added, removed))" by (metis surj_pair)
  note reps = inbox_relD [OF rel [unfolded self]]
  show ?thesis
    unfolding inbox_view_add_event_def add_event_def self Let_def case_prod_beta fst_conv snd_conv
      register_rep_get [OF reps(1)] queue_rep_front [OF reps(4)]
    using reps queue_rep_delete_front [OF reps(4)] queue_rep_push_back [OF reps(3), of event]
    by (cases "ib_removed_events ib")
      (auto simp: vec_get_def ensure_def intro!: map_ok_rel inbox_relI [OF rel] register_rep_set)
qed

end
