(* ===== verification/Kv_View.thy ===== *)
theory Kv_View
  imports Views
begin

text \<open>
  \<open>KeyValueStoreView\<close> (\<open>key_value_store_view.rs\<close>): a key-value store inside a key-value store,
  which holds the state of user applications. The view keeps the updates of single keys and a
  set of deleted prefixes, and it merges them with what is stored when it is iterated over.

  Writing is correct: every operation changes the contents as a plain store would be changed,
  and a flush persists exactly the contents. Iterating is correct as long as no deleted prefix
  lies under another one, and reading a single key as long as it lies under no deleted prefix.
  Neither condition is established by the code.
\<close>

datatype KvKeyTag = Kv_Index | Kv_Hash

fun kv_tag :: "KvKeyTag \<Rightarrow> u8" where
  "kv_tag Kv_Index = MIN_VIEW_TAG"
| "kv_tag Kv_Hash = MIN_VIEW_TAG + 1"

text \<open>\<open>Update\<close> of \<open>common.rs\<close>\<close>

datatype 'a Update = Update_Removed | Update_Set 'a

text \<open>The context of such a view also serialises the number of entries, an \<open>i32\<close>.\<close>

record KvContext = "bytes Context" +
  ctx_i32 :: "u32 \<Rightarrow> bytes"

record KeyValueStoreView =
  kv_was_cleared :: bool
  kv_updates :: "(bytes, bytes Update) BTreeMap"
  kv_deleted_prefixes :: "bytes BTreeSet"
  kv_stored_hash :: "HasherOutput option"
  kv_hash :: "HasherOutput option"

definition kv_load :: "KvContext \<Rightarrow> kv_store \<Rightarrow> (ViewError, KeyValueStoreView) result" where
  "kv_load context store =
     map_ok (\<lambda>hash. \<lparr>kv_was_cleared = False, kv_updates = [], kv_deleted_prefixes = [], kv_stored_hash = hash, kv_hash = hash\<rparr>)
       (view_read_key (ctx_hasher_output context) store (base_tag context (kv_tag Kv_Hash)))"

definition kv_rollback :: "KeyValueStoreView \<Rightarrow> KeyValueStoreView" where
  "kv_rollback self =
     self\<lparr>kv_was_cleared := False, kv_updates := [], kv_deleted_prefixes := [], kv_hash := kv_stored_hash self\<rparr>"

definition kv_flush :: "KvContext \<Rightarrow> KeyValueStoreView \<Rightarrow> KeyValueStoreView \<times> Batch" where
  "kv_flush context self =
     (let index_key = base_tag_index context (kv_tag Kv_Index);
          (self, batch) =
            (if kv_was_cleared self
             then (self\<lparr>kv_was_cleared := False, kv_updates := []\<rparr>,
                   [DeletePrefix (ctx_base_key context)] @
                   concat (map (\<lambda>(index, update). case update of
                       Update_Set v \<Rightarrow> [Put (index_key index) v] | Update_Removed \<Rightarrow> []) (kv_updates self)))
             else (self\<lparr>kv_deleted_prefixes := [], kv_updates := []\<rparr>,
                   map (\<lambda>(index, _). DeletePrefix (index_key index)) (kv_deleted_prefixes self) @
                   map (\<lambda>(index, update). case update of
                       Update_Removed \<Rightarrow> Delete (index_key index) | Update_Set v \<Rightarrow> Put (index_key index) v) (kv_updates self)))
      in (self\<lparr>kv_stored_hash := kv_hash self\<rparr>,
          batch @ flush_hash context (kv_tag Kv_Hash) (kv_stored_hash self) (kv_hash self)))"

definition kv_clear :: "KvContext \<Rightarrow> KeyValueStoreView \<Rightarrow> KeyValueStoreView" where
  "kv_clear context self = self\<lparr>kv_was_cleared := True, kv_updates := [], kv_deleted_prefixes := [], kv_hash := None\<rparr>"

section \<open>Changing the view\<close>

definition kv_insert :: "bytes \<Rightarrow> bytes \<Rightarrow> KeyValueStoreView \<Rightarrow> KeyValueStoreView" where
  "kv_insert index v self = self\<lparr>kv_updates := btree_insert index (Update_Set v) (kv_updates self), kv_hash := None\<rparr>"

definition kv_remove :: "bytes \<Rightarrow> KeyValueStoreView \<Rightarrow> KeyValueStoreView" where
  "kv_remove index self =
     (let self = self\<lparr>kv_hash := None\<rparr>
      in if kv_was_cleared self then self\<lparr>kv_updates := btree_remove index (kv_updates self)\<rparr>
         else self\<lparr>kv_updates := btree_insert index Update_Removed (kv_updates self)\<rparr>)"

definition kv_delete_prefix :: "bytes \<Rightarrow> KeyValueStoreView \<Rightarrow> KeyValueStoreView" where
  "kv_delete_prefix key_prefix self =
     (let self = self\<lparr>kv_hash := None, kv_updates := remove_interval key_prefix (kv_updates self)\<rparr>
      in if \<not> kv_was_cleared self
         then self\<lparr>kv_deleted_prefixes := btree_insert key_prefix () (remove_interval key_prefix (kv_deleted_prefixes self))\<rparr>
         else self)"

definition kv_write_operation :: "WriteOperation \<Rightarrow> KeyValueStoreView \<Rightarrow> KeyValueStoreView" where
  "kv_write_operation operation self =
     (case operation of
        Delete key \<Rightarrow>
          if kv_was_cleared self then self\<lparr>kv_updates := btree_remove key (kv_updates self)\<rparr>
          else self\<lparr>kv_updates := btree_insert key Update_Removed (kv_updates self)\<rparr>
      | Put key v \<Rightarrow> self\<lparr>kv_updates := btree_insert key (Update_Set v) (kv_updates self)\<rparr>
      | DeletePrefix key_prefix \<Rightarrow> kv_delete_prefix key_prefix self)"

definition kv_write_batch :: "Batch \<Rightarrow> KeyValueStoreView \<Rightarrow> KeyValueStoreView" where
  "kv_write_batch batch self = fold kv_write_operation batch (self\<lparr>kv_hash := None\<rparr>)"

section \<open>Reading single keys\<close>

definition update_value :: "'a Update \<Rightarrow> 'a option" where
  "update_value update = (case update of Update_Removed \<Rightarrow> None | Update_Set v \<Rightarrow> Some v)"

definition kv_get :: "KvContext \<Rightarrow> kv_store \<Rightarrow> KeyValueStoreView \<Rightarrow> bytes \<Rightarrow> bytes option" where
  "kv_get context store self index =
     (case btree_get (kv_updates self) index of
        Some update \<Rightarrow> update_value update
      | None \<Rightarrow> if kv_was_cleared self then None
                else read_key_bytes store (base_tag_index context (kv_tag Kv_Index) index))"

definition kv_multi_get :: "KvContext \<Rightarrow> kv_store \<Rightarrow> KeyValueStoreView \<Rightarrow> bytes list \<Rightarrow> bytes option list" where
  "kv_multi_get context store self indices =
     (let (result, missed_indices, vector_query) =
            fold (\<lambda>(i, index) (result, missed_indices, vector_query).
              case btree_get (kv_updates self) index of
                Some update \<Rightarrow> (result @ [update_value update], missed_indices, vector_query)
              | None \<Rightarrow> (result @ [None], missed_indices @ [i],
                          vector_query @ [base_tag_index context (kv_tag Kv_Index) index]))
              (List.enumerate 0 indices) ([], [], [])
      in if \<not> kv_was_cleared self
         then fold (\<lambda>(i, v) result. result[i := v]) (zip missed_indices (read_multi_key_bytes store vector_query)) result
         else result)"

section \<open>Iterating\<close>

record 'k NextLowerKeyIterator =
  nl_prec1 :: "'k option"
  nl_prec2 :: "'k option"
  nl_iter :: "'k list"

definition next_lower_new :: "('k, unit) BTreeMap \<Rightarrow> 'k NextLowerKeyIterator" where
  "next_lower_new entries =
     (case map fst entries of
        [] \<Rightarrow> \<lparr>nl_prec1 = None, nl_prec2 = None, nl_iter = []\<rparr>
      | key # keys \<Rightarrow> \<lparr>nl_prec1 = None, nl_prec2 = Some key, nl_iter = keys\<rparr>)"

fun lower_bound_loop :: "'k option \<Rightarrow> 'k option \<Rightarrow> 'k list \<Rightarrow> 'k :: linorder \<Rightarrow> 'k NextLowerKeyIterator \<times> 'k option" where
  "lower_bound_loop prec1 None keys val = (\<lparr>nl_prec1 = prec1, nl_prec2 = None, nl_iter = keys\<rparr>, prec1)"
| "lower_bound_loop prec1 (Some x) [] val =
     (if x > val then (\<lparr>nl_prec1 = prec1, nl_prec2 = Some x, nl_iter = []\<rparr>, prec1)
      else (\<lparr>nl_prec1 = Some x, nl_prec2 = None, nl_iter = []\<rparr>, Some x))"
| "lower_bound_loop prec1 (Some x) (key # keys) val =
     (if x > val then (\<lparr>nl_prec1 = prec1, nl_prec2 = Some x, nl_iter = key # keys\<rparr>, prec1)
      else lower_bound_loop (Some x) (Some key) keys val)"

definition get_lower_bound :: "'k :: linorder NextLowerKeyIterator \<Rightarrow> 'k \<Rightarrow> 'k NextLowerKeyIterator \<times> 'k option" where
  "get_lower_bound self val = lower_bound_loop (nl_prec1 self) (nl_prec2 self) (nl_iter self) val"

definition is_index_present :: "bytes NextLowerKeyIterator \<Rightarrow> bytes \<Rightarrow> bytes NextLowerKeyIterator \<times> bool" where
  "is_index_present self index =
     (let (self, lower_bound) = get_lower_bound self index
      in (self, case lower_bound of
            None \<Rightarrow> True
          | Some key_prefix \<Rightarrow>
              if length key_prefix > length index then True else take (length key_prefix) index \<noteq> key_prefix))"

text \<open>
  The loops of the four functions that iterate over a view have one shape: the inner loop passes
  the updates up to the next stored key, the outer one goes through the stored keys, and a last one
  through the remaining updates. \<open>f\<close> is called on every entry and says whether to go on; the
  flag in the results is whether the loop ran to its end. \<open>key_prefix\<close> is the prefix that was
  cut off the keys.
\<close>

type_synonym ('a, 's) visitor = "bytes \<Rightarrow> 'a \<Rightarrow> 's \<Rightarrow> (ViewError, 's \<times> bool) result"

definition visit_update :: "('a, 's) visitor \<Rightarrow> bytes \<Rightarrow> 'a Update \<Rightarrow> 's \<Rightarrow> (ViewError, 's \<times> bool) result" where
  "visit_update f key update s = (case update of Update_Set v \<Rightarrow> f key v s | Update_Removed \<Rightarrow> Ok (s, True))"

fun merge_inner ::
    "bytes \<Rightarrow> ('a, 's) visitor \<Rightarrow> bytes \<Rightarrow> 'a \<Rightarrow> (bytes \<times> 'a Update) list \<Rightarrow> bytes NextLowerKeyIterator \<Rightarrow> 's \<Rightarrow>
     (ViewError, bool \<times> (bytes \<times> 'a Update) list \<times> bytes NextLowerKeyIterator \<times> 's) result" where
  "merge_inner key_prefix f index v [] lower_bound s =
     (let (lower_bound, present) = is_index_present lower_bound (key_prefix @ index)
      in if present then map_ok (\<lambda>(s, go). (go, [], lower_bound, s)) (f index v s)
         else Ok (True, [], lower_bound, s))"
| "merge_inner key_prefix f index v ((key, update) # updates) lower_bound s =
     (if key \<le> index
      then and_then (visit_update f key update s) (\<lambda>(s, go).
             if \<not> go then Ok (False, updates, lower_bound, s)
             else if key = index then Ok (True, updates, lower_bound, s)
             else merge_inner key_prefix f index v updates lower_bound s)
      else let (lower_bound, present) = is_index_present lower_bound (key_prefix @ index)
           in if present then map_ok (\<lambda>(s, go). (go, (key, update) # updates, lower_bound, s)) (f index v s)
              else Ok (True, (key, update) # updates, lower_bound, s))"

fun merge_tail :: "('a, 's) visitor \<Rightarrow> (bytes \<times> 'a Update) list \<Rightarrow> 's \<Rightarrow> (ViewError, 's \<times> bool) result" where
  "merge_tail f [] s = Ok (s, True)"
| "merge_tail f ((key, update) # updates) s =
     and_then (visit_update f key update s) (\<lambda>(s, go). if \<not> go then Ok (s, False) else merge_tail f updates s)"

fun merge_outer ::
    "bytes \<Rightarrow> ('a, 's) visitor \<Rightarrow> (bytes \<times> 'a) list \<Rightarrow> (bytes \<times> 'a Update) list \<Rightarrow> bytes NextLowerKeyIterator \<Rightarrow> 's \<Rightarrow>
     (ViewError, 's \<times> bool) result" where
  "merge_outer key_prefix f [] updates lower_bound s = merge_tail f updates s"
| "merge_outer key_prefix f ((index, v) # entries) updates lower_bound s =
     and_then (merge_inner key_prefix f index v updates lower_bound s) (\<lambda>(go, updates, lower_bound, s).
       if go then merge_outer key_prefix f entries updates lower_bound s else Ok (s, False))"

definition merge_loop ::
    "bytes \<Rightarrow> ('a, 's) visitor \<Rightarrow> KeyValueStoreView \<Rightarrow> (bytes \<times> 'a) list \<Rightarrow> (bytes \<times> 'a Update) list \<Rightarrow> 's \<Rightarrow> (ViewError, 's \<times> bool) result" where
  "merge_loop key_prefix f self entries updates s =
     (if \<not> kv_was_cleared self
      then merge_outer key_prefix f entries updates (next_lower_new (kv_deleted_prefixes self)) s
      else merge_tail f updates s)"

definition kv_for_each_index_while ::
    "KvContext \<Rightarrow> kv_store \<Rightarrow> (bytes \<Rightarrow> 's \<Rightarrow> (ViewError, 's \<times> bool) result) \<Rightarrow> KeyValueStoreView \<Rightarrow> 's \<Rightarrow> (ViewError, 's) result" where
  "kv_for_each_index_while context store f self s =
     map_ok fst (merge_loop [] (\<lambda>key _. f key) self
       (map (\<lambda>key. (key, ())) (find_keys_by_prefix store (base_tag context (kv_tag Kv_Index))))
       (map (\<lambda>(key, update). (key, map_Update (\<lambda>_. ()) update)) (kv_updates self)) s)"

definition kv_for_each_index ::
    "KvContext \<Rightarrow> kv_store \<Rightarrow> (bytes \<Rightarrow> 's \<Rightarrow> (ViewError, 's) result) \<Rightarrow> KeyValueStoreView \<Rightarrow> 's \<Rightarrow> (ViewError, 's) result" where
  "kv_for_each_index context store f self s =
     kv_for_each_index_while context store (\<lambda>key s. map_ok (\<lambda>s. (s, True)) (f key s)) self s"

definition kv_for_each_index_value_while ::
    "KvContext \<Rightarrow> kv_store \<Rightarrow> (bytes \<Rightarrow> bytes \<Rightarrow> 's \<Rightarrow> (ViewError, 's \<times> bool) result) \<Rightarrow> KeyValueStoreView \<Rightarrow> 's \<Rightarrow>
     (ViewError, 's) result" where
  "kv_for_each_index_value_while context store f self s =
     map_ok fst (merge_loop [] f self
       (find_key_values_by_prefix store (base_tag context (kv_tag Kv_Index))) (kv_updates self) s)"

definition kv_for_each_index_value ::
    "KvContext \<Rightarrow> kv_store \<Rightarrow> (bytes \<Rightarrow> bytes \<Rightarrow> 's \<Rightarrow> (ViewError, 's) result) \<Rightarrow> KeyValueStoreView \<Rightarrow> 's \<Rightarrow>
     (ViewError, 's) result" where
  "kv_for_each_index_value context store f self s =
     kv_for_each_index_value_while context store (\<lambda>key v s. map_ok (\<lambda>s. (s, True)) (f key v s)) self s"

definition kv_indices :: "KvContext \<Rightarrow> kv_store \<Rightarrow> KeyValueStoreView \<Rightarrow> (ViewError, bytes list) result" where
  "kv_indices context store self = kv_for_each_index context store (\<lambda>index indices. Ok (indices @ [index])) self []"

text \<open>The updates under a prefix, with the prefix cut off.\<close>

definition updates_under :: "bytes \<Rightarrow> KeyValueStoreView \<Rightarrow> (bytes \<times> bytes Update) list" where
  "updates_under key_prefix self =
     map (\<lambda>(key, update). (drop (length key_prefix) key, update))
       (btree_range (Included key_prefix, get_upper_bound key_prefix) (kv_updates self))"

definition kv_find_keys_by_prefix :: "KvContext \<Rightarrow> kv_store \<Rightarrow> KeyValueStoreView \<Rightarrow> bytes \<Rightarrow> (ViewError, bytes list) result" where
  "kv_find_keys_by_prefix context store self key_prefix =
     map_ok fst (merge_loop key_prefix (\<lambda>key _ keys. Ok (keys @ [key], True)) self
       (map (\<lambda>key. (key, ())) (find_keys_by_prefix store (base_tag_index context (kv_tag Kv_Index) key_prefix)))
       (map (\<lambda>(key, update). (key, map_Update (\<lambda>_. ()) update)) (updates_under key_prefix self)) [])"

definition kv_find_key_values_by_prefix ::
    "KvContext \<Rightarrow> kv_store \<Rightarrow> KeyValueStoreView \<Rightarrow> bytes \<Rightarrow> (ViewError, (bytes \<times> bytes) list) result" where
  "kv_find_key_values_by_prefix context store self key_prefix =
     map_ok fst (merge_loop key_prefix (\<lambda>key v key_values. Ok (key_values @ [(key, v)], True)) self
       (find_key_values_by_prefix store (base_tag_index context (kv_tag Kv_Index) key_prefix))
       (updates_under key_prefix self) [])"

definition kv_compute_hash :: "KvContext \<Rightarrow> kv_store \<Rightarrow> KeyValueStoreView \<Rightarrow> (ViewError, HasherOutput) result" where
  "kv_compute_hash context store self =
     map_ok (\<lambda>(n, hasher). ctx_sha3 context (hasher @ ctx_i32 context n))
       (kv_for_each_index_value context store (\<lambda>index v (n, hasher). Ok (n + 1, hasher @ index @ v)) self (0, []))"

definition kv_hash_mut ::
    "KvContext \<Rightarrow> kv_store \<Rightarrow> KeyValueStoreView \<Rightarrow> (ViewError, KeyValueStoreView \<times> HasherOutput) result" where
  "kv_hash_mut context store self =
     map_ok (\<lambda>hash. (self\<lparr>kv_hash := Some hash\<rparr>, hash)) (cached_hash (kv_hash self) (kv_compute_hash context store self))"

section \<open>The contents of a view\<close>

definition kv_stored :: "KvContext \<Rightarrow> kv_store \<Rightarrow> bytes \<rightharpoonup> bytes" where
  "kv_stored context store = (\<lambda>key. btree_get store (base_tag_index context (kv_tag Kv_Index) key))"

definition deleted :: "KeyValueStoreView \<Rightarrow> bytes \<Rightarrow> bool" where
  "deleted self key \<longleftrightarrow> kv_was_cleared self \<or> hit (kv_deleted_prefixes self) key"

definition overlay :: "KeyValueStoreView \<Rightarrow> (bytes \<rightharpoonup> bytes) \<Rightarrow> bytes \<rightharpoonup> bytes" where
  "overlay self stored = (\<lambda>key. case btree_get (kv_updates self) key of
       Some update \<Rightarrow> update_value update
     | None \<Rightarrow> if deleted self key then None else stored key)"

definition kv_wf :: "KeyValueStoreView \<Rightarrow> bool" where
  "kv_wf self \<longleftrightarrow> btree_wf (kv_updates self) \<and> btree_wf (kv_deleted_prefixes self) \<and>
     (kv_was_cleared self \<longrightarrow> kv_deleted_prefixes self = [])"

definition kv_rep ::
    "KvContext \<Rightarrow> kv_store \<Rightarrow> KeyValueStoreView \<Rightarrow> (bytes \<rightharpoonup> bytes) \<Rightarrow> (bytes \<rightharpoonup> bytes) \<Rightarrow> bool" where
  "kv_rep context store self ys xs \<longleftrightarrow>
     codec_ok (ctx_hasher_output context) \<and> kv_wf self \<and> kv_stored context store = ys \<and> overlay self ys = xs \<and>
     btree_get store (base_tag context (kv_tag Kv_Hash)) \<in>
       {None, map_option (to_bcs (ctx_hasher_output context)) (kv_stored_hash self)}"

lemma kv_tag_eq_iff [simp]: "kv_tag tag = kv_tag tag' \<longleftrightarrow> tag = tag'"
  by (cases tag; cases tag') (simp_all add: MIN_VIEW_TAG_def)

declare kv_tag.simps [simp del]

lemma update_value_simps [simp]: "update_value Update_Removed = None" "update_value (Update_Set v) = Some v"
  by (simp_all add: update_value_def)

lemma kv_wf_operation: "kv_wf self \<Longrightarrow> kv_wf (kv_write_operation operation self)"
  by (auto simp: kv_wf_def kv_write_operation_def kv_delete_prefix_def Let_def split: WriteOperation.splits)

lemma hit_delete_prefix:
  "btree_wf ps \<Longrightarrow> hit (btree_insert p () (remove_interval p ps)) k \<longleftrightarrow> prefix p k \<or> hit ps k"
  by (auto simp: hit_def btree_keys_insert remove_interval_keys dest: prefix_order.trans)

lemma overlay_operation:
  assumes wf: "kv_wf self"
  shows "overlay (kv_write_operation operation self) stored = effect operation (overlay self stored)"
proof
  fix k
  show "overlay (kv_write_operation operation self) stored k = effect operation (overlay self stored) k"
  proof (cases operation)
    case (DeletePrefix p)
    then show ?thesis
      using wf by (cases "kv_was_cleared self")
        (simp_all add: overlay_def kv_write_operation_def kv_delete_prefix_def effect_def deleted_def kv_wf_def Let_def
          remove_interval_get hit_delete_prefix split: option.split)
  qed (use wf in \<open>auto simp: overlay_def kv_write_operation_def effect_def deleted_def kv_wf_def btree_simps\<close>)
qed

lemma kv_operations:
  "kv_insert key v self = (kv_write_operation (Put key v) self)\<lparr>kv_hash := None\<rparr>"
  "kv_remove key self = (kv_write_operation (Delete key) self)\<lparr>kv_hash := None\<rparr>"
  "kv_delete_prefix p self = kv_write_operation (DeletePrefix p) self"
  by (simp_all add: kv_insert_def kv_remove_def kv_write_operation_def Let_def)

lemma kv_rep_hash [simp]: "kv_rep context store (self\<lparr>kv_hash := h\<rparr>) ys xs \<longleftrightarrow> kv_rep context store self ys xs"
  by (simp add: kv_rep_def kv_wf_def overlay_def deleted_def cong: option.case_cong)

lemma kv_rep_operation:
  "kv_rep context store self ys xs \<Longrightarrow> kv_rep context store (kv_write_operation operation self) ys (effect operation xs)"
proof -
  have "kv_stored_hash (kv_write_operation operation self) = kv_stored_hash self"
    by (simp add: kv_write_operation_def kv_delete_prefix_def Let_def split: WriteOperation.splits)
  then show "kv_rep context store self ys xs \<Longrightarrow> ?thesis"
    by (auto simp: kv_rep_def overlay_operation kv_wf_operation)
qed

lemma kv_rep_write_batch:
  "kv_rep context store self ys xs \<Longrightarrow> kv_rep context store (kv_write_batch batch self) ys (fold effect batch xs)"
proof -
  have "kv_rep context store self ys xs \<Longrightarrow> kv_rep context store (fold kv_write_operation batch self) ys (fold effect batch xs)" for self
    by (induction batch arbitrary: self xs) (simp_all add: kv_rep_operation)
  then show "kv_rep context store self ys xs \<Longrightarrow> ?thesis"
    by (simp add: kv_write_batch_def)
qed

section \<open>Writing the view\<close>

lemma kv_update_operations:
  "kv_was_cleared self \<Longrightarrow> snd (kv_flush context self) =
     [DeletePrefix (ctx_base_key context)] @
     concat (map (\<lambda>(index, update). case update of
       Update_Set v \<Rightarrow> [Put (base_tag_index context (kv_tag Kv_Index) index) v] | Update_Removed \<Rightarrow> []) (kv_updates self)) @
     flush_hash context (kv_tag Kv_Hash) (kv_stored_hash self) (kv_hash self)"
  "\<not> kv_was_cleared self \<Longrightarrow> snd (kv_flush context self) =
     map (\<lambda>(index, _). DeletePrefix (base_tag_index context (kv_tag Kv_Index) index)) (kv_deleted_prefixes self) @
     map (\<lambda>(index, update). case update of
       Update_Removed \<Rightarrow> Delete (base_tag_index context (kv_tag Kv_Index) index)
     | Update_Set v \<Rightarrow> Put (base_tag_index context (kv_tag Kv_Index) index) v) (kv_updates self) @
     flush_hash context (kv_tag Kv_Hash) (kv_stored_hash self) (kv_hash self)"
  by (simp_all add: kv_flush_def Let_def)

lemma prefix_base_tag_index [simp]:
  "prefix (base_tag_index context tag p) (base_tag_index context tag k) \<longleftrightarrow> prefix p k"
  by (simp add: base_tag_index_def)

lemma base_tag_index_neq [simp]: "tag \<noteq> tag' \<Longrightarrow> base_tag_index context tag k \<noteq> base_tag context tag'"
  "tag \<noteq> tag' \<Longrightarrow> base_tag context tag' \<noteq> base_tag_index context tag k"
  "tag \<noteq> tag' \<Longrightarrow> \<not> prefix (base_tag_index context tag k) (base_tag context tag')"
  by (simp_all add: base_tag_def base_tag_index_def)

lemma put_updates:
  "btree_wf us \<Longrightarrow>
   fold effect (map (\<lambda>(index, update). case update of
       Update_Removed \<Rightarrow> Delete (base_tag_index context tag index)
     | Update_Set v \<Rightarrow> Put (base_tag_index context tag index) v) us) f (base_tag_index context tag k) =
   (case btree_get us k of Some update \<Rightarrow> update_value update | None \<Rightarrow> f (base_tag_index context tag k))"
proof (induction us arbitrary: f)
  case (Cons x us)
  obtain i u where x: "x = (i, u)" by (cases x)
  have "btree_wf us" and "map_of us i = None"
    using Cons.prems by (auto simp: x btree_wf_Cons map_of_eq_None_iff)
  then show ?case
    using Cons.IH by (cases u; cases "k = i") (simp_all add: x effect_def split: option.split Update.split)
qed simp

lemma put_set_updates:
  "btree_wf us \<Longrightarrow>
   fold effect (concat (map (\<lambda>(index, update). case update of
       Update_Set v \<Rightarrow> [Put (base_tag_index context tag index) v] | Update_Removed \<Rightarrow> []) us)) f (base_tag_index context tag k) =
   (case btree_get us k of Some (Update_Set v) \<Rightarrow> Some v | _ \<Rightarrow> f (base_tag_index context tag k))"
proof (induction us arbitrary: f)
  case (Cons x us)
  obtain i u where x: "x = (i, u)" by (cases x)
  have "btree_wf us" and "map_of us i = None"
    using Cons.prems by (auto simp: x btree_wf_Cons map_of_eq_None_iff)
  then show ?case
    using Cons.IH by (cases u; cases "k = i") (simp_all add: x effect_def split: option.split Update.split)
qed simp

lemma delete_prefixes:
  "fold effect (map (\<lambda>(index, _). DeletePrefix (base_tag_index context tag index)) ps) f (base_tag_index context tag k) =
   (if hit ps k then None else f (base_tag_index context tag k))"
proof (induction ps arbitrary: f)
  case (Cons x ps)
  then show ?case by (cases x) (auto simp: effect_def hit_def btree_keys_def)
qed (simp add: hit_def btree_keys_def)

lemma kv_flush_within: "within (ctx_base_key context) (snd (kv_flush context self))"
  using flush_hash_within [of "context" "kv_tag Kv_Hash" "kv_stored_hash self" "kv_hash self"]
  by (cases "kv_was_cleared self") (auto simp: kv_update_operations within_def list_all_iff split: Update.splits)

lemma kv_flush_stored:
  assumes "btree_wf store" and "kv_wf self"
  shows "kv_stored context (write_batch (snd (kv_flush context self)) store) = overlay self (kv_stored context store)"
proof
  fix k
  let ?key = "base_tag_index context (kv_tag Kv_Index) k"
  have hash: "fold effect (flush_hash context (kv_tag Kv_Hash) stored_hash hash) f ?key = f ?key" for stored_hash hash f
    by (auto simp: flush_hash_def effect_def Let_def split: option.splits)
  show "kv_stored context (write_batch (snd (kv_flush context self)) store) k = overlay self (kv_stored context store) k"
  proof (cases "kv_was_cleared self")
    case True
    then show ?thesis
      using assms by (auto simp: kv_stored_def write_batch_get kv_update_operations hash put_set_updates overlay_def deleted_def
          effect_def kv_wf_def split: option.splits Update.splits)
  next
    case False
    then show ?thesis
      using assms by (auto simp: kv_stored_def write_batch_get kv_update_operations hash put_updates delete_prefixes
          overlay_def deleted_def kv_wf_def split: option.splits)
  qed
qed

lemma kv_flush_hash:
  assumes "btree_wf store" and "btree_get store (base_tag context (kv_tag Kv_Hash)) \<in>
      {None, map_option (to_bcs (ctx_hasher_output context)) (kv_stored_hash self)}"
  shows "btree_get (write_batch (snd (kv_flush context self)) store) (base_tag context (kv_tag Kv_Hash)) \<in>
      {None, map_option (to_bcs (ctx_hasher_output context)) (kv_hash self)}"
proof -
  let ?hash = "base_tag context (kv_tag Kv_Hash)"
  obtain batch where batch: "snd (kv_flush context self) =
      batch @ flush_hash context (kv_tag Kv_Hash) (kv_stored_hash self) (kv_hash self)"
    "\<forall>op \<in> set batch. touches op ?hash \<longrightarrow> op = DeletePrefix (ctx_base_key context)"
  proof (cases "kv_was_cleared self")
    case True
    then show ?thesis
      by (intro that) (auto simp: kv_update_operations split: Update.splits intro!: append_assoc [symmetric])
  next
    case False
    then show ?thesis
      by (intro that) (auto simp: kv_update_operations split: Update.splits intro!: append_assoc [symmetric])
  qed
  have "fold effect batch f ?hash \<in> {None, f ?hash}" for f
    using batch(2)
  proof (induction batch arbitrary: f)
    case (Cons op batch)
    have "effect op f ?hash \<in> {None, f ?hash}"
    proof (cases "touches op ?hash")
      case True
      then show ?thesis using Cons.prems by (simp add: effect_def)
    qed (simp add: effect_untouched)
    then show ?case using Cons.IH [of "effect op f"] Cons.prems by fastforce
  qed simp
  then have "fold effect batch (btree_get store) ?hash \<in> {None, map_option (to_bcs (ctx_hasher_output context)) (kv_stored_hash self)}"
    using assms(2) by (metis insertE insertI1 insert_iff singletonD)
  then show ?thesis
    using assms(1) unfolding batch(1)
    by (auto simp: write_batch_get flush_hash_def effect_def Let_def split: option.splits)
qed

lemma kv_flush_fst:
  "kv_wf self \<Longrightarrow> fst (kv_flush context self) =
     \<lparr>kv_was_cleared = False, kv_updates = [], kv_deleted_prefixes = [], kv_stored_hash = kv_hash self, kv_hash = kv_hash self\<rparr>"
  by (cases self) (simp add: kv_flush_def kv_wf_def Let_def)

lemma overlay_clean: "kv_updates self = [] \<Longrightarrow> kv_deleted_prefixes self = [] \<Longrightarrow> \<not> kv_was_cleared self \<Longrightarrow> overlay self ys = ys"
  by (simp add: overlay_def deleted_def hit_def btree_keys_def)

lemma kv_rep_flush:
  "btree_wf store \<Longrightarrow> kv_rep context store self ys xs \<Longrightarrow>
   kv_rep context (write_batch (snd (kv_flush context self)) store) (fst (kv_flush context self)) xs xs"
  using kv_flush_hash [of store "context" self]
  by (auto simp: kv_rep_def kv_flush_fst kv_flush_stored overlay_clean) (auto simp: kv_wf_def)

interpretation kv: persistent_view kv_rep ctx_base_key "\<lambda>context. codec_ok (ctx_hasher_output context)" "\<lambda>_ _. None"
  kv_load kv_rollback kv_clear kv_flush
proof
  fix x store v ys xs
  assume rep: "kv_rep x store v ys xs"
  then show "\<exists>v'. kv_load x store = Ok v' \<and> kv_rep x store v' ys ys"
    by (auto simp: kv_load_def kv_rep_def view_read_key_def read_key_bytes_def overlay_clean kv_wf_def)
  show "kv_rep x store (kv_rollback v) ys ys"
    using rep by (auto simp: kv_rep_def kv_rollback_def overlay_clean kv_wf_def)
  show "kv_rep x store (kv_clear x v) ys (\<lambda>_. None)"
    using rep by (auto simp: kv_rep_def kv_clear_def overlay_def deleted_def kv_wf_def)
  show "codec_ok (ctx_hasher_output x)" using rep by (simp add: kv_rep_def)
next
  fix x :: KvContext and store :: kv_store
  assume "codec_ok (ctx_hasher_output x)" and "\<forall>key. prefix (ctx_base_key x) key \<longrightarrow> btree_get store key = None"
  then show "\<exists>v. kv_load x store = Ok v \<and> kv_rep x store v (\<lambda>_. None) (\<lambda>_. None)"
    by (auto simp: kv_load_def kv_rep_def view_read_key_def read_key_bytes_def overlay_clean kv_wf_def kv_stored_def)
next
  fix x store store' v ys xs
  assume "agree_on (ctx_base_key x) store store'" and "kv_rep x store v ys xs"
  then show "kv_rep x store' v ys xs"
    by (auto simp: kv_rep_def kv_stored_def agree_on_def)
qed (rule kv_rep_flush kv_flush_within; assumption?)+

end
