(* ===== verification/Kv_Iteration.thy ===== *)
theory Kv_Iteration
  imports Kv_View
begin

text \<open>
  Iterating over a key-value store view. The merge of updates and stored entries is compared
  with the list of all entries: the loops visit this list in order (\<open>merge_loop_visits\<close>), and
  the list is that of the contents of the view (\<open>merged_get\<close>) if the iterator over deleted
  prefixes finds the prefix of every deleted key.
\<close>

section \<open>The iterator over deleted prefixes\<close>

definition last_option :: "'a list \<Rightarrow> 'a option" where
  "last_option xs = (if xs = [] then None else Some (last xs))"

definition iterator_at :: "'k list \<Rightarrow> 'k list \<Rightarrow> 'k NextLowerKeyIterator" where
  "iterator_at passed todo =
     \<lparr>nl_prec1 = last_option passed, nl_prec2 = (case todo of [] \<Rightarrow> None | x # _ \<Rightarrow> Some x), nl_iter = tl todo\<rparr>"

lemma next_lower_new_eq: "next_lower_new ps = iterator_at [] (map fst ps)"
  by (simp add: next_lower_new_def iterator_at_def last_option_def split: list.split)

lemma lower_bound_loop_step:
  "lower_bound_loop prec1 (Some x) keys val =
     (if x > val then (\<lparr>nl_prec1 = prec1, nl_prec2 = Some x, nl_iter = keys\<rparr>, prec1)
      else lower_bound_loop (Some x) (case keys of [] \<Rightarrow> None | y # _ \<Rightarrow> Some y) (tl keys) val)"
  by (cases keys) simp_all

lemma get_lower_bound_at:
  assumes "sorted_wrt (<) (passed @ todo)" and "\<forall>p \<in> set passed. p \<le> val"
  shows "get_lower_bound (iterator_at passed todo) val =
    (iterator_at (filter (\<lambda>p. p \<le> val) (passed @ todo)) (filter (\<lambda>p. val < p) (passed @ todo)),
     last_option (filter (\<lambda>p. p \<le> val) (passed @ todo)))"
  using assms
proof (induction todo arbitrary: passed)
  case Nil
  then have "filter (\<lambda>p. p \<le> val) passed = passed" "filter (\<lambda>p. val < p) passed = []"
    by (auto simp: filter_id_conv filter_empty_conv)
  then show ?case by (simp add: get_lower_bound_def iterator_at_def)
next
  case (Cons x todo)
  show ?case
  proof (cases "x > val")
    case True
    have "\<forall>p \<in> set todo. val < p"
      using True Cons.prems(1) by (auto simp: sorted_wrt_append intro: less_trans)
    then have "filter (\<lambda>p. p \<le> val) passed = passed" "filter (\<lambda>p. val < p) passed = []"
      "filter (\<lambda>p. p \<le> val) todo = []" "filter (\<lambda>p. val < p) todo = todo"
      using Cons.prems(2) by (auto simp: filter_id_conv filter_empty_conv)
    then show ?thesis
      using True by (simp add: not_le [symmetric] get_lower_bound_def iterator_at_def lower_bound_loop_step)
  next
    case False
    then have "get_lower_bound (iterator_at passed (x # todo)) val = get_lower_bound (iterator_at (passed @ [x]) todo) val"
      by (simp add: get_lower_bound_def iterator_at_def lower_bound_loop_step last_option_def)
    then show ?thesis using Cons.IH [of "passed @ [x]"] Cons.prems False by auto
  qed
qed

lemma is_index_present_at:
  assumes "btree_wf ps" and "map fst ps = passed @ todo" and "\<forall>p \<in> set passed. p \<le> index"
  shows "is_index_present (iterator_at passed todo) index =
    (iterator_at (filter (\<lambda>p. p \<le> index) (map fst ps)) (filter (\<lambda>p. index < p) (map fst ps)), \<not> is_prefix_matched ps index)"
proof -
  have "btree_range (Unbounded, Included index) ps = filter (\<lambda>x. fst x \<le> index) ps"
    by (auto simp: btree_range_def in_range_def intro: filter_cong)
  moreover have "filter (\<lambda>p. p \<le> index) (map fst ps) = map fst (filter (\<lambda>x. fst x \<le> index) ps)"
    by (simp add: filter_map comp_def)
  moreover have "sorted_wrt (<) (passed @ todo)"
    using assms(1,2) by (simp add: btree_wf_def)
  ultimately show ?thesis
    using get_lower_bound_at [of passed todo index] assms(2,3)
    by (auto simp: is_index_present_def is_prefix_matched_def last_option_def last_map Let_def)
qed

lemma partition_sorted:
  "sorted_wrt (<) (xs :: 'a::linorder list) \<Longrightarrow> xs = filter (\<lambda>p. p \<le> b) xs @ filter (\<lambda>p. b < p) xs"
proof (induction xs)
  case (Cons x xs)
  show ?case
  proof (cases "x \<le> b")
    case False
    then have "\<forall>p \<in> set xs. b < p" using Cons.prems by auto
    then have "filter (\<lambda>p. p \<le> b) xs = []" "filter (\<lambda>p. b < p) xs = xs"
      by (auto simp: filter_id_conv filter_empty_conv)
    then show ?thesis using False by simp
  qed (use Cons in simp)
qed simp

section \<open>The merged entries\<close>

definition set_entry :: "bytes \<Rightarrow> 'a Update \<Rightarrow> (bytes \<times> 'a) list" where
  "set_entry key update = (case update of Update_Set v \<Rightarrow> [(key, v)] | Update_Removed \<Rightarrow> [])"

fun merged :: "(bytes \<Rightarrow> bool) \<Rightarrow> (bytes \<times> 'a Update) list \<Rightarrow> (bytes \<times> 'a) list \<Rightarrow> (bytes \<times> 'a) list" where
  "merged present updates [] = concat (map (\<lambda>(key, update). set_entry key update) updates)"
| "merged present [] ((index, v) # entries) = (if present index then [(index, v)] else []) @ merged present [] entries"
| "merged present ((key, update) # updates) ((index, v) # entries) =
     (if key < index then set_entry key update @ merged present updates ((index, v) # entries)
      else if key = index then set_entry key update @ merged present updates entries
      else (if present index then [(index, v)] else []) @ merged present ((key, update) # updates) entries)"

fun visit :: "('a, 's) visitor \<Rightarrow> (bytes \<times> 'a) list \<Rightarrow> 's \<Rightarrow> (ViewError, 's \<times> bool) result" where
  "visit f [] s = Ok (s, True)"
| "visit f ((key, v) # entries) s = and_then (f key v s) (\<lambda>(s, go). if go then visit f entries s else Ok (s, False))"

lemma visit_set_entry:
  "visit f (set_entry key update @ entries) s =
     and_then (visit_update f key update s) (\<lambda>(s, go). if go then visit f entries s else Ok (s, False))"
  by (cases update) (simp_all add: set_entry_def visit_update_def)

lemma merge_tail_visits: "merge_tail f updates s = visit f (merged present updates []) s"
proof (induction updates arbitrary: s)
  case (Cons x updates)
  then show ?case
    by (cases x; cases "visit_update f (fst x) (snd x) s") (auto simp: visit_set_entry simp del: visit.simps)
qed simp

lemma append_less [simp]: "p @ x < p @ y \<longleftrightarrow> x < (y :: bytes)"
  by (induction p) simp_all

text \<open>What happens at a stored key that no update comes before.\<close>

definition stored_step ::
    "bytes \<Rightarrow> ('a, 's) visitor \<Rightarrow> bytes \<Rightarrow> 'a \<Rightarrow> (bytes \<times> 'a) list \<Rightarrow> (bytes \<times> 'a Update) list \<Rightarrow> bytes NextLowerKeyIterator \<Rightarrow>
     's \<Rightarrow> (ViewError, 's \<times> bool) result" where
  "stored_step key_prefix f index v entries updates lower_bound s =
     (let (lower_bound, present) = is_index_present lower_bound (key_prefix @ index)
      in if present
         then and_then (f index v s) (\<lambda>(s, go).
           if go then merge_outer key_prefix f entries updates lower_bound s else Ok (s, False))
         else merge_outer key_prefix f entries updates lower_bound s)"

lemma merge_outer_stored:
  "merge_outer key_prefix f ((index, v) # entries) [] lower_bound s = stored_step key_prefix f index v entries [] lower_bound s"
  "index < key \<Longrightarrow> merge_outer key_prefix f ((index, v) # entries) ((key, update) # updates) lower_bound s =
     stored_step key_prefix f index v entries ((key, update) # updates) lower_bound s"
  by (cases "f index v s"; auto simp: stored_step_def Let_def not_le [symmetric] split: prod.split)+

lemma merge_outer_update:
  "key < index \<Longrightarrow> merge_outer key_prefix f ((index, v) # entries) ((key, update) # updates) lower_bound s =
     and_then (visit_update f key update s) (\<lambda>(s, go).
       if go then merge_outer key_prefix f ((index, v) # entries) updates lower_bound s else Ok (s, False))"
  "merge_outer key_prefix f ((index, v) # entries) ((index, update) # updates) lower_bound s =
     and_then (visit_update f index update s) (\<lambda>(s, go).
       if go then merge_outer key_prefix f entries updates lower_bound s else Ok (s, False))"
  by (cases "visit_update f key update s"; auto; cases "visit_update f index update s"; auto)+

lemma stored_step_visits:
  assumes wf: "btree_wf ps" and present: "present = (\<lambda>index. \<not> is_prefix_matched ps (key_prefix @ index))"
    and split: "map fst ps = passed @ todo" and sorted: "sorted_wrt (<) (map fst ((index, v) # entries))"
    and passed: "\<forall>p \<in> set passed. p \<le> key_prefix @ index"
    and rest: "\<And>passed todo s. map fst ps = passed @ todo \<Longrightarrow> sorted_wrt (<) (map fst entries) \<Longrightarrow>
      \<forall>x \<in> set entries. \<forall>p \<in> set passed. p \<le> key_prefix @ fst x \<Longrightarrow>
      merge_outer key_prefix f entries updates (iterator_at passed todo) s = visit f (merged present updates entries) s"
  shows "stored_step key_prefix f index v entries updates (iterator_at passed todo) s =
    visit f ((if present index then [(index, v)] else []) @ merged present updates entries) s"
proof -
  let ?passed = "filter (\<lambda>p. p \<le> key_prefix @ index) (map fst ps)" and ?todo = "filter (\<lambda>p. key_prefix @ index < p) (map fst ps)"
  have here: "is_index_present (iterator_at passed todo) (key_prefix @ index) = (iterator_at ?passed ?todo, present index)"
    using is_index_present_at [OF wf split passed] present by simp
  have "p \<le> key_prefix @ fst x" if "x \<in> set entries" "p \<le> key_prefix @ index" for p x
  proof -
    have "key_prefix @ index < key_prefix @ fst x" using that(1) sorted by simp
    then show ?thesis using that(2) by (blast intro: less_imp_le order.trans)
  qed
  then have "merge_outer key_prefix f entries updates (iterator_at ?passed ?todo) s = visit f (merged present updates entries) s" for s
    using wf sorted by (intro rest partition_sorted) (simp_all add: btree_wf_def)
  then show ?thesis
    by (simp add: stored_step_def here cong: if_cong)
qed

lemma merge_outer_visits:
  assumes wf: "btree_wf ps" and present: "present = (\<lambda>index. \<not> is_prefix_matched ps (key_prefix @ index))"
  shows "map fst ps = passed @ todo \<Longrightarrow> sorted_wrt (<) (map fst entries) \<Longrightarrow>
    \<forall>x \<in> set entries. \<forall>p \<in> set passed. p \<le> key_prefix @ fst x \<Longrightarrow>
    merge_outer key_prefix f entries updates (iterator_at passed todo) s = visit f (merged present updates entries) s"
  using present
proof (induction present updates entries arbitrary: passed todo s rule: merged.induct)
  case (1 present updates)
  then show ?case by (simp add: merge_tail_visits [of _ _ _ present] del: merged.simps)
next
  case (2 present index v entries)
  have "stored_step key_prefix f index v entries [] (iterator_at passed todo) s =
      visit f ((if present index then [(index, v)] else []) @ merged present [] entries) s"
    using 2 by (intro stored_step_visits [OF wf]) simp_all
  then show ?case by (simp only: merge_outer_stored merged.simps)
next
  case (3 present key update updates index v entries)
  consider "key < index" | "key = index" | "index < key" by (rule linorder_cases)
  then show ?case
  proof cases
    case 1
    then show ?thesis
      using 3(1) 3(4-) by (simp add: merge_outer_update visit_set_entry del: merge_outer.simps cong: if_cong)
  next
    case 2
    then show ?thesis
      using 3(2) 3(4-) by (simp add: merge_outer_update visit_set_entry del: merge_outer.simps cong: if_cong)
  next
    case 3
    have "stored_step key_prefix f index v entries ((key, update) # updates) (iterator_at passed todo) s =
        visit f ((if present index then [(index, v)] else []) @ merged present ((key, update) # updates) entries) s"
      using "3.prems" "3.IH"(3) \<open>index < key\<close> by (intro stored_step_visits [OF wf]) auto
    moreover have "\<not> key < index" "key \<noteq> index" using \<open>index < key\<close> by auto
    ultimately show ?thesis using \<open>index < key\<close> by (simp add: merge_outer_stored del: merge_outer.simps)
  qed
qed

lemma map_of_set_entries:
  "btree_wf updates \<Longrightarrow> map_of (concat (map (\<lambda>(key, update). set_entry key update) updates)) k =
     (case map_of updates k of Some update \<Rightarrow> update_value update | None \<Rightarrow> None)"
  "fst ` set (concat (map (\<lambda>(key, update). set_entry key update) updates)) \<subseteq> fst ` set updates"
  "btree_wf updates \<Longrightarrow> btree_wf (concat (map (\<lambda>(key, update). set_entry key update) updates))"
proof -
  show keys: "fst ` set (concat (map (\<lambda>(key, update). set_entry key update) us)) \<subseteq> fst ` set us" for us :: "(bytes \<times> 'a Update) list"
    by (force simp: set_entry_def split: Update.splits)
  show "btree_wf updates \<Longrightarrow> btree_wf (concat (map (\<lambda>(key, update). set_entry key update) updates))"
  proof (induction updates)
    case (Cons x updates)
    then show ?case
      using keys [of updates] by (cases x; cases "snd x") (auto simp: btree_wf_Cons set_entry_def)
  qed simp
  show "btree_wf updates \<Longrightarrow> map_of (concat (map (\<lambda>(key, update). set_entry key update) updates)) k =
     (case map_of updates k of Some update \<Rightarrow> update_value update | None \<Rightarrow> None)"
  proof (induction updates)
    case (Cons x updates)
    obtain i u where x: "x = (i, u)" by (cases x)
    have "btree_wf updates" "map_of updates i = None"
      using Cons.prems by (auto simp: x btree_wf_Cons map_of_eq_None_iff)
    then show ?case using Cons.IH by (cases u) (auto simp: x set_entry_def)
  qed simp
qed

lemma merged_keys: "fst ` set (merged present updates entries) \<subseteq> fst ` set updates \<union> fst ` set entries"
proof (induction present updates entries rule: merged.induct)
  case (1 present updates)
  then show ?case using map_of_set_entries(2) [of updates] by simp
qed (auto simp: set_entry_def image_subset_iff split: Update.splits)

lemma merged_above:
  assumes "\<forall>k \<in> fst ` set updates. b < k" and "\<forall>k \<in> fst ` set entries. b < k"
  shows "\<forall>k \<in> fst ` set (merged present updates entries). b < k"
  using merged_keys [of present updates entries] assms by blast

lemma merged_wf: "btree_wf updates \<Longrightarrow> btree_wf entries \<Longrightarrow> btree_wf (merged present updates entries)"
proof (induction present updates entries rule: merged.induct)
  case (1 present updates)
  then show ?case by (simp add: map_of_set_entries(3))
next
  case (2 present index v entries)
  have "\<forall>k \<in> fst ` set (merged present [] entries). index < k"
    using "2.prems"(2) by (intro merged_above) (simp_all add: btree_wf_Cons)
  then show ?case using 2 by (simp add: btree_wf_Cons)
next
  case (3 present key update updates index v entries)
  have *: "btree_wf updates" "btree_wf entries" "\<forall>k \<in> fst ` set updates. key < k" "\<forall>k \<in> fst ` set entries. index < k"
    using "3.prems" by (simp_all add: btree_wf_Cons)
  have set_entry: "btree_wf (set_entry i update @ m) \<longleftrightarrow> (update = Update_Removed \<or> (\<forall>k \<in> fst ` set m. i < k)) \<and> btree_wf m" for i m
    by (cases update) (auto simp: set_entry_def btree_wf_Cons)
  consider "key < index" | "key = index" | "index < key" by (rule linorder_cases)
  then show ?case
  proof cases
    case 1
    have "\<forall>k \<in> fst ` set (merged present updates ((index, v) # entries)). key < k"
      using *(3,4) 1 by (intro merged_above) (auto intro: less_trans)
    then show ?thesis using "3.IH"(1) "3.prems" * 1 by (simp add: set_entry)
  next
    case 2
    have "\<forall>k \<in> fst ` set (merged present updates entries). key < k"
      using *(3,4) 2 by (intro merged_above) simp_all
    then show ?thesis using "3.IH"(2) * 2 by (simp add: set_entry)
  next
    case 3
    have "\<forall>k \<in> fst ` set (merged present ((key, update) # updates) entries). index < k"
      using *(3,4) 3 by (intro merged_above) (auto intro: less_trans)
    moreover have "\<not> key < index" "key \<noteq> index" using 3 by auto
    ultimately show ?thesis using "3.IH"(3) "3.prems" * by (simp add: btree_wf_Cons)
  qed
qed

lemma merged_get:
  "btree_wf updates \<Longrightarrow> btree_wf entries \<Longrightarrow> map_of (merged present updates entries) k =
     (case map_of updates k of
        Some update \<Rightarrow> update_value update
      | None \<Rightarrow> if present k then map_of entries k else None)"
proof (induction present updates entries rule: merged.induct)
  case (1 present updates)
  then show ?case by (simp add: map_of_set_entries(1) split: option.split)
next
  case (2 present index v entries)
  then show ?case by (auto simp: btree_wf_Cons map_of_eq_None_iff)
next
  case (3 present key update updates index v entries)
  have *: "btree_wf updates" "btree_wf entries" "map_of updates key = None" "map_of entries index = None"
    using "3.prems" by (auto simp: btree_wf_Cons map_of_eq_None_iff)
  have later: "map_of ((index, v) # entries) key = None" if "key < index"
    using that "3.prems"(2) by (auto simp: btree_wf_Cons map_of_eq_None_iff)
  have earlier: "map_of ((key, update) # updates) index = None" if "index < key"
    using that "3.prems"(1) by (auto simp: btree_wf_Cons map_of_eq_None_iff)
  have set_entry: "map_of (set_entry i update) j = (if j = i then update_value update else None)" for i j
    by (cases update) (simp_all add: set_entry_def)
  consider "key < index" | "key = index" | "index < key" by (rule linorder_cases)
  then show ?case
  proof cases
    case 1
    have "map_of (merged present updates ((index, v) # entries)) k =
        (case map_of updates k of Some update \<Rightarrow> update_value update
         | None \<Rightarrow> if present k then map_of ((index, v) # entries) k else None)"
      using "3.IH"(1) "3.prems" *(1) 1 by blast
    then show ?thesis
      using 1 *(3) later [OF 1] 
      by (cases "k = key"; cases "update_value update") (simp_all add: map_add_def set_entry split: option.split)
  next
    case 2
    have "map_of (merged present updates entries) k =
        (case map_of updates k of Some update \<Rightarrow> update_value update | None \<Rightarrow> if present k then map_of entries k else None)"
      using "3.IH"(2) *(1,2) 2 by blast
    then show ?thesis
      using 2 *(3,4) 
      by (cases "k = key"; cases "update_value update") (simp_all add: map_add_def set_entry split: option.split)
  next
    case 3
    then have "\<not> key < index" "key \<noteq> index" by auto
    then show ?thesis
      using "3.IH"(3) "3.prems" * earlier [OF 3] 
      by (cases "k = index"; cases "present index") (simp_all cong: option.case_cong)
  qed
qed

lemma merged_map:
  "merged present (map (\<lambda>(key, update). (key, map_Update g update)) updates) (map (\<lambda>(key, v). (key, g v)) entries) =
     map (\<lambda>(key, v). (key, g v)) (merged present updates entries)"
  for g :: "'a \<Rightarrow> 'b"
proof -
  have entry: "set_entry key (map_Update g update) = map (\<lambda>(key, v). (key, g v)) (set_entry key update)" for key update
    by (cases update) (simp_all add: set_entry_def)
  have "concat (map (\<lambda>(key, update). set_entry key update) (map (\<lambda>(key, update). (key, map_Update g update)) us)) =
      map (\<lambda>(key, v). (key, g v)) (concat (map (\<lambda>(key, update). set_entry key update) us))" for us
    by (induction us) (auto simp: entry)
  then show ?thesis
    by (induction present updates entries rule: merged.induct) (simp_all add: entry)
qed

section \<open>The functions that iterate\<close>

text \<open>The entries under a prefix, with the prefix cut off.\<close>

definition cut_prefix :: "bytes \<Rightarrow> (bytes, 'v) BTreeMap \<Rightarrow> (bytes, 'v) BTreeMap" where
  "cut_prefix key_prefix m = map (\<lambda>(key, v). (drop (length key_prefix) key, v)) (btree_range (get_interval key_prefix) m)"

lemma btree_range_prefix: "btree_range (get_interval key_prefix) m = filter (\<lambda>x. prefix key_prefix (fst x)) m"
  by (auto simp: btree_range_def in_interval_iff intro: filter_cong)

lemma cut_Cons:
  "cut_prefix key_prefix (x # m) = (if prefix key_prefix (fst x) then [(drop (length key_prefix) (fst x), snd x)] else []) @ cut_prefix key_prefix m"
  by (cases x) (simp add: cut_prefix_def btree_range_prefix)

lemma cut_Nil [simp]: "cut_prefix key_prefix [] = []"
  by (simp add: cut_prefix_def btree_range_prefix)

lemma cut_keys: "k \<in> fst ` set (cut_prefix key_prefix m) \<longleftrightarrow> key_prefix @ k \<in> fst ` set m"
  by (induction m) (auto simp: cut_Cons prefix_def)

lemma cut_get: "map_of (cut_prefix key_prefix m) k = map_of m (key_prefix @ k)"
proof (induction m)
  case (Cons x m)
  then show ?case
    by (cases x, cases "prefix key_prefix (fst x)") (auto simp: cut_Cons elim: prefixE)
qed simp

lemma cut_wf: "btree_wf m \<Longrightarrow> btree_wf (cut_prefix key_prefix m)"
proof (induction m)
  case (Cons x m)
  then have wf: "btree_wf (cut_prefix key_prefix m)" "\<forall>k \<in> fst ` set m. fst x < k"
    by (cases x, simp add: btree_wf_Cons)+
  have "drop (length key_prefix) (fst x) < k" if "prefix key_prefix (fst x)" "k \<in> fst ` set (cut_prefix key_prefix m)" for k
  proof -
    have "key_prefix @ drop (length key_prefix) (fst x) < key_prefix @ k"
      using that wf(2) by (auto simp: prefix_drop cut_keys)
    then show ?thesis by simp
  qed
  then show ?case using wf(1) by (simp add: cut_Cons btree_wf_Cons)
qed simp

lemma cut_eqs:
  "find_key_values_by_prefix store q = cut_prefix q store"
  "find_keys_by_prefix store q = map fst (cut_prefix q store)"
  "updates_under q self = cut_prefix q (kv_updates self)"
  by (simp_all add: find_key_values_by_prefix_def find_keys_by_prefix_def updates_under_def cut_prefix_def get_interval_def
      comp_def case_prod_beta)

lemma cut_empty:
  "base_tag_index context tag [] = base_tag context tag"
  "cut_prefix [] m = m"
  by (simp_all add: base_tag_index_def base_tag_def cut_prefix_def btree_range_prefix)

text \<open>What the loops go through, for the keys under a prefix.\<close>

definition entries_under :: "KvContext \<Rightarrow> kv_store \<Rightarrow> KeyValueStoreView \<Rightarrow> bytes \<Rightarrow> (bytes \<times> bytes) list" where
  "entries_under context store self key_prefix =
     merged (\<lambda>index. \<not> is_prefix_matched (kv_deleted_prefixes self) (key_prefix @ index)) (cut_prefix key_prefix (kv_updates self))
       (if kv_was_cleared self then [] else cut_prefix (base_tag_index context (kv_tag Kv_Index) key_prefix) store)"

lemma merge_loop_visits:
  assumes "btree_wf store" and "kv_wf self"
  shows "merge_loop key_prefix f self
      (map (\<lambda>(key, v). (key, g v)) (cut_prefix (base_tag_index context (kv_tag Kv_Index) key_prefix) store))
      (map (\<lambda>(key, update). (key, map_Update g update)) (cut_prefix key_prefix (kv_updates self))) s =
    visit f (map (\<lambda>(key, v). (key, g v)) (entries_under context store self key_prefix)) s"
proof (cases "kv_was_cleared self")
  case True
  let ?present = "\<lambda>index. \<not> is_prefix_matched (kv_deleted_prefixes self) (key_prefix @ index)"
  show ?thesis
    using True merged_map [of ?present g "cut_prefix key_prefix (kv_updates self)" "[]"]
      merge_tail_visits [of f "map (\<lambda>(key, update). (key, map_Update g update)) (cut_prefix key_prefix (kv_updates self))" s ?present]
    by (simp add: merge_loop_def entries_under_def del: merged.simps)
next
  case False
  let ?entries = "cut_prefix (base_tag_index context (kv_tag Kv_Index) key_prefix) store"
  have "sorted_wrt (<) (map fst (map (\<lambda>(key, v). (key, g v)) ?entries))"
    using cut_wf [OF assms(1)] by (simp add: btree_wf_def comp_def case_prod_beta)
  then have "merge_outer key_prefix f (map (\<lambda>(key, v). (key, g v)) ?entries)
      (map (\<lambda>(key, update). (key, map_Update g update)) (cut_prefix key_prefix (kv_updates self)))
      (iterator_at [] (map fst (kv_deleted_prefixes self))) s =
    visit f (merged (\<lambda>index. \<not> is_prefix_matched (kv_deleted_prefixes self) (key_prefix @ index))
      (map (\<lambda>(key, update). (key, map_Update g update)) (cut_prefix key_prefix (kv_updates self)))
      (map (\<lambda>(key, v). (key, g v)) ?entries)) s"
    using assms(2) by (intro merge_outer_visits [where ps = "kv_deleted_prefixes self"]) (simp_all add: kv_wf_def)
  then show ?thesis
    using False by (simp add: merge_loop_def entries_under_def next_lower_new_eq merged_map)
qed

lemma visit_collect: "visit (\<lambda>key v acc. Ok (acc @ [g key v], True)) entries acc = Ok (acc @ map (\<lambda>(key, v). g key v) entries, True)"
  by (induction entries arbitrary: acc) auto

lemma kv_iterates:
  assumes "btree_wf store" and "kv_wf self"
  shows "kv_find_key_values_by_prefix context store self key_prefix = Ok (entries_under context store self key_prefix)"
    and "kv_find_keys_by_prefix context store self key_prefix = Ok (map fst (entries_under context store self key_prefix))"
    and "kv_for_each_index_value_while context store f self s = map_ok fst (visit f (entries_under context store self []) s)"
    and "kv_for_each_index_while context store f' self s =
      map_ok fst (visit (\<lambda>key _. f' key) (map (\<lambda>(key, _). (key, ())) (entries_under context store self [])) s)"
proof -
  have id: "map (\<lambda>(key, update). (key, map_Update (\<lambda>x. x) update)) us = us" "map (\<lambda>(key, v). (key, v)) es = es"
    for us :: "(bytes \<times> bytes Update) list" and es :: "(bytes \<times> bytes) list"
    by (simp_all add: Update.map_ident case_prod_beta)
  have keys: "map (\<lambda>key. (key, ())) (map fst es) = map (\<lambda>(key, _). (key, ())) es" for es :: "(bytes \<times> bytes) list"
    by (induction es) auto
  show "kv_find_key_values_by_prefix context store self key_prefix = Ok (entries_under context store self key_prefix)"
    using merge_loop_visits [OF assms, where g = "\<lambda>x. x" and f = "\<lambda>key v key_values. Ok (key_values @ [(key, v)], True)" and s = "[]"]
    by (simp add: kv_find_key_values_by_prefix_def cut_eqs id visit_collect)
  show "kv_for_each_index_value_while context store f self s = map_ok fst (visit f (entries_under context store self []) s)"
    using merge_loop_visits [OF assms, where g = "\<lambda>x. x" and key_prefix = "[]" and f = f]
    by (simp add: kv_for_each_index_value_while_def cut_eqs id cut_empty)
  show "kv_find_keys_by_prefix context store self key_prefix = Ok (map fst (entries_under context store self key_prefix))"
    using merge_loop_visits [OF assms, where g = "\<lambda>_. ()" and f = "\<lambda>key _ keys. Ok (keys @ [key], True)" and s = "[]"]
    unfolding kv_find_keys_by_prefix_def cut_eqs keys by (simp add: visit_collect comp_def case_prod_beta)
  show "kv_for_each_index_while context store f' self s =
      map_ok fst (visit (\<lambda>key _. f' key) (map (\<lambda>(key, _). (key, ())) (entries_under context store self [])) s)"
    using merge_loop_visits [OF assms, where g = "\<lambda>_. ()" and key_prefix = "[]" and f = "\<lambda>key _. f' key"]
    unfolding kv_for_each_index_while_def cut_eqs keys by (simp add: cut_empty)
qed

lemma entries_under_get:
  assumes "btree_wf store" and "kv_wf self" and "minimal_prefixes (kv_deleted_prefixes self)"
  shows "btree_wf (entries_under context store self key_prefix)"
    and "map_of (entries_under context store self key_prefix) k = overlay self (kv_stored context store) (key_prefix @ k)"
proof -
  let ?entries = "if kv_was_cleared self then [] else cut_prefix (base_tag_index context (kv_tag Kv_Index) key_prefix) store"
  have wf: "btree_wf (cut_prefix key_prefix (kv_updates self))" "btree_wf ?entries"
    using assms(1,2) by (simp_all add: kv_wf_def cut_wf)
  show "btree_wf (entries_under context store self key_prefix)"
    unfolding entries_under_def by (rule merged_wf [OF wf])
  have "is_prefix_matched (kv_deleted_prefixes self) (key_prefix @ k) \<longleftrightarrow> hit (kv_deleted_prefixes self) (key_prefix @ k)"
    using is_prefix_matched_iff [OF assms(3)] by (simp add: hit_def)
  moreover have "base_tag_index context (kv_tag Kv_Index) key_prefix @ k = base_tag_index context (kv_tag Kv_Index) (key_prefix @ k)"
    by (simp add: base_tag_index_def)
  ultimately show "map_of (entries_under context store self key_prefix) k = overlay self (kv_stored context store) (key_prefix @ k)"
    unfolding entries_under_def merged_get [OF wf]
    by (simp add: cut_get overlay_def deleted_def kv_stored_def split: option.split)
qed

lemma kv_indices_entries:
  assumes "btree_wf store" and "kv_wf self"
  shows "kv_indices context store self = Ok (map fst (entries_under context store self []))"
proof -
  have "visit (\<lambda>key _ keys. Ok (keys @ [key], True)) (map (\<lambda>(key, _). (key, ())) es) acc = Ok (acc @ map fst es, True)"
    for es :: "(bytes \<times> bytes) list" and acc
    by (induction es arbitrary: acc) auto
  then show ?thesis
    by (simp add: kv_indices_def kv_for_each_index_def kv_iterates(4) [OF assms])
qed

lemma kv_compute_hash_entries:
  assumes "btree_wf store" and "kv_wf self"
  shows "kv_compute_hash context store self =
    Ok (let entries = entries_under context store self []
        in ctx_sha3 context (concat (map (\<lambda>(index, v). index @ v) entries) @ ctx_i32 context (of_nat (length entries))))"
proof -
  have "visit (\<lambda>index v s. map_ok (\<lambda>s. (s, True)) (case s of (n, hasher) \<Rightarrow> Ok (n + 1, hasher @ index @ v))) es (n, hasher) =
      Ok ((n + of_nat (length es), hasher @ concat (map (\<lambda>(index, v). index @ v) es)), True)"
    for es :: "(bytes \<times> bytes) list" and n :: u32 and hasher
    by (induction es arbitrary: n hasher) auto
  then show ?thesis
    by (simp add: kv_compute_hash_def kv_for_each_index_value_def kv_iterates(3) [OF assms] Let_def)
qed

end
