(* ===== verification/View_Properties.thy ===== *)
theory View_Properties
  imports Message_Views Kv_Iteration
begin

text \<open>
  The properties of the views, with a concrete context as an example: values, indices and
  ranges are serialised in unary, hashes are the bytes themselves.
\<close>

definition ex_codec :: "nat Codec" where
  "ex_codec = \<lparr>to_bcs = (\<lambda>n. replicate n 0), from_bcs = (\<lambda>bytes. Some (length bytes))\<rparr>"

definition ex_word_codec :: "u64 Codec" where
  "ex_word_codec = \<lparr>to_bcs = (\<lambda>w. replicate (unat w) 0), from_bcs = (\<lambda>bytes. Some (of_nat (length bytes)))\<rparr>"

definition ex_range_codec :: "Range Codec" where
  "ex_range_codec =
     \<lparr>to_bcs = (\<lambda>(a, b). replicate a 0 @ 1 # replicate b 0),
      from_bcs = (\<lambda>bytes. let a = length (takeWhile (\<lambda>b. b = 0) bytes) in Some (a, length bytes - a - 1))\<rparr>"

definition ex_hash_codec :: "HasherOutput Codec" where
  "ex_hash_codec = \<lparr>to_bcs = (\<lambda>bytes. bytes), from_bcs = Some\<rparr>"

definition ex_view_context :: "bytes \<Rightarrow> u64 Context" where
  "ex_view_context base_key =
     \<lparr>ctx_base_key = base_key, ctx_default = 0, ctx_value = ex_word_codec, ctx_usize = ex_codec, ctx_range = ex_range_codec,
      ctx_hasher_output = ex_hash_codec, ctx_vec = concat \<circ> map (to_bcs ex_word_codec), ctx_sha3 = id\<rparr>"

lemma takeWhile_zeros: "takeWhile (\<lambda>b. b = 0) (replicate a 0 @ 1 # bytes) = replicate a (0 :: u8)"
  by (induction a) simp_all

lemma ex_view_context_ok: "context_ok (ex_view_context base_key)"
  by (simp add: context_ok_def codec_ok_def ex_view_context_def ex_codec_def ex_word_codec_def ex_range_codec_def
      ex_hash_codec_def Let_def takeWhile_zeros split: prod.split)

definition ex_queue :: "u64 QueueView" where
  "ex_queue = \<lparr>qv_stored_indices = (0, 0), qv_front_delete_count = 0, qv_was_cleared = False, qv_new_back_values = [],
     qv_stored_hash = None, qv_hash = None\<rparr>"

lemma ex_queue_rep: "queue_rep (ex_view_context base_key) [] ex_queue [] []"
  using ex_view_context_ok by (simp add: queue_rep_def ex_queue_def hash_rep_def stored_at_def)

section \<open>Queues\<close>

text \<open>
  C27. A queue view behaves as the list of its elements. Whatever was cleared, deleted or
  appended since the last flush, and whether values are still in the store or only in memory:
  \<open>count\<close>, \<open>front\<close>, \<open>back\<close>, \<open>read_front\<close>, \<open>read_back\<close> and \<open>elements\<close> return what they would on
  the list and never fail; \<open>push_back\<close>, \<open>delete_front\<close> and \<open>clear\<close> do to the view what they do to
  the list; \<open>rollback\<close> goes back to the list that is stored, and a flush makes the current
  list the stored one.
\<close>

theorem queue_view_refines_list:
  assumes "queue_rep context store self ys xs" and "btree_wf store"
  shows "queue_count self = length xs \<and>
    queue_front context store self = Ok (if xs = [] then None else Some (hd xs)) \<and>
    queue_back context store self = Ok (if xs = [] then None else Some (last xs)) \<and>
    queue_read_front context store self n = Ok (take n xs) \<and>
    queue_read_back context store self n = Ok (drop (length xs - n) xs) \<and>
    queue_elements context store self = Ok xs \<and>
    queue_rep context store (queue_push_back v self) ys (xs @ [v]) \<and>
    queue_rep context store (queue_delete_front self) ys (tl xs) \<and>
    queue_rep context store (queue_clear context self) ys [] \<and>
    queue_rep context store (queue_rollback self) ys ys \<and>
    queue_rep context (write_batch (snd (queue_flush context self)) store) (fst (queue_flush context self)) xs xs"
  using assms
  by (auto simp: queue_rep_count queue_rep_front queue_rep_back queue_rep_read_front queue_rep_read_back
      queue_rep_elements queue_rep_push_back queue_rep_delete_front queue.rep_flush vec_get_def hd_conv_nth
      dest: queue.rep_clear queue.rep_rollback)

definition ex_queue_two :: "u64 QueueView" where
  "ex_queue_two = queue_push_back 7 (queue_push_back 5 ex_queue)"

lemma ex_queue_two_rep: "queue_rep (ex_view_context [9]) [] ex_queue_two [] [5, 7]"
  using queue_rep_push_back [OF queue_rep_push_back [OF ex_queue_rep], of "[9]" 7 5] by (simp add: ex_queue_two_def)

theorem queue_view_refines_list_witness:
  "let (q, batch) = queue_flush (ex_view_context [9]) ex_queue_two; store = write_batch batch []
   in queue_front (ex_view_context [9]) store (queue_delete_front q) = Ok (Some 7) \<and>
      queue_elements (ex_view_context [9]) store (queue_rollback (queue_delete_front q)) = Ok [5, 7]"
proof -
  let ?q = "fst (queue_flush (ex_view_context [9]) ex_queue_two)"
  let ?store = "write_batch (snd (queue_flush (ex_view_context [9]) ex_queue_two)) []"
  have wf: "btree_wf ?store" by simp
  have q: "queue_rep (ex_view_context [9]) ?store ?q [5, 7] [5, 7]"
    using queue_view_refines_list [OF ex_queue_two_rep, of 0 0] by simp
  then have d: "queue_rep (ex_view_context [9]) ?store (queue_delete_front ?q) [5, 7] [7]"
    using queue_view_refines_list [OF q wf, of 0 0] by simp
  show ?thesis
    using queue_view_refines_list [OF d wf, of 0 0]
      queue_view_refines_list [OF conjunct1 [OF conjI [OF queue.rep_rollback [OF d] TrueI]] wf, of 0 0]
    by (simp add: case_prod_beta)
qed

text \<open>
  C28. The cached hash of a queue goes stale: \<open>iter_mut\<close> is the one operation that changes the
  elements without resetting the hash. If the hash was computed before the elements are
  changed through \<open>iter_mut\<close>, then \<open>elements\<close> returns the changed elements, but \<open>hash_mut\<close> still
  returns the hash of the old ones, and the next flush records that hash for the new elements.
\<close>

theorem queue_iter_mut_keeps_stale_hash:
  assumes rep: "queue_rep context store self ys xs" and "queue_hash_mut context store self = Ok (hashed, h)"
    and mut: "queue_iter_mut context store f hashed = Ok changed"
  shows "h = vec_digest context xs \<and> queue_elements context store changed = Ok (map f xs) \<and>
    queue_hash_mut context store changed = Ok (changed, vec_digest context xs) \<and>
    qv_stored_hash (fst (queue_flush context changed)) = Some (vec_digest context xs)"
proof -
  have h: "h = vec_digest context xs" "queue_rep context store hashed ys xs" "qv_hash hashed = Some h"
    using assms(2) by (auto intro: queue_rep_hash [OF rep] simp: queue_hash_mut_def)
  then have changed: "changed = hashed\<lparr>qv_new_back_values := map f xs, qv_was_cleared := True\<rparr>"
    using mut by (auto simp: queue_iter_mut_def queue_rep_load_all)
  then show ?thesis
    using h by (simp add: queue_elements_def queue_read_front_def queue_count_def queue_stored_count_def Let_def
        queue_hash_mut_def cached_hash_def queue_flush_eq)
qed

theorem queue_iter_mut_keeps_stale_hash_witness:
  "\<exists>hashed h changed. queue_hash_mut (ex_view_context [9]) [] ex_queue_two = Ok (hashed, h) \<and>
     queue_iter_mut (ex_view_context [9]) [] (\<lambda>n. n + 1) hashed = Ok changed \<and>
     queue_elements (ex_view_context [9]) [] changed = Ok [6, 8] \<and>
     queue_hash_mut (ex_view_context [9]) [] changed = Ok (changed, vec_digest (ex_view_context [9]) [5, 7]) \<and>
     vec_digest (ex_view_context [9]) [6, 8] \<noteq> vec_digest (ex_view_context [9]) [5, 7]"
proof -
  obtain hashed h where hashed: "queue_hash_mut (ex_view_context [9]) [] ex_queue_two = Ok (hashed, h)"
    "queue_rep (ex_view_context [9]) [] hashed [] [5, 7]"
    using queue_rep_hash [OF ex_queue_two_rep] by metis
  then obtain changed where "queue_iter_mut (ex_view_context [9]) [] (\<lambda>n. n + 1) hashed = Ok changed"
    by (simp add: queue_iter_mut_def queue_rep_load_all)
  moreover have "vec_digest (ex_view_context [9]) [6, 8] \<noteq> vec_digest (ex_view_context [9]) [5, 7]"
    by (auto simp: vec_digest_def ex_view_context_def ex_word_codec_def dest: arg_cong [where f = length])
  ultimately show ?thesis
    using hashed(1) queue_iter_mut_keeps_stale_hash [OF ex_queue_two_rep hashed(1)] by fastforce
qed

section \<open>Outboxes in storage\<close>

text \<open>
  What can happen to an outbox: its two operations, and saving, rolling back or loading the
  view. \<open>outbox_view_run\<close> does this to the views and the store, \<open>outbox_run\<close> to two outboxes of
  the theory \<open>Outbox\<close>: the one that was saved last and the one in memory.
\<close>

datatype OutboxCommand = Schedule BlockHeight | MarkReceived BlockHeight | SaveView | RollbackView | ReloadView

datatype OutboxOutput = Scheduled "(ArithmeticError, bool) result" | Received "BlockHeight list" | Done

fun outbox_view_step ::
    "OutboxContext \<Rightarrow> OutboxCommand \<Rightarrow> OutboxStateView \<times> kv_store \<Rightarrow>
     (ViewError, OutboxOutput \<times> OutboxStateView \<times> kv_store) result" where
  "outbox_view_step contexts (Schedule height) (self, store) =
     (case outbox_view_schedule_message height self of
        Ok (self, b) \<Rightarrow> Ok (Scheduled (Ok b), self, store)
      | Err e \<Rightarrow> Ok (Scheduled (Err e), self, store)
      | Panic \<Rightarrow> Panic)"
| "outbox_view_step contexts (MarkReceived height) (self, store) =
     map_ok (\<lambda>(self, updates). (Received updates, self, store))
       (outbox_view_mark_messages_as_received contexts store height self)"
| "outbox_view_step contexts SaveView (self, store) = Ok (Done, save_view outbox_view_flush contexts self store)"
| "outbox_view_step contexts RollbackView (self, store) =
     Ok (Done, struct_rollback register_rollback queue_rollback self, store)"
| "outbox_view_step contexts ReloadView (self, store) =
     map_ok (\<lambda>self. (Done, self, store)) (outbox_view_load contexts store)"

fun outbox_step :: "OutboxCommand \<Rightarrow> OutboxState \<times> OutboxState \<Rightarrow> OutboxOutput \<times> OutboxState \<times> OutboxState" where
  "outbox_step (Schedule height) (saved, ob) =
     (case schedule_message ob height of
        Ok (ob, b) \<Rightarrow> (Scheduled (Ok b), saved, ob)
      | Err e \<Rightarrow> (Scheduled (Err e), saved, ob)
      | Panic \<Rightarrow> (Scheduled Panic, saved, ob))"
| "outbox_step (MarkReceived height) (saved, ob) =
     (let (ob, updates) = outbox_mark_messages_as_received ob height in (Received updates, saved, ob))"
| "outbox_step SaveView (saved, ob) = (Done, ob, ob)"
| "outbox_step RollbackView (saved, ob) = (Done, saved, saved)"
| "outbox_step ReloadView (saved, ob) = (Done, saved, saved)"

fun outbox_view_run ::
    "OutboxContext \<Rightarrow> OutboxCommand list \<Rightarrow> OutboxStateView \<times> kv_store \<Rightarrow>
     (ViewError, OutboxOutput list \<times> OutboxStateView \<times> kv_store) result" where
  "outbox_view_run contexts [] state = Ok ([], state)"
| "outbox_view_run contexts (c # cs) state =
     and_then (outbox_view_step contexts c state) (\<lambda>(output, state).
     map_ok (\<lambda>(outputs, state). (output # outputs, state)) (outbox_view_run contexts cs state))"

fun outbox_run :: "OutboxCommand list \<Rightarrow> OutboxState \<times> OutboxState \<Rightarrow> OutboxOutput list \<times> OutboxState \<times> OutboxState" where
  "outbox_run [] state = ([], state)"
| "outbox_run (c # cs) state =
     (let (output, state) = outbox_step c state; (outputs, state) = outbox_run cs state in (output # outputs, state))"

definition outbox_stored :: "OutboxContext \<Rightarrow> OutboxStateView \<times> kv_store \<Rightarrow> OutboxState \<times> OutboxState \<Rightarrow> bool" where
  "outbox_stored contexts state obs \<longleftrightarrow>
     btree_wf (snd state) \<and> outbox_rel contexts (snd state) (fst obs) (fst state) (snd obs)"

lemma schedule_no_panic [simp]: "schedule_message ob height \<noteq> Panic"
  by (simp add: schedule_message_def result_simps try_add_one_def)

lemma outbox_step_refines:
  assumes "outbox_stored contexts state obs"
  shows "rel_result (=) (rel_prod (=) (outbox_stored contexts)) (outbox_view_step contexts c state) (Ok (outbox_step c obs))"
proof -
  obtain self store saved ob where s: "state = (self, store)" "obs = (saved, ob)" by (cases state; cases obs)
  have wf: "btree_wf store" and rel: "outbox_rel contexts store saved self ob"
    using assms by (simp_all add: s outbox_stored_def)
  note rep = rel [unfolded outbox_rel_def]
  show ?thesis
  proof (cases c)
    case (Schedule height)
    then show ?thesis
      using wf schedule_message_refines [OF rel, of height] schedule_no_panic [of ob height] rel
      by (cases "outbox_view_schedule_message height self"; cases "schedule_message ob height")
        (auto simp: s outbox_stored_def)
  next
    case (MarkReceived height)
    then show ?thesis
      using wf mark_messages_refines [OF rel, of height]
      by (cases "outbox_view_mark_messages_as_received contexts store height self";
          cases "outbox_mark_messages_as_received ob height") (auto simp: s outbox_stored_def)
  next
    case SaveView
    then show ?thesis
      using wf outbox_view.struct.rep_flush [OF wf rep]
      by (auto simp: s outbox_stored_def outbox_rel_def save_view_def outbox_view_flush_def case_prod_beta)
  next
    case RollbackView
    then show ?thesis
      using wf outbox_view.struct.rep_rollback [OF rep] by (auto simp: s outbox_stored_def outbox_rel_def)
  next
    case ReloadView
    then show ?thesis
      using wf outbox_view.struct.rep_load [OF rep] by (auto simp: s outbox_stored_def outbox_rel_def outbox_view_load_def)
  qed
qed

text \<open>
  C29. The outboxes of a chain, as they are stored, implement the outboxes of the
  specification. Whatever sequence of scheduling, acknowledging, saving, rolling back and
  loading is carried out on the views and the store, no storage error occurs, and every
  operation returns what it returns on the plain outboxes: the last one saved and the one in
  memory.
\<close>

theorem stored_outbox_refines:
  assumes "outbox_stored contexts state obs"
  shows "\<exists>outputs state' obs'. outbox_view_run contexts commands state = Ok (outputs, state') \<and>
    outbox_run commands obs = (outputs, obs') \<and> outbox_stored contexts state' obs'"
  using assms
proof (induction commands arbitrary: state obs)
  case (Cons c commands)
  obtain out state1 where step: "outbox_view_step contexts c state = Ok (out, state1)"
    "out = fst (outbox_step c obs)" "outbox_stored contexts state1 (snd (outbox_step c obs))"
    using outbox_step_refines [OF Cons.prems, of c] 
    by (cases "outbox_view_step contexts c state"; cases "outbox_step c obs") auto
  show ?case using Cons.IH [OF step(3)] step(1,2) by (auto simp: case_prod_beta)
qed simp

definition ex_outbox_context :: OutboxContext where
  "ex_outbox_context = (ex_view_context [1, 0], ex_view_context [1, 1])"

lemma ex_outbox_stored:
  "\<exists>self. outbox_view_load ex_outbox_context [] = Ok self \<and>
     outbox_stored ex_outbox_context (self, []) (outbox_default, outbox_default)"
proof -
  have "struct_usable ctx_base_key ctx_base_key context_ok context_ok ex_outbox_context"
    by (simp add: struct_usable_def ex_outbox_context_def ex_view_context_ok) (simp add: ex_view_context_def parallel_def)
  then show ?thesis
    using outbox_view.struct.rep_fresh [of ex_outbox_context "[]"]
    by (auto simp: outbox_view_load_def outbox_stored_def outbox_rel_def outbox_default_def struct_blank_def
        ex_outbox_context_def ex_view_context_def)
qed

theorem stored_outbox_refines_witness:
  "\<exists>self state. outbox_view_load ex_outbox_context [] = Ok self \<and>
     outbox_view_run ex_outbox_context
       [Schedule 3, Schedule 5, SaveView, MarkReceived 4, RollbackView, Schedule 5, ReloadView, MarkReceived 5] (self, []) =
     Ok ([Scheduled (Ok True), Scheduled (Ok True), Done, Received [3], Done, Scheduled (Ok False), Done, Received [3, 5]], state)"
proof -
  obtain self where self: "outbox_view_load ex_outbox_context [] = Ok self"
    "outbox_stored ex_outbox_context (self, []) (outbox_default, outbox_default)"
    using ex_outbox_stored by blast
  have "fst (outbox_run [Schedule 3, Schedule 5, SaveView, MarkReceived 4, RollbackView, Schedule 5, ReloadView, MarkReceived 5]
      (outbox_default, outbox_default)) =
      [Scheduled (Ok True), Scheduled (Ok True), Done, Received [3], Done, Scheduled (Ok False), Done, Received [3, 5]]"
    by (simp add: outbox_default_def schedule_message_def outbox_mark_messages_as_received_def try_add_one_def checked_add_def)
  then show ?thesis
    using self(1) stored_outbox_refines [OF self(2),
        of "[Schedule 3, Schedule 5, SaveView, MarkReceived 4, RollbackView, Schedule 5, ReloadView, MarkReceived 5]"]
    by auto
qed

section \<open>Key-value store views\<close>

definition ex_kv_context :: KvContext where
  "ex_kv_context =
     \<lparr>ctx_base_key = [4], ctx_default = [], ctx_value = ex_hash_codec, ctx_usize = ex_codec, ctx_range = ex_range_codec,
      ctx_hasher_output = ex_hash_codec, ctx_vec = concat, ctx_sha3 = id, ctx_i32 = (\<lambda>n. [ucast n])\<rparr>"

definition ex_kv_view :: KeyValueStoreView where
  "ex_kv_view = \<lparr>kv_was_cleared = False, kv_updates = [], kv_deleted_prefixes = [], kv_stored_hash = None, kv_hash = None\<rparr>"

definition ex_kv_store :: kv_store where
  "ex_kv_store = [([4, 1, 1, 2], [7]), ([4, 1, 1, 3], [8]), ([5], [9])]"

definition ex_kv_plain :: kv_store where
  "ex_kv_plain = [([1, 2], [7]), ([1, 3], [8])]"

lemma ex_kv_wf: "btree_wf ex_kv_store" "btree_wf ex_kv_plain"
  by (simp_all add: ex_kv_store_def ex_kv_plain_def btree_wf_def)

lemma ex_kv_rep: "kv_rep ex_kv_context ex_kv_store ex_kv_view (btree_get ex_kv_plain) (btree_get ex_kv_plain)"
  by (auto simp: kv_rep_def kv_wf_def kv_stored_def overlay_clean codec_ok_def fun_eq_iff ex_kv_context_def ex_kv_view_def
      ex_kv_store_def ex_kv_plain_def ex_hash_codec_def base_tag_index_def base_tag_def kv_tag.simps MIN_VIEW_TAG_def)

text \<open>
  C30. Writing to a key-value store view and saving it does to the stored entries what writing
  to a plain store does: if the view stands for the plain store \<open>M\<close>, then after any batch of
  insertions, deletions and prefix deletions, a flush and a load, the store holds under the
  base key of the view exactly the entries of \<open>M\<close> after that batch. No key outside of the view is
  touched.
\<close>

theorem kv_view_persists_batches:
  assumes "btree_wf store" and "btree_wf M" and "kv_rep context store self ys (btree_get M)"
    and "kv_flush context (kv_write_batch batch self) = (flushed, operations)"
  shows "(\<exists>loaded. kv_load context (write_batch operations store) = Ok loaded \<and>
      kv_rep context (write_batch operations store) loaded (btree_get (write_batch batch M)) (btree_get (write_batch batch M))) \<and>
    (\<forall>key. \<not> prefix (ctx_base_key context) key \<longrightarrow> btree_get (write_batch operations store) key = btree_get store key)"
proof -
  have "kv_rep context store (kv_write_batch batch self) ys (btree_get (write_batch batch M))"
    using kv_rep_write_batch [OF assms(3)] assms(2) by (simp add: write_batch_get)
  from kv.save_then_load [OF assms(1) this] obtain loaded where
    "kv_load context (write_batch operations store) = Ok loaded"
    "kv_rep context (write_batch operations store) loaded (btree_get (write_batch batch M)) (btree_get (write_batch batch M))"
    using assms(4) by auto
  then show ?thesis
    using kv_flush_within [of "context" "kv_write_batch batch self"] assms(1,4) by (auto simp: write_within_get)
qed

theorem kv_view_persists_batches_witness:
  "let operations = snd (kv_flush ex_kv_context (kv_write_batch [DeletePrefix [1], Put [1, 3] [6]] ex_kv_view));
       store = write_batch operations ex_kv_store
   in (\<exists>loaded. kv_load ex_kv_context store = Ok loaded \<and>
        kv_rep ex_kv_context store loaded (Map.empty([1, 3] \<mapsto> [6])) (Map.empty([1, 3] \<mapsto> [6]))) \<and>
      btree_get store [5] = Some [9]"
proof -
  have plain: "btree_get (write_batch [DeletePrefix [1], Put [1, 3] [6]] ex_kv_plain) = Map.empty([1, 3] \<mapsto> [6])"
    using ex_kv_wf by (auto simp: write_batch_get effect_def ex_kv_plain_def fun_eq_iff)
  have "\<not> prefix (ctx_base_key ex_kv_context) [5]" "btree_get ex_kv_store [5] = Some [9]"
    by (simp_all add: ex_kv_context_def ex_kv_store_def)
  then show ?thesis
    using kv_view_persists_batches [OF ex_kv_wf ex_kv_rep surjective_pairing, of "[DeletePrefix [1], Put [1, 3] [6]]",
        unfolded plain]
    unfolding Let_def by metis
qed

text \<open>
  C31. Iterating over a key-value store view is iterating over the plain store it stands for:
  searching by prefix returns the same keys and values in the same order, \<open>indices\<close> returns
  its keys, and \<open>for_each_index_value_while\<close> calls its argument on the same entries and stops
  where it says so. This holds as long as no deleted prefix lies under another deleted prefix.
\<close>

theorem kv_view_iterates_plain_store:
  assumes "btree_wf store" and "btree_wf M" and "kv_rep context store self ys (btree_get M)"
    and "minimal_prefixes (kv_deleted_prefixes self)"
  shows "kv_find_key_values_by_prefix context store self key_prefix = Ok (find_key_values_by_prefix M key_prefix) \<and>
    kv_find_keys_by_prefix context store self key_prefix = Ok (find_keys_by_prefix M key_prefix) \<and>
    kv_indices context store self = Ok (map fst M) \<and>
    kv_for_each_index_value_while context store f self s = map_ok fst (visit f M s)"
proof -
  have wf: "kv_wf self" and xs: "overlay self (kv_stored context store) = btree_get M"
    using assms(3) by (simp_all add: kv_rep_def)
  have entries: "entries_under context store self p = cut_prefix p M" for p
    using entries_under_get [OF assms(1) wf assms(4)] cut_wf [OF assms(2)] xs
    by (intro btree_ext) (simp_all add: cut_get fun_eq_iff)
  show ?thesis
    by (simp add: kv_iterates [OF assms(1) wf] kv_indices_entries [OF assms(1) wf] entries cut_eqs cut_empty)
qed

theorem kv_view_iterates_plain_store_witness:
  "kv_find_keys_by_prefix ex_kv_context ex_kv_store ex_kv_view [1] = Ok [[2], [3]]"
proof -
  have "minimal_prefixes (kv_deleted_prefixes ex_kv_view)"
    by (simp add: ex_kv_view_def minimal_prefixes_def btree_keys_def)
  moreover have "find_keys_by_prefix ex_kv_plain [1] = [[2], [3]]"
    by (simp add: ex_kv_plain_def cut_eqs cut_Cons)
  ultimately show ?thesis
    using kv_view_iterates_plain_store [OF ex_kv_wf ex_kv_rep, of "[1]" "\<lambda>_ _ s. Ok (s, True)" "()"] by simp
qed

text \<open>
  C32. Reading a single key ignores deleted prefixes. After \<open>delete_prefix\<close> of a prefix of a
  stored key, the key is no longer part of the contents, and the next flush removes it from the
  store; but until then \<open>get\<close> and \<open>multi_get\<close> still return its old value.
\<close>

theorem kv_get_ignores_deleted_prefix:
  assumes "btree_wf store" and "kv_rep context store self ys xs" and "\<not> kv_was_cleared self" and "prefix p k"
  shows "kv_get context store (kv_delete_prefix p self) k = ys k \<and>
    kv_multi_get context store (kv_delete_prefix p self) [k] = [ys k] \<and>
    overlay (kv_delete_prefix p self) ys k = None \<and>
    kv_stored context (write_batch (snd (kv_flush context (kv_delete_prefix p self))) store) k = None"
proof -
  have wf: "kv_wf self" and ys: "ys = kv_stored context store" using assms(2) by (simp_all add: kv_rep_def)
  have "btree_get (kv_updates (kv_delete_prefix p self)) k = None" "\<not> kv_was_cleared (kv_delete_prefix p self)"
    using wf assms(3,4) by (simp_all add: kv_delete_prefix_def Let_def kv_wf_def remove_interval_get)
  then have "kv_get context store (kv_delete_prefix p self) k = ys k \<and>
      kv_multi_get context store (kv_delete_prefix p self) [k] = [ys k]"
    by (simp add: kv_get_def kv_multi_get_def ys kv_stored_def read_key_bytes_def read_multi_key_bytes_def)
  moreover have "overlay (kv_delete_prefix p self) ys k = None"
    using overlay_operation [OF wf, of "DeletePrefix p" ys] assms(4) by (simp add: kv_operations effect_def)
  ultimately show ?thesis
    using kv_flush_stored [OF assms(1) kv_wf_operation [OF wf, of "DeletePrefix p"]] ys by (simp add: kv_operations)
qed

theorem kv_get_ignores_deleted_prefix_witness:
  "kv_get ex_kv_context ex_kv_store (kv_delete_prefix [1] ex_kv_view) [1, 2] = Some [7] \<and>
   kv_stored ex_kv_context (write_batch (snd (kv_flush ex_kv_context (kv_delete_prefix [1] ex_kv_view))) ex_kv_store) [1, 2] = None"
  using kv_get_ignores_deleted_prefix [OF ex_kv_wf(1) ex_kv_rep, of "[1]" "[1, 2]"]
  by (simp add: ex_kv_view_def ex_kv_plain_def)

text \<open>
  C33. A deleted key can reappear in iterations. If a prefix \<open>p\<close> is deleted and then a longer
  prefix \<open>q\<close> under it, both stay in the set of deleted prefixes, and a stored key that lies
  under \<open>p\<close>, not under \<open>q\<close>, and after \<open>q\<close> in the order of keys, is listed by \<open>indices\<close>
  although it is not part of the contents and the next flush removes it from the store.
\<close>

theorem kv_nested_prefix_reappears:
  assumes "btree_wf store" and "kv_load context store = Ok self" and "strict_prefix p q"
    and "prefix p k" and "q \<le> k" and "\<not> prefix q k" and "kv_stored context store k = Some v"
  shows "\<exists>ks. kv_indices context store (kv_delete_prefix q (kv_delete_prefix p self)) = Ok ks \<and> k \<in> set ks \<and>
    kv_stored context (write_batch (snd (kv_flush context (kv_delete_prefix q (kv_delete_prefix p self)))) store) k = None"
proof -
  let ?self = "kv_delete_prefix q (kv_delete_prefix p self)"
  have fields: "kv_updates self = []" "kv_deleted_prefixes self = []" "\<not> kv_was_cleared self"
    using assms(2) by (auto simp: kv_load_def)
  have less: "p < q" using assms(3) prefix_le [of p q] by (auto simp: strict_prefix_def)
  have deleted: "kv_updates ?self = []" "kv_deleted_prefixes ?self = [(p, ()), (q, ())]" "\<not> kv_was_cleared ?self"
    using fields less assms(3) by (auto simp: kv_delete_prefix_def Let_def remove_interval_def btree_range_prefix
        strict_prefix_def prefix_order.antisym)
  then have wf: "kv_wf ?self" using less by (simp add: kv_wf_def btree_wf_def)
  have "\<not> is_prefix_matched (kv_deleted_prefixes ?self) k"
    using assms(4-6) prefix_le [OF assms(4)]
    by (simp add: deleted(2) is_prefix_matched_def btree_range_def in_range_def prefix_iff_take)
  then have "map_of (entries_under context store ?self []) k = Some v"
    unfolding entries_under_def
    using assms(1,7) deleted merged_get [of "[]" "cut_prefix (base_tag_index context (kv_tag Kv_Index) []) store"]
    by (simp add: cut_wf cut_get kv_stored_def base_tag_index_def)
  then have "k \<in> fst ` set (entries_under context store ?self [])" by (force dest: map_of_SomeD)
  moreover have "overlay ?self (kv_stored context store) k = None"
    using deleted assms(4) by (simp add: overlay_def deleted_def hit_def btree_keys_def)
  ultimately show ?thesis
    using kv_indices_entries [OF assms(1) wf] kv_flush_stored [OF assms(1) wf] by simp
qed

theorem kv_nested_prefix_reappears_witness:
  "\<exists>ks. kv_indices ex_kv_context ex_kv_store (kv_delete_prefix [1, 2] (kv_delete_prefix [1] ex_kv_view)) = Ok ks \<and> [1, 3] \<in> set ks"
proof -
  have "kv_load ex_kv_context ex_kv_store = Ok ex_kv_view"
    by (simp add: kv_load_def view_read_key_def read_key_bytes_def base_tag_def kv_tag.simps MIN_VIEW_TAG_def
        ex_kv_context_def ex_kv_store_def ex_kv_view_def)
  moreover have "kv_stored ex_kv_context ex_kv_store [1, 3] = Some [8]"
    using ex_kv_rep by (simp add: kv_rep_def ex_kv_plain_def)
  ultimately show ?thesis
    using kv_nested_prefix_reappears [OF ex_kv_wf(1), of ex_kv_context ex_kv_view "[1]" "[1, 2]" "[1, 3]" "[8]"] by auto
qed

text \<open>
  C34. The hash of a key-value store view does not determine its contents, whatever the hash
  function: keys and values are hashed one after the other without their lengths, so that moving
  bytes from the end of the key to the start of the value does not change the hash.
\<close>

theorem kv_hash_ambiguous:
  assumes "kv_load context [] = Ok self" and "b \<noteq> []"
  shows "kv_compute_hash context [] (kv_insert (a @ b) c self) = kv_compute_hash context [] (kv_insert a (b @ c) self) \<and>
    overlay (kv_insert (a @ b) c self) Map.empty \<noteq> overlay (kv_insert a (b @ c) self) Map.empty"
proof -
  have fields: "kv_updates self = []" "kv_deleted_prefixes self = []" "\<not> kv_was_cleared self"
    using assms(1) by (auto simp: kv_load_def)
  have wf: "kv_wf (kv_insert key v self)" for key v
    using fields by (simp add: kv_wf_def kv_insert_def btree_wf_def)
  have "entries_under context [] (kv_insert key v self) [] = [(key, v)]" for key v
    using fields by (simp add: entries_under_def kv_insert_def cut_empty set_entry_def)
  then have "kv_compute_hash context [] (kv_insert (a @ b) c self) = kv_compute_hash context [] (kv_insert a (b @ c) self)"
    by (simp add: kv_compute_hash_entries wf)
  moreover have "overlay (kv_insert (a @ b) c self) Map.empty a \<noteq> overlay (kv_insert a (b @ c) self) Map.empty a"
    using assms(2) fields by (simp add: overlay_def kv_insert_def)
  ultimately show ?thesis by metis
qed

theorem kv_hash_ambiguous_witness:
  "kv_compute_hash ex_kv_context [] (kv_insert [0, 1] [] ex_kv_view) = kv_compute_hash ex_kv_context [] (kv_insert [0] [1] ex_kv_view)"
proof -
  have "kv_load ex_kv_context [] = Ok ex_kv_view"
    by (simp add: kv_load_def view_read_key_def read_key_bytes_def ex_kv_view_def)
  then show ?thesis using kv_hash_ambiguous [of ex_kv_context ex_kv_view "[1]" "[0]" "[]"] by simp
qed

text \<open>
  C35. The representation invariant of a key-value store view: updates and deleted prefixes are
  ordered maps, and a cleared view has no deleted prefixes. It holds of a loaded view, and every
  operation keeps it.
\<close>

theorem kv_view_well_formed:
  "(kv_load context store = Ok loaded \<longrightarrow> kv_wf loaded) \<and>
   (kv_wf self \<longrightarrow> kv_wf (kv_rollback self) \<and> kv_wf (kv_clear context self) \<and> kv_wf (fst (kv_flush context self)) \<and>
      kv_wf (kv_insert key v self) \<and> kv_wf (kv_remove key self) \<and> kv_wf (kv_delete_prefix key self) \<and>
      kv_wf (kv_write_batch batch self) \<and>
      (kv_hash_mut context store self = Ok (hashed, h) \<longrightarrow> kv_wf hashed))"
proof -
  have hash: "kv_wf (self\<lparr>kv_hash := h\<rparr>) \<longleftrightarrow> kv_wf self" for self h by (simp add: kv_wf_def)
  have fold: "kv_wf self \<Longrightarrow> kv_wf (fold kv_write_operation batch self)" for self
    by (induction batch arbitrary: self) (simp_all add: kv_wf_operation)
  have "kv_wf loaded" if "kv_load context store = Ok loaded"
    using that by (auto simp: kv_load_def kv_wf_def)
  moreover have "kv_wf hashed" if "kv_wf self" "kv_hash_mut context store self = Ok (hashed, h)"
    using that by (auto simp: kv_hash_mut_def hash)
  moreover have "kv_wf (kv_rollback self) \<and> kv_wf (kv_clear context self)"
    by (simp add: kv_wf_def kv_rollback_def kv_clear_def)
  ultimately show ?thesis
    by (auto simp: kv_operations hash kv_wf_operation kv_write_batch_def fold kv_flush_fst) (simp add: kv_wf_def)
qed

theorem kv_view_well_formed_witness:
  "kv_load ex_kv_context [] = Ok ex_kv_view \<and> kv_wf (kv_write_batch [DeletePrefix [1], Put [1, 3] [6]] ex_kv_view)"
proof -
  have "kv_load ex_kv_context [] = Ok ex_kv_view"
    by (simp add: kv_load_def view_read_key_def read_key_bytes_def ex_kv_view_def)
  then show ?thesis
    using kv_view_well_formed [of ex_kv_context "[]" ex_kv_view ex_kv_view "[]" "[]" "[DeletePrefix [1], Put [1, 3] [6]]" ex_kv_view "[]"]
    by blast
qed

end
