(* ===== verification/Lru_Cache.thy ===== *)
theory Lru_Cache
  imports Batches
begin

text \<open>
  The cache of recently read keys in front of a key-value store (\<open>lru_caching.rs\<close>). Used by one
  task at a time, the cache is transparent: every read returns what the store holds, and the cache
  never exceeds its size. The reads, however, give up the lock of the cache while the store is
  asked; with a write in between, an old value stays in the cache.

  The store behind the cache is the in-memory store of \<open>Batches\<close>. \<open>LinkedHashMap\<close> is the list of
  its keys: \<open>insert\<close> puts a key at the back, \<open>pop_front\<close> removes the first one.
\<close>

record LruPrefixCache =
  lru_map :: "(bytes, bytes option) BTreeMap"
  lru_queue :: "bytes list"
  lru_max_cache_size :: nat

definition lru_new :: "nat \<Rightarrow> LruPrefixCache" where
  "lru_new max_cache_size = \<lparr>lru_map = [], lru_queue = [], lru_max_cache_size = max_cache_size\<rparr>"

text \<open>The branch for an empty queue is the \<open>unreachable!\<close> of the code: the queue is longer than the limit.\<close>

definition lru_insert :: "bytes \<Rightarrow> bytes option \<Rightarrow> LruPrefixCache \<Rightarrow> LruPrefixCache" where
  "lru_insert key v self =
     (let occupied = (btree_get (lru_map self) key \<noteq> None);
          self = self\<lparr>lru_map := btree_insert key v (lru_map self), lru_queue := removeAll key (lru_queue self) @ [key]\<rparr>
      in if \<not> occupied \<and> length (lru_queue self) > lru_max_cache_size self
         then case lru_queue self of
                oldest # queue \<Rightarrow> self\<lparr>lru_queue := queue, lru_map := btree_remove oldest (lru_map self)\<rparr>
              | [] \<Rightarrow> self
         else self)"

definition lru_delete_prefix :: "bytes \<Rightarrow> LruPrefixCache \<Rightarrow> LruPrefixCache" where
  "lru_delete_prefix key_prefix self =
     self\<lparr>lru_map := map (\<lambda>(key, v). (key, if in_range (get_interval key_prefix) key then None else v)) (lru_map self)\<rparr>"

definition lru_query :: "LruPrefixCache \<Rightarrow> bytes \<Rightarrow> bytes option option" where
  "lru_query self key = btree_get (lru_map self) key"

record LruCachingKeyValueClient =
  lc_client :: kv_store
  lc_lru_read_keys :: "LruPrefixCache option"

definition lru_client_new :: "kv_store \<Rightarrow> nat \<Rightarrow> LruCachingKeyValueClient" where
  "lru_client_new client max_size =
     \<lparr>lc_client = client, lc_lru_read_keys = (if max_size = 0 then None else Some (lru_new max_size))\<rparr>"

definition lru_read_key_bytes :: "bytes \<Rightarrow> LruCachingKeyValueClient \<Rightarrow> LruCachingKeyValueClient \<times> bytes option" where
  "lru_read_key_bytes key self =
     (case lc_lru_read_keys self of
        None \<Rightarrow> (self, read_key_bytes (lc_client self) key)
      | Some lru_read_keys \<Rightarrow>
          (case lru_query lru_read_keys key of
             Some v \<Rightarrow> (self, v)
           | None \<Rightarrow>
               let v = read_key_bytes (lc_client self) key
               in (self\<lparr>lc_lru_read_keys := Some (lru_insert key v lru_read_keys)\<rparr>, v)))"

definition lru_read_multi_key_bytes ::
    "bytes list \<Rightarrow> LruCachingKeyValueClient \<Rightarrow> LruCachingKeyValueClient \<times> bytes option list" where
  "lru_read_multi_key_bytes keys self =
     (case lc_lru_read_keys self of
        None \<Rightarrow> (self, read_multi_key_bytes (lc_client self) keys)
      | Some lru_read_keys \<Rightarrow>
          let (result, cache_miss_indices, miss_keys) =
                fold (\<lambda>(i, key) (result, cache_miss_indices, miss_keys).
                  case lru_query lru_read_keys key of
                    Some v \<Rightarrow> (result @ [v], cache_miss_indices, miss_keys)
                  | None \<Rightarrow> (result @ [None], cache_miss_indices @ [i], miss_keys @ [key]))
                  (List.enumerate 0 keys) ([], [], []);
              entries = read_multi_key_bytes (lc_client self) miss_keys;
              (lru_read_keys, result) =
                fold (\<lambda>(i, key, v) (lru_read_keys, result). (lru_insert key v lru_read_keys, result[i := v]))
                  (zip cache_miss_indices (zip miss_keys entries)) (lru_read_keys, result)
          in (self\<lparr>lc_lru_read_keys := Some lru_read_keys\<rparr>, result))"

definition lru_write_operation :: "WriteOperation \<Rightarrow> LruPrefixCache \<Rightarrow> LruPrefixCache" where
  "lru_write_operation operation lru_read_keys =
     (case operation of
        Put key v \<Rightarrow> lru_insert key (Some v) lru_read_keys
      | Delete key \<Rightarrow> lru_insert key None lru_read_keys
      | DeletePrefix key_prefix \<Rightarrow> lru_delete_prefix key_prefix lru_read_keys)"

definition lru_write_batch :: "Batch \<Rightarrow> LruCachingKeyValueClient \<Rightarrow> LruCachingKeyValueClient" where
  "lru_write_batch batch self =
     (let self = self\<lparr>lc_lru_read_keys := map_option (fold lru_write_operation batch) (lc_lru_read_keys self)\<rparr>
      in self\<lparr>lc_client := write_batch batch (lc_client self)\<rparr>)"

section \<open>The invariant\<close>

definition lru_wf :: "LruPrefixCache \<Rightarrow> bool" where
  "lru_wf self \<longleftrightarrow> btree_wf (lru_map self) \<and> distinct (lru_queue self) \<and> set (lru_queue self) = btree_keys (lru_map self) \<and>
     length (lru_queue self) \<le> lru_max_cache_size self"

text \<open>What is cached is what the store holds.\<close>

definition coherent :: "LruPrefixCache \<Rightarrow> (bytes \<rightharpoonup> bytes) \<Rightarrow> bool" where
  "coherent self stored \<longleftrightarrow> (\<forall>key v. lru_query self key = Some v \<longrightarrow> stored key = v)"

lemma lru_wf_new: "lru_wf (lru_new n)" "coherent (lru_new n) stored"
  by (simp_all add: lru_wf_def lru_new_def coherent_def lru_query_def btree_keys_def)

lemma btree_keys_dom: "btree_keys m = dom (btree_get m)"
  by (simp add: btree_keys_def dom_map_of_conv_image_fst)

lemma btree_keys_remove: "btree_wf m \<Longrightarrow> btree_keys (btree_remove k m) = btree_keys m - {k}"
  by (auto simp: btree_keys_dom btree_get_remove split: if_splits)

lemma lru_insert_wf:
  assumes wf: "lru_wf self" and "lru_max_cache_size self > 0"
  shows "lru_wf (lru_insert key v self)" and "lru_max_cache_size (lru_insert key v self) = lru_max_cache_size self"
proof -
  let ?map = "btree_insert key v (lru_map self)" and ?queue = "removeAll key (lru_queue self) @ [key]"
  have q: "distinct ?queue" "set ?queue = btree_keys ?map" "btree_wf ?map"
    using wf by (auto simp: lru_wf_def distinct_removeAll btree_keys_insert)
  have len: "length (removeAll key (lru_queue self)) =
      (if btree_get (lru_map self) key = None then length (lru_queue self) else length (lru_queue self) - 1)"
    using wf by (auto simp: lru_wf_def distinct_remove1_removeAll [symmetric] length_remove1 btree_keys_dom)
  show "lru_max_cache_size (lru_insert key v self) = lru_max_cache_size self"
    by (simp add: lru_insert_def Let_def split: list.split)
  show "lru_wf (lru_insert key v self)"
  proof (cases "btree_get (lru_map self) key = None \<and> length ?queue > lru_max_cache_size self")
    case True
    then obtain oldest queue where oq: "?queue = oldest # queue" by (cases ?queue) auto
    have "lru_insert key v self = self\<lparr>lru_map := btree_remove oldest ?map, lru_queue := queue\<rparr>"
      using True oq by (simp add: lru_insert_def Let_def)
    moreover have "length queue = length (lru_queue self)"
      using arg_cong [OF oq, of length] len True by simp
    ultimately show ?thesis
      using q wf oq by (auto simp: lru_wf_def btree_keys_remove)
  next
    case False
    then have "lru_insert key v self = self\<lparr>lru_map := ?map, lru_queue := ?queue\<rparr>"
      by (auto simp: lru_insert_def Let_def)
    moreover have "length ?queue \<le> lru_max_cache_size self"
      using False len wf assms(2) by (auto simp: lru_wf_def not_less)
    ultimately show ?thesis using q wf by (simp add: lru_wf_def)
  qed
qed

lemma lru_query_insert:
  assumes "lru_wf self" and "lru_query (lru_insert key v self) k = Some w"
  shows "if k = key then w = v else lru_query self k = Some w"
  using assms
  by (auto simp: lru_insert_def lru_query_def Let_def lru_wf_def btree_simps split: list.splits if_splits)

lemma coherent_insert:
  assumes "lru_wf self" and "\<forall>k. k \<noteq> key \<longrightarrow> stored' k = stored k" and "stored' key = v" and "coherent self stored"
  shows "coherent (lru_insert key v self) stored'"
  unfolding coherent_def
proof (intro allI impI)
  fix k w
  assume "lru_query (lru_insert key v self) k = Some w"
  from lru_query_insert [OF assms(1) this] show "stored' k = w"
    using assms(2-4) by (cases "k = key") (auto simp: coherent_def)
qed

lemma lru_delete_prefix_query:
  "lru_query (lru_delete_prefix p self) k = (if prefix p k then map_option (\<lambda>_. None) (lru_query self k) else lru_query self k)"
proof -
  have "map_of (map (\<lambda>(key, v). (key, if prefix p key then None else v)) m) k =
      (if prefix p k then map_option (\<lambda>_. None) (map_of m k) else map_of m k)" for m :: "(bytes, bytes option) BTreeMap"
    by (induction m) auto
  then show ?thesis by (simp add: lru_query_def lru_delete_prefix_def in_interval_iff)
qed

lemma lru_delete_prefix_keys: "map fst (lru_map (lru_delete_prefix p self)) = map fst (lru_map self)"
  by (simp add: lru_delete_prefix_def case_prod_beta comp_def)

lemma lru_delete_prefix_wf: "lru_wf self \<Longrightarrow> lru_wf (lru_delete_prefix p self)"
proof -
  have "lru_queue (lru_delete_prefix p self) = lru_queue self"
    "lru_max_cache_size (lru_delete_prefix p self) = lru_max_cache_size self"
    by (simp_all add: lru_delete_prefix_def)
  then show "lru_wf self \<Longrightarrow> ?thesis"
    using lru_delete_prefix_keys [of p self] by (simp add: lru_wf_def btree_wf_def btree_keys_def flip: set_map)
qed

lemma lru_write_operation_inv:
  assumes "lru_wf self" and "lru_max_cache_size self > 0" and "coherent self stored"
  shows "lru_wf (lru_write_operation operation self)"
    and "lru_max_cache_size (lru_write_operation operation self) = lru_max_cache_size self"
    and "coherent (lru_write_operation operation self) (effect operation stored)"
proof -
  show "lru_wf (lru_write_operation operation self)"
    "lru_max_cache_size (lru_write_operation operation self) = lru_max_cache_size self"
    using lru_insert_wf [OF assms(1,2)] lru_delete_prefix_wf [OF assms(1)]
    by (auto simp: lru_write_operation_def lru_delete_prefix_def split: WriteOperation.split)
  show "coherent (lru_write_operation operation self) (effect operation stored)"
  proof (cases operation)
    case (DeletePrefix p)
    then show ?thesis
      using assms(3) by (auto simp: lru_write_operation_def coherent_def effect_def lru_delete_prefix_query split: if_splits)
  qed (use assms in \<open>auto simp: lru_write_operation_def effect_def intro!: coherent_insert [where stored = stored]\<close>)
qed

lemma lru_write_operations_inv:
  "lru_wf self \<Longrightarrow> lru_max_cache_size self > 0 \<Longrightarrow> coherent self stored \<Longrightarrow>
   lru_wf (fold lru_write_operation batch self) \<and> lru_max_cache_size (fold lru_write_operation batch self) = lru_max_cache_size self \<and>
   coherent (fold lru_write_operation batch self) (fold effect batch stored)"
proof (induction batch arbitrary: self stored)
  case (Cons operation batch)
  then show ?case using lru_write_operation_inv [OF Cons.prems, of operation] by simp
qed simp

section \<open>Reading several keys\<close>

lemma collect_misses:
  "fold (\<lambda>(i, key) (result, cache_miss_indices, miss_keys).
       case q key of
         Some v \<Rightarrow> (result @ [v], cache_miss_indices, miss_keys)
       | None \<Rightarrow> (result @ [None], cache_miss_indices @ [i], miss_keys @ [key]))
     (List.enumerate n keys) (rs, is, ks) =
   (rs @ map (\<lambda>key. case q key of Some v \<Rightarrow> v | None \<Rightarrow> None) keys,
    is @ map fst (filter (\<lambda>(i, key). q key = None) (List.enumerate n keys)), ks @ filter (\<lambda>key. q key = None) keys)"
  by (induction keys arbitrary: n rs "is" ks) (auto split: option.split)

text \<open>Filling in what was missed, and inserting it into the cache.\<close>

lemma fill_misses:
  assumes "\<forall>key v. q key = Some v \<longrightarrow> stored key = v"
  shows "lru_wf cache \<Longrightarrow> lru_max_cache_size cache > 0 \<Longrightarrow> coherent cache stored \<Longrightarrow> length pre = n \<Longrightarrow>
    (case fold (\<lambda>(i, key, v) (cache, result). (lru_insert key v cache, result[i := v]))
       (zip (map fst (filter (\<lambda>(i, key). q key = None) (List.enumerate n keys)))
         (zip (filter (\<lambda>key. q key = None) keys) (map stored (filter (\<lambda>key. q key = None) keys))))
       (cache, pre @ map (\<lambda>key. case q key of Some v \<Rightarrow> v | None \<Rightarrow> None) keys) of
     (cache', result) \<Rightarrow> lru_wf cache' \<and> lru_max_cache_size cache' = lru_max_cache_size cache \<and> coherent cache' stored \<and>
       result = pre @ map stored keys)"
proof (induction keys arbitrary: n pre cache)
  case (Cons key keys)
  show ?case
  proof (cases "q key")
    case None
    have "coherent (lru_insert key (stored key) cache) stored"
      using Cons.prems by (intro coherent_insert [where stored = stored]) simp_all
    then show ?thesis
      using Cons.IH [of "lru_insert key (stored key) cache" "pre @ [stored key]" "Suc n"] None Cons.prems
        lru_insert_wf [OF Cons.prems(1,2), of key "stored key"]
      by (auto simp: list_update_append)
  next
    case (Some v)
    then show ?thesis
      using Cons.IH [of cache "pre @ [v]" "Suc n"] Cons.prems assms by auto
  qed
qed simp

section \<open>Transparency\<close>

definition lru_client_inv :: "nat \<Rightarrow> LruCachingKeyValueClient \<Rightarrow> bool" where
  "lru_client_inv max_size self \<longleftrightarrow> btree_wf (lc_client self) \<and>
     (case lc_lru_read_keys self of
        None \<Rightarrow> max_size = 0
      | Some cache \<Rightarrow> lru_wf cache \<and> lru_max_cache_size cache = max_size \<and> max_size > 0 \<and> coherent cache (btree_get (lc_client self)))"

lemma lru_client_inv_new: "btree_wf client \<Longrightarrow> lru_client_inv n (lru_client_new client n)"
  by (simp add: lru_client_inv_def lru_client_new_def lru_wf_new) (simp add: lru_new_def)

lemma lru_read_key_bytes_inv:
  assumes inv: "lru_client_inv n self"
  shows "snd (lru_read_key_bytes key self) = btree_get (lc_client self) key"
    and "lru_client_inv n (fst (lru_read_key_bytes key self))"
    and "lc_client (fst (lru_read_key_bytes key self)) = lc_client self"
proof -
  have "snd (lru_read_key_bytes key self) = btree_get (lc_client self) key \<and> lru_client_inv n (fst (lru_read_key_bytes key self)) \<and>
      lc_client (fst (lru_read_key_bytes key self)) = lc_client self"
  proof (cases "lc_lru_read_keys self")
    case (Some cache)
    show ?thesis
    proof (cases "lru_query cache key")
      case None
      have "coherent (lru_insert key (btree_get (lc_client self) key) cache) (btree_get (lc_client self))"
        using inv Some by (intro coherent_insert [where stored = "btree_get (lc_client self)"]) (simp_all add: lru_client_inv_def)
      then show ?thesis
        using None Some inv lru_insert_wf [of cache key "btree_get (lc_client self) key"]
        by (simp add: lru_read_key_bytes_def lru_client_inv_def read_key_bytes_def Let_def)
    next
      case (Some v)
      then show ?thesis
        using \<open>lc_lru_read_keys self = Some cache\<close> inv by (auto simp: lru_read_key_bytes_def lru_client_inv_def coherent_def)
    qed
  qed (use inv in \<open>simp add: lru_read_key_bytes_def read_key_bytes_def\<close>)
  then show "snd (lru_read_key_bytes key self) = btree_get (lc_client self) key"
    "lru_client_inv n (fst (lru_read_key_bytes key self))" "lc_client (fst (lru_read_key_bytes key self)) = lc_client self"
    by blast+
qed

lemma lru_read_multi_key_bytes_inv:
  assumes inv: "lru_client_inv n self"
  shows "snd (lru_read_multi_key_bytes keys self) = map (btree_get (lc_client self)) keys \<and>
    lru_client_inv n (fst (lru_read_multi_key_bytes keys self)) \<and>
    lc_client (fst (lru_read_multi_key_bytes keys self)) = lc_client self"
proof (cases "lc_lru_read_keys self")
  case (Some cache)
  have "\<forall>key v. lru_query cache key = Some v \<longrightarrow> btree_get (lc_client self) key = v"
    using inv Some by (simp add: lru_client_inv_def coherent_def)
  from fill_misses [OF this, of cache "[]" 0 keys] show ?thesis
    using inv Some
    by (auto simp: lru_read_multi_key_bytes_def collect_misses read_multi_key_bytes_def lru_client_inv_def Let_def
        split: prod.splits)
qed (use inv in \<open>simp add: lru_read_multi_key_bytes_def read_multi_key_bytes_def\<close>)

lemma lru_write_batch_inv:
  assumes "lru_client_inv n self"
  shows "lru_client_inv n (lru_write_batch batch self) \<and> lc_client (lru_write_batch batch self) = write_batch batch (lc_client self)"
  using assms lru_write_operations_inv [of _ "btree_get (lc_client self)" batch]
  by (auto simp: lru_client_inv_def lru_write_batch_def write_batch_get split: option.splits)

text \<open>The requests of a task, and the store without a cache answering them.\<close>

datatype StoreRequest = ReadKey bytes | ReadMultiKey "bytes list" | FindKeys bytes | FindKeyValues bytes | WriteBatch Batch

datatype StoreAnswer = Entry "bytes option" | Entries "bytes option list" | Keys "bytes list" | KeyValues "(bytes \<times> bytes) list" | Written

fun store_answer :: "StoreRequest \<Rightarrow> kv_store \<Rightarrow> kv_store \<times> StoreAnswer" where
  "store_answer (ReadKey key) store = (store, Entry (read_key_bytes store key))"
| "store_answer (ReadMultiKey keys) store = (store, Entries (read_multi_key_bytes store keys))"
| "store_answer (FindKeys key_prefix) store = (store, Keys (find_keys_by_prefix store key_prefix))"
| "store_answer (FindKeyValues key_prefix) store = (store, KeyValues (find_key_values_by_prefix store key_prefix))"
| "store_answer (WriteBatch batch) store = (write_batch batch store, Written)"

fun lru_answer :: "StoreRequest \<Rightarrow> LruCachingKeyValueClient \<Rightarrow> LruCachingKeyValueClient \<times> StoreAnswer" where
  "lru_answer (ReadKey key) self = map_prod id Entry (lru_read_key_bytes key self)"
| "lru_answer (ReadMultiKey keys) self = map_prod id Entries (lru_read_multi_key_bytes keys self)"
| "lru_answer (FindKeys key_prefix) self = (self, Keys (find_keys_by_prefix (lc_client self) key_prefix))"
| "lru_answer (FindKeyValues key_prefix) self = (self, KeyValues (find_key_values_by_prefix (lc_client self) key_prefix))"
| "lru_answer (WriteBatch batch) self = (lru_write_batch batch self, Written)"

fun answer_all :: "(StoreRequest \<Rightarrow> 's \<Rightarrow> 's \<times> StoreAnswer) \<Rightarrow> StoreRequest list \<Rightarrow> 's \<Rightarrow> 's \<times> StoreAnswer list" where
  "answer_all answer [] state = (state, [])"
| "answer_all answer (request # requests) state =
     (let (state, reply) = answer request state; (state, replies) = answer_all answer requests state in (state, reply # replies))"

lemma lru_answer_inv:
  assumes "lru_client_inv n self"
  shows "lru_client_inv n (fst (lru_answer request self)) \<and>
    store_answer request (lc_client self) = map_prod lc_client id (lru_answer request self)"
  using assms lru_read_key_bytes_inv [OF assms] lru_read_multi_key_bytes_inv [OF assms] lru_write_batch_inv [OF assms]
  by (cases request) (auto simp: map_prod_def split_beta read_key_bytes_def read_multi_key_bytes_def)

lemma lru_answer_all_inv:
  "lru_client_inv n self \<Longrightarrow> lru_client_inv n (fst (answer_all lru_answer requests self)) \<and>
   answer_all store_answer requests (lc_client self) = map_prod lc_client id (answer_all lru_answer requests self)"
proof (induction requests arbitrary: self)
  case (Cons request requests)
  then show ?case
    using lru_answer_inv [OF Cons.prems, of request] Cons.IH [of "fst (lru_answer request self)"]
    by (cases "lru_answer request self") (auto simp: map_prod_def split_beta)
qed simp

lemma lru_wf_length: "lru_wf self \<Longrightarrow> length (lru_map self) \<le> lru_max_cache_size self"
  by (metis btree_keys_def btree_wf_distinct distinct_card length_map list.set_map lru_wf_def)

text \<open>
  C36. The cache is transparent to a task that uses it alone: whatever the sequence of reads of one key
  and of several, of searches by prefix and of batches, the client with a cache of any size gives the
  answers of the store without one and leaves the same store. The cache never holds more than its
  maximal number of keys, and there is no cache exactly when that number is zero.
\<close>

theorem lru_cache_transparent:
  assumes "btree_wf client"
  shows "case answer_all lru_answer requests (lru_client_new client max_size) of
    (self, answers) \<Rightarrow> answer_all store_answer requests client = (lc_client self, answers) \<and>
      (case lc_lru_read_keys self of
         None \<Rightarrow> max_size = 0
       | Some cache \<Rightarrow> max_size > 0 \<and> length (lru_map cache) \<le> max_size)"
proof -
  have "lc_client (lru_client_new client max_size) = client" by (simp add: lru_client_new_def)
  with lru_answer_all_inv [OF lru_client_inv_new [OF assms], of max_size requests] show ?thesis
    by (auto simp: lru_client_inv_def split: option.splits dest: lru_wf_length)
qed

theorem lru_cache_transparent_witness:
  "btree_wf ([([1], [10])] :: kv_store) \<and>
   (case answer_all lru_answer [ReadMultiKey [[1], [2]], WriteBatch [DeletePrefix [], Put [2] [20]], ReadKey [1], ReadKey [2]]
       (lru_client_new [([1], [10])] 1) of
      (self, answers) \<Rightarrow> lc_client self = [([2], [20])] \<and>
        answers = [Entries [Some [10], None], Written, Entry None, Entry (Some [20])])"
proof -
  have wf: "btree_wf ([([1], [10])] :: kv_store)" by (simp add: btree_wf_def)
  show ?thesis
    using wf lru_cache_transparent [OF wf, of "[ReadMultiKey [[1], [2]], WriteBatch [DeletePrefix [], Put [2] [20]], ReadKey [1], ReadKey [2]]" 1]
    by (auto simp: read_multi_key_bytes_def read_key_bytes_def write_batch_def write_operation_def remove_interval_def
        btree_range_def in_interval_iff)
qed

end
