(* ===== verification/Spec2Isabelle.thy ===== *)
theory Spec2Isabelle
  imports Consensus_Run Single_Consensus Aggregation Inbox Block_Funds Worker_Run View_Properties Lru_Cache
begin

text \<open>
  A verification development for the Linera protocol (Rust workspace under \<open>src/\<close>).
\<close>

end
